(* ===== verification/Cemu_Prelude.thy ===== *)
theory Cemu_Prelude
  imports "HOL-Library.Word" "HOL-Library.Signed_Division"
begin

text \<open>
  The prelude of the library: names for C's fixed-width integer types, the
  execution monad in which the interpreter is written, the rules that carry
  an assertion through that monad, the little-endian byte codec that stands
  for \<open>memcpy\<close> between integers and memory, and generic lemmas on words.
\<close>

unbundle bit_operations_syntax

type_synonym u8 = "8 word"
type_synonym u16 = "16 word"
type_synonym u32 = "32 word"
type_synonym u64 = "64 word"

named_theorems keep_intros "rules that carry an assertion through the execution monad"
named_theorems same_intros "rules that show that a program leaves a view of the state alone"

section \<open>The execution monad\<close>

text \<open>
  One interpreter call maps a state to an outcome.  A normal return carries
  a value.  \<open>Raise\<close> is \<open>raise_\<close> of cpu/step.c: a \<open>longjmp\<close> to the landing
  pad of the step, which does not undo the writes made before it, so the
  state at the point of the raise is part of the outcome.  \<open>Fatal\<close> is the
  \<open>Fatal\<close> of util/log.c, which ends the process.  \<open>Undef\<close> is a C access
  outside the bounds of an array.
\<close>

record trap_rec =
  t_cause :: u64
  t_tval :: u64
  t_paddr :: "u64 option"

datatype ('s, 'a) outcome = Ok 'a 's | Raise trap_rec 's | Fatal | Undef

type_synonym ('s, 'a) prog = "'s \<Rightarrow> ('s, 'a) outcome"

definition ret :: "'a \<Rightarrow> ('s, 'a) prog" where
  "ret a = (\<lambda>s. Ok a s)"

definition andthen :: "('s, 'a) prog \<Rightarrow> ('a \<Rightarrow> ('s, 'b) prog) \<Rightarrow> ('s, 'b) prog" where
  "andthen m f = (\<lambda>s. case m s of Ok a s' \<Rightarrow> f a s' | Raise t s' \<Rightarrow> Raise t s'
     | Fatal \<Rightarrow> Fatal | Undef \<Rightarrow> Undef)"

definition reads :: "('s \<Rightarrow> 'a) \<Rightarrow> ('s, 'a) prog" where
  "reads f = (\<lambda>s. Ok (f s) s)"

definition updates :: "('s \<Rightarrow> 's) \<Rightarrow> ('s, unit) prog" where
  "updates f = (\<lambda>s. Ok () (f s))"

definition raise_trap :: "u64 \<Rightarrow> u64 \<Rightarrow> ('s, 'a) prog" where
  "raise_trap cause tval = (\<lambda>s. Raise \<lparr>t_cause = cause, t_tval = tval, t_paddr = None\<rparr> s)"

definition raise_paddr :: "u64 \<Rightarrow> u64 \<Rightarrow> u64 \<Rightarrow> ('s, 'a) prog" where
  "raise_paddr cause tval paddr =
     (\<lambda>s. Raise \<lparr>t_cause = cause, t_tval = tval, t_paddr = Some paddr\<rparr> s)"

definition fatal :: "('s, 'a) prog" where
  "fatal = (\<lambda>s. Fatal)"

definition undef :: "('s, 'a) prog" where
  "undef = (\<lambda>s. Undef)"

lemmas prog_defs = ret_def andthen_def reads_def updates_def raise_trap_def raise_paddr_def
  fatal_def undef_def

lemma andthen_ret [simp]: "andthen (ret a) f = f a"
  by (simp add: andthen_def ret_def)

lemma andthen_assoc: "andthen (andthen m f) g = andthen m (\<lambda>a. andthen (f a) g)"
  by (rule ext) (simp add: andthen_def split: outcome.splits)

lemma andthen_raise [simp]: "andthen (raise_trap c t) f = raise_trap c t"
  by (simp add: andthen_def raise_trap_def)

lemma andthen_reads: "andthen (reads g) f s = f (g s) s"
  by (simp add: andthen_def reads_def)

lemma andthen_updates: "andthen (updates g) f s = f () (g s)"
  by (simp add: andthen_def updates_def)

lemma andthen_fatal [simp]: "andthen fatal f = fatal" and andthen_undef [simp]: "andthen undef f = undef"
  by (simp_all add: andthen_def fatal_def undef_def)

subsection \<open>Assertions along a program\<close>

text \<open>
  \<open>keeps P m\<close>: the assertion \<open>P\<close> survives \<open>m\<close>, on a return and on a raise.
  \<open>same f m\<close>: \<open>m\<close> leaves the view \<open>f\<close> of the state alone.  \<open>atomic f m\<close>: a
  raise out of \<open>m\<close> leaves the view \<open>f\<close> alone, whatever a return does.
  \<open>never_raises m\<close>: \<open>m\<close> does not raise at all.
\<close>

definition keeps :: "('s \<Rightarrow> bool) \<Rightarrow> ('s, 'a) prog \<Rightarrow> bool" where
  "keeps P m \<longleftrightarrow> (\<forall>s. P s \<longrightarrow> (case m s of Ok a s' \<Rightarrow> P s' | Raise t s' \<Rightarrow> P s'
     | Fatal \<Rightarrow> True | Undef \<Rightarrow> True))"

definition same :: "('s \<Rightarrow> 'v) \<Rightarrow> ('s, 'a) prog \<Rightarrow> bool" where
  "same f m \<longleftrightarrow> (\<forall>s. case m s of Ok a s' \<Rightarrow> f s' = f s | Raise t s' \<Rightarrow> f s' = f s
     | Fatal \<Rightarrow> True | Undef \<Rightarrow> True)"

definition atomic :: "('s \<Rightarrow> 'v) \<Rightarrow> ('s, 'a) prog \<Rightarrow> bool" where
  "atomic f m \<longleftrightarrow> (\<forall>s t s'. m s = Raise t s' \<longrightarrow> f s' = f s)"

definition never_raises :: "('s, 'a) prog \<Rightarrow> bool" where
  "never_raises m \<longleftrightarrow> (\<forall>s t s'. m s \<noteq> Raise t s')"

lemma keepsD: "keeps P m \<Longrightarrow> P s \<Longrightarrow> m s = Ok a s' \<Longrightarrow> P s'"
  and keepsD_raise: "keeps P m \<Longrightarrow> P s \<Longrightarrow> m s = Raise t s' \<Longrightarrow> P s'"
  unfolding keeps_def by (drule spec [of _ s], simp)+

lemma keepsI:
  assumes "\<And>s a s'. P s \<Longrightarrow> m s = Ok a s' \<Longrightarrow> P s'"
    and "\<And>s t s'. P s \<Longrightarrow> m s = Raise t s' \<Longrightarrow> P s'"
  shows "keeps P m"
proof (unfold keeps_def, intro allI impI)
  fix s
  assume s: "P s"
  show "case m s of Ok a s' \<Rightarrow> P s' | Raise t s' \<Rightarrow> P s' | Fatal \<Rightarrow> True | Undef \<Rightarrow> True"
  proof (cases "m s")
    case (Ok a s')
    then show ?thesis by (simp add: assms(1) [OF s])
  next
    case (Raise t s')
    then show ?thesis by (simp add: assms(2) [OF s])
  qed simp_all
qed

lemma andthen_cases:
  assumes "andthen m f s = r"
  obtains (Ok) a s' where "m s = Ok a s'" "f a s' = r"
    | (Raise) t s' where "m s = Raise t s'" "r = Raise t s'"
    | (Fatal) "m s = Fatal" "r = Fatal"
    | (Undef) "m s = Undef" "r = Undef"
  using assms by (cases "m s") (auto simp: andthen_def)

lemma keeps_andthen [keep_intros]:
  assumes m: "keeps P m" and f: "\<And>a. keeps P (f a)"
  shows "keeps P (andthen m f)"
proof (rule keepsI)
  fix s a s'
  assume s: "P s" and "andthen m f s = Ok a s'"
  from this(2) show "P s'"
  proof (cases rule: andthen_cases)
    case (Ok b s1)
    then show ?thesis using keepsD [OF f] keepsD [OF m s] by blast
  qed simp_all
next
  fix s t s'
  assume s: "P s" and "andthen m f s = Raise t s'"
  from this(2) show "P s'"
  proof (cases rule: andthen_cases)
    case (Ok a s1)
    then show ?thesis using keepsD_raise [OF f] keepsD [OF m s] by blast
  next
    case (Raise t1 s1)
    then show ?thesis using keepsD_raise [OF m s] by simp
  qed simp_all
qed

lemma keeps_ret [keep_intros]: "keeps P (ret a)"
  and keeps_reads [keep_intros]: "keeps P (reads g)"
  and keeps_raise [keep_intros]: "keeps P (raise_trap c t)"
  and keeps_raise_paddr [keep_intros]: "keeps P (raise_paddr c t p)"
  and keeps_fatal [keep_intros]: "keeps P fatal"
  and keeps_undef [keep_intros]: "keeps P undef"
  by (simp_all add: keeps_def prog_defs)

lemma keeps_updates [keep_intros]: "(\<And>s. P s \<Longrightarrow> P (g s)) \<Longrightarrow> keeps P (updates g)"
  by (simp add: keeps_def updates_def)


lemma keeps_if [keep_intros]: "keeps P m \<Longrightarrow> keeps P n \<Longrightarrow> keeps P (if c then m else n)"
  by simp

lemma keeps_option [keep_intros]:
  "keeps P m \<Longrightarrow> (\<And>a. keeps P (f a)) \<Longrightarrow> keeps P (case x of None \<Rightarrow> m | Some a \<Rightarrow> f a)"
  by (simp split: option.splits)

lemma keeps_prod [keep_intros]:
  "(\<And>a b. keeps P (f a b)) \<Longrightarrow> keeps P (case x of (a, b) \<Rightarrow> f a b)"
  by (simp split: prod.splits)

lemma keeps_let [keep_intros]: "(\<And>a. keeps P (f a)) \<Longrightarrow> keeps P (let a = x in f a)"
  by simp



text \<open>
  \<open>yields P Q m\<close>: as \<open>keeps P m\<close>, and a returned value satisfies \<open>Q\<close>.
\<close>

definition yields :: "('s \<Rightarrow> bool) \<Rightarrow> ('a \<Rightarrow> bool) \<Rightarrow> ('s, 'a) prog \<Rightarrow> bool" where
  "yields P Q m \<longleftrightarrow> keeps P m \<and> (\<forall>s a s'. P s \<longrightarrow> m s = Ok a s' \<longrightarrow> Q a)"

lemma yieldsD: "yields P Q m \<Longrightarrow> P s \<Longrightarrow> m s = Ok a s' \<Longrightarrow> P s' \<and> Q a"
  by (auto simp: yields_def dest: keepsD)

lemma yields_keeps: "yields P Q m \<Longrightarrow> keeps P m"
  by (simp add: yields_def)

lemma yields_andthen:
  assumes m: "yields P R m" and f: "\<And>a. R a \<Longrightarrow> yields P Q (f a)"
  shows "yields P Q (andthen m f)"
proof (unfold yields_def, intro conjI allI impI)
  show "keeps P (andthen m f)"
  proof (rule keepsI)
    fix s a s'
    assume s: "P s" and "andthen m f s = Ok a s'"
    from this(2) show "P s'"
    proof (cases rule: andthen_cases)
      case (Ok b s1)
      then show ?thesis using yieldsD [OF m s Ok(1)] yieldsD [OF f _ Ok(2)] by blast
    qed simp_all
  next
    fix s t s'
    assume s: "P s" and "andthen m f s = Raise t s'"
    from this(2) show "P s'"
    proof (cases rule: andthen_cases)
      case (Ok b s1)
      then show ?thesis using yieldsD [OF m s Ok(1)] keepsD_raise [OF yields_keeps [OF f] _ Ok(2)] by blast
    next
      case (Raise t1 s1)
      then show ?thesis using keepsD_raise [OF yields_keeps [OF m] s] by simp
    qed simp_all
  qed
next
  fix s a s'
  assume s: "P s" and "andthen m f s = Ok a s'"
  from this(2) show "Q a"
  proof (cases rule: andthen_cases)
    case (Ok b s1)
    then show ?thesis using yieldsD [OF m s Ok(1)] yieldsD [OF f _ Ok(2)] by blast
  qed simp_all
qed

lemma yields_andthen_keeps:
  assumes "keeps P m" "\<And>a. yields P Q (f a)"
  shows "yields P Q (andthen m f)"
  by (rule yields_andthen [where R = "\<lambda>_. True"]) (use assms in \<open>simp_all add: yields_def\<close>)

lemma yields_ret: "Q a \<Longrightarrow> yields P Q (ret a)"
  by (simp add: yields_def keeps_ret) (simp add: ret_def)

lemma yields_stop:
  "yields P Q (raise_trap c t)" "yields P Q (raise_paddr c t p)" "yields P Q fatal" "yields P Q undef"
  by (simp_all add: yields_def keep_intros) (simp_all add: prog_defs)

lemma yields_if: "yields P Q m \<Longrightarrow> yields P Q n \<Longrightarrow> yields P Q (if c then m else n)"
  by simp

lemma yields_let: "(\<And>a. yields P Q (f a)) \<Longrightarrow> yields P Q (let a = x in f a)"
  by simp

lemma yields_option:
  "yields P Q m \<Longrightarrow> (\<And>a. yields P Q (f a)) \<Longrightarrow> yields P Q (case x of None \<Rightarrow> m | Some a \<Rightarrow> f a)"
  by (simp split: option.splits)

lemma yields_prod: "(\<And>a b. yields P Q (f a b)) \<Longrightarrow> yields P Q (case x of (a, b) \<Rightarrow> f a b)"
  by (simp split: prod.splits)

lemmas yield_intros = yields_andthen_keeps yields_ret yields_stop yields_if yields_let yields_option
  yields_prod

lemma sameD: "same v m \<Longrightarrow> m s = Ok a s' \<Longrightarrow> v s' = v s"
  and sameD_raise: "same v m \<Longrightarrow> m s = Raise t s' \<Longrightarrow> v s' = v s"
  unfolding same_def by (drule spec [of _ s], simp)+

lemma sameI:
  assumes "\<And>s a s'. m s = Ok a s' \<Longrightarrow> v s' = v s"
    and "\<And>s t s'. m s = Raise t s' \<Longrightarrow> v s' = v s"
  shows "same v m"
proof (unfold same_def, intro allI)
  fix s
  show "case m s of Ok a s' \<Rightarrow> v s' = v s | Raise t s' \<Rightarrow> v s' = v s | Fatal \<Rightarrow> True | Undef \<Rightarrow> True"
  proof (cases "m s")
    case (Ok a s')
    then show ?thesis using assms(1) [OF Ok] by simp
  next
    case (Raise t s')
    then show ?thesis using assms(2) [OF Raise] by simp
  qed simp_all
qed

lemma same_ret [same_intros]: "same v (ret a)"
  and same_reads [same_intros]: "same v (reads g)"
  and same_raise [same_intros]: "same v (raise_trap c t)"
  and same_raise_paddr [same_intros]: "same v (raise_paddr c t p)"
  and same_fatal [same_intros]: "same v fatal"
  and same_undef [same_intros]: "same v undef"
  by (simp_all add: same_def prog_defs)

lemma same_updates [same_intros]: "(\<And>s. v (g s) = v s) \<Longrightarrow> same v (updates g)"
  by (simp add: same_def updates_def)

lemma same_andthen [same_intros]:
  assumes m: "same v m" and f: "\<And>a. same v (f a)"
  shows "same v (andthen m f)"
proof (rule sameI)
  fix s a s'
  assume "andthen m f s = Ok a s'"
  then show "v s' = v s"
  proof (cases rule: andthen_cases)
    case (Ok b s1)
    then show ?thesis using sameD [OF f Ok(2)] sameD [OF m Ok(1)] by simp
  qed simp_all
next
  fix s t s'
  assume "andthen m f s = Raise t s'"
  then show "v s' = v s"
  proof (cases rule: andthen_cases)
    case (Ok b s1)
    then show ?thesis using sameD_raise [OF f Ok(2)] sameD [OF m Ok(1)] by simp
  next
    case (Raise t1 s1)
    then show ?thesis using sameD_raise [OF m Raise(1)] by simp
  qed simp_all
qed

lemma same_if [same_intros]: "same v m \<Longrightarrow> same v n \<Longrightarrow> same v (if c then m else n)"
  by simp

lemma same_option [same_intros]:
  "same v m \<Longrightarrow> (\<And>a. same v (f a)) \<Longrightarrow> same v (case x of None \<Rightarrow> m | Some a \<Rightarrow> f a)"
  by (simp split: option.splits)

lemma same_prod [same_intros]:
  "(\<And>a b. same v (f a b)) \<Longrightarrow> same v (case x of (a, b) \<Rightarrow> f a b)"
  by (simp split: prod.splits)

lemma same_let [same_intros]: "(\<And>a. same v (f a)) \<Longrightarrow> same v (let a = x in f a)"
  by simp


lemma same_atomic: "same v m \<Longrightarrow> atomic v m"
  by (auto simp: atomic_def dest: sameD_raise)

lemma never_raises_atomic: "never_raises m \<Longrightarrow> atomic v m"
  by (auto simp: atomic_def never_raises_def)

text \<open>
  A sequence is atomic in two ways: the first part leaves the view alone and
  the second is atomic, or the first part is atomic and the second cannot
  raise.  The second is the shape of every load: all faults come before the
  register is written.
\<close>

lemma atomicD: "atomic v m \<Longrightarrow> m s = Raise t s' \<Longrightarrow> v s' = v s"
  by (simp add: atomic_def)

lemma atomic_andthen_same:
  assumes m: "same v m" and f: "\<And>a. atomic v (f a)"
  shows "atomic v (andthen m f)"
proof (unfold atomic_def, intro allI impI)
  fix s t s'
  assume "andthen m f s = Raise t s'"
  then show "v s' = v s"
  proof (cases rule: andthen_cases)
    case (Ok b s1)
    then show ?thesis using atomicD [OF f Ok(2)] sameD [OF m Ok(1)] by simp
  next
    case (Raise t1 s1)
    then show ?thesis using sameD_raise [OF m Raise(1)] by simp
  qed simp_all
qed

lemma atomic_andthen_quiet:
  assumes m: "atomic v m" and f: "\<And>a. never_raises (f a)"
  shows "atomic v (andthen m f)"
proof (unfold atomic_def, intro allI impI)
  fix s t s'
  assume "andthen m f s = Raise t s'"
  then show "v s' = v s"
  proof (cases rule: andthen_cases)
    case (Ok b s1)
    then show ?thesis using f [unfolded never_raises_def] by blast
  next
    case (Raise t1 s1)
    then show ?thesis using atomicD [OF m Raise(1)] by simp
  qed simp_all
qed

lemma atomic_if: "atomic v m \<Longrightarrow> atomic v n \<Longrightarrow> atomic v (if c then m else n)"
  by simp

lemma never_raises_ret: "never_raises (ret a)"
  and never_raises_reads: "never_raises (reads g)"
  and never_raises_updates: "never_raises (updates u)"
  by (simp_all add: never_raises_def prog_defs)

lemma never_raises_andthen:
  assumes m: "never_raises m" and f: "\<And>a. never_raises (f a)"
  shows "never_raises (andthen m f)"
proof (unfold never_raises_def, intro allI notI)
  fix s t s'
  assume "andthen m f s = Raise t s'"
  then show False
    by (cases rule: andthen_cases) (use m f in \<open>auto simp: never_raises_def\<close>)
qed

section \<open>What a device can do to its processor\<close>

text \<open>
  A device model reaches the CPU through two channels only: the \<open>set_irq\<close>
  hook of \<open>CpuState\<close>, which drives an interrupt line, and the \<open>halted\<close> and
  \<open>exit_code\<close> fields, which the exit devices write.  A device operation
  returns the list of these effects in the order it makes them.
\<close>

datatype cpu_event = SetIrq u64 bool | Halt int

section \<open>Little-endian memory\<close>

text \<open>
  \<open>memcpy\<close> between a 64-bit integer and \<open>n\<close> bytes of memory on the
  little-endian host: \<open>load_le\<close> copies \<open>n\<close> bytes into a zeroed integer,
  \<open>store_le\<close> copies the low \<open>n\<close> bytes of an integer out.
\<close>

fun load_le :: "(u64 \<Rightarrow> u8) \<Rightarrow> u64 \<Rightarrow> nat \<Rightarrow> u64" where
  "load_le m a 0 = 0"
| "load_le m a (Suc n) = ucast (m a) OR push_bit 8 (load_le m (a + 1) n)"

fun store_le :: "(u64 \<Rightarrow> u8) \<Rightarrow> u64 \<Rightarrow> nat \<Rightarrow> u64 \<Rightarrow> (u64 \<Rightarrow> u8)" where
  "store_le m a 0 v = m"
| "store_le m a (Suc n) v = store_le (m(a := ucast v)) (a + 1) n (drop_bit 8 v)"

lemma load_le_numeral [simp]:
  "load_le m a (numeral k) = ucast (m a) OR push_bit 8 (load_le m (a + 1) (pred_numeral k))"
  by (simp add: numeral_eq_Suc)

lemma store_le_numeral [simp]:
  "store_le m a (numeral k) v = store_le (m(a := ucast v)) (a + 1) (pred_numeral k) (drop_bit 8 v)"
  by (simp add: numeral_eq_Suc)

lemma bit_load_le:
  "bit (load_le m a n) k \<longleftrightarrow> k < 64 \<and> k < 8 * n \<and> bit (m (a + of_nat (k div 8))) (k mod 8)"
proof (induction n arbitrary: a k)
  case 0
  then show ?case by simp
next
  case (Suc n)
  show ?case
  proof (cases "k < 8")
    case True
    then show ?thesis by (simp add: bit_simps)
  next
    case False
    then have k: "k div 8 = Suc ((k - 8) div 8)" "k mod 8 = (k - 8) mod 8"
      by (simp_all add: div_if mod_if)
    have "\<not> bit (m a) k" using False bit_imp_le_length [of "m a" k] by auto
    then show ?thesis using False by (auto simp: bit_simps Suc.IH k add.assoc add.commute [of 1])
  qed
qed

lemma store_le_apply:
  "n \<le> 8 \<Longrightarrow> store_le m a n v x =
     (if unat (x - a) < n then ucast (drop_bit (8 * unat (x - a)) v) else m x)"
proof (induction n arbitrary: m a v)
  case 0
  then show ?case by simp
next
  case (Suc n)
  show ?case
  proof (cases "x = a")
    case True
    have "unat (- 1 :: u64) = unat (0xFFFFFFFFFFFFFFFF :: u64)"
      by (rule arg_cong [where f = unat]) simp
    then have "unat (x - (a + 1)) = unat (0xFFFFFFFFFFFFFFFF :: u64)"
      unfolding True by simp
    then have "\<not> unat (x - (a + 1)) < n" using Suc.prems by simp
    then show ?thesis using True Suc by simp
  next
    case False
    have pos: "unat (x - a) \<noteq> 0" using False by (simp add: unat_eq_zero)
    then have "1 \<le> x - a" by (simp add: word_le_nat_alt)
    then have eq: "unat (x - a) = Suc (unat (x - (a + 1)))"
      using unat_sub [of 1 "x - a"] pos by (simp add: diff_diff_eq)
    then show ?thesis using False Suc by (simp add: add.commute)
  qed
qed

lemma load_store_same: "n \<le> 8 \<Longrightarrow> load_le (store_le m a n v) a n = take_bit (8 * n) v"
proof (rule bit_word_eqI)
  fix k
  assume n: "n \<le> 8" and k: "k < LENGTH(64)"
  then have u: "unat (of_nat (k div 8) :: u64) = k div 8"
    by (simp add: unat_of_nat)
  have "k div 8 < n \<longleftrightarrow> k < 8 * n" by auto
  then show "bit (load_le (store_le m a n v) a n) k \<longleftrightarrow> bit (take_bit (8 * n) v) k"
    using n k by (auto simp: bit_load_le store_le_apply u bit_simps)
qed

lemma load_store_disjoint:
  assumes "n \<le> 8" and "\<And>j. j < k \<Longrightarrow> n \<le> unat (b + of_nat j - a)"
  shows "load_le (store_le m a n v) b k = load_le m b k"
proof (rule bit_word_eqI)
  fix i
  assume "i < LENGTH(64)"
  have "i < 8 * k \<Longrightarrow> i div 8 < k" by auto
  then have "i < 8 * k \<Longrightarrow> store_le m a n v (b + of_nat (i div 8)) = m (b + of_nat (i div 8))"
    using assms by (simp add: store_le_apply leD)
  then show "bit (load_le (store_le m a n v) b k) i \<longleftrightarrow> bit (load_le m b k) i"
    by (auto simp: bit_load_le)
qed

section \<open>Masks and bits\<close>

text \<open>
  Tests of a single bit with a mask, as facts on \<open>bit\<close>; equality of bytes and
  of registers bit by bit.
\<close>

lemma all_less_8: "(\<forall>n<8. P n) \<longleftrightarrow> P 0 \<and> P 1 \<and> P 2 \<and> P 3 \<and> P 4 \<and> P 5 \<and> P 6 \<and> P (7 :: nat)"
proof -
  have "{..<8 :: nat} = {0, 1, 2, 3, 4, 5, 6, 7}" by auto
  then show ?thesis by (metis (no_types, lifting) insertE empty_iff insert_iff lessThan_iff)
qed

lemma u8_eq_iff: "(x :: u8) = y \<longleftrightarrow> (\<forall>n<8. bit x n = bit y n)"
  by (auto intro: bit_word_eqI)

lemma u64_eq_iff: "(x :: u64) = y \<longleftrightarrow> (\<forall>n<64. bit x n = bit y n)"
  by (auto intro: bit_word_eqI)

lemmas mask8_bits =
  and_exp_eq_0_iff_not_bit [where a = "x :: u8" and n = 0 for x, simplified]
  and_exp_eq_0_iff_not_bit [where a = "x :: u8" and n = 1 for x, simplified]
  and_exp_eq_0_iff_not_bit [where a = "x :: u8" and n = 2 for x, simplified]
  and_exp_eq_0_iff_not_bit [where a = "x :: u8" and n = 7 for x, simplified]

lemmas mask_bits =
  and_exp_eq_0_iff_not_bit [where a = "x :: u64" and n = 0 for x, simplified]
  and_exp_eq_0_iff_not_bit [where a = "x :: u64" and n = 1 for x, simplified]
  and_exp_eq_0_iff_not_bit [where a = "x :: u64" and n = 2 for x, simplified]
  and_exp_eq_0_iff_not_bit [where a = "x :: u64" and n = 3 for x, simplified]
  and_exp_eq_0_iff_not_bit [where a = "x :: u64" and n = 4 for x, simplified]
  and_exp_eq_0_iff_not_bit [where a = "x :: u64" and n = 5 for x, simplified]
  and_exp_eq_0_iff_not_bit [where a = "x :: u64" and n = 6 for x, simplified]
  and_exp_eq_0_iff_not_bit [where a = "x :: u64" and n = 7 for x, simplified]
  and_exp_eq_0_iff_not_bit [where a = "x :: u64" and n = 8 for x, simplified]
  and_exp_eq_0_iff_not_bit [where a = "x :: u64" and n = 9 for x, simplified]
  and_exp_eq_0_iff_not_bit [where a = "x :: u64" and n = 11 for x, simplified]
  and_exp_eq_0_iff_not_bit [where a = "x :: u64" and n = 17 for x, simplified]
  and_exp_eq_0_iff_not_bit [where a = "x :: u64" and n = 18 for x, simplified]
  and_exp_eq_0_iff_not_bit [where a = "x :: u64" and n = 19 for x, simplified]
  and_exp_eq_0_iff_not_bit [where a = "x :: u64" and n = 20 for x, simplified]
  and_exp_eq_0_iff_not_bit [where a = "x :: u64" and n = 21 for x, simplified]
  and_exp_eq_0_iff_not_bit [where a = "x :: u64" and n = 22 for x, simplified]
  and_exp_eq_0_iff_not_bit [where a = "x :: u64" and n = 61 for x, simplified]
  and_exp_eq_0_iff_not_bit [where a = "x :: u64" and n = 63 for x, simplified]

lemma bit_exp_int: "bit (2 ^ k :: int) n \<longleftrightarrow> n = k"
  by (auto simp: bit_exp_iff)

lemma bit_mpp_mask: "bit (0x1800 :: int) n \<longleftrightarrow> n = 11 \<or> n = 12"
proof -
  have "(0x1800 :: int) = 2 ^ 11 OR 2 ^ 12" by simp
  then show ?thesis by (simp only: bit_or_iff bit_exp_int)
qed

lemma mpp_hyp: "(v :: u64) AND 0x1800 = 0x1000 \<longleftrightarrow> bit v 12 \<and> \<not> bit v 11"
  unfolding u64_eq_iff using bit_exp_int [of 12]
  by (auto simp: bit_and_iff bit_mpp_mask dest: spec [of _ 11] spec [of _ 12])

lemma mask_and_not [simp]: "(a AND m) AND NOT (m :: u64) = 0"
  by (rule bit_word_eqI) (auto simp: bit_simps)

lemma u64_le_one: "(x :: u64) \<le> 1 \<longleftrightarrow> x = 0 \<or> x = 1"
proof
  assume "x \<le> 1"
  then have "unat x = unat (0 :: u64) \<or> unat x = unat (1 :: u64)"
    unfolding word_le_nat_alt by (simp add: le_Suc_eq)
  then show "x = 0 \<or> x = 1" using word_unat_eq_iff by blast
qed auto

lemma bit_15: "bit (15 :: int) n \<longleftrightarrow> n < 4"
proof -
  have "(15 :: int) = mask 4" by (simp add: mask_eq_exp_minus_1)
  then show ?thesis by (simp only: bit_mask_iff) auto
qed
lemma all_less_4: "(\<forall>n<4. P n) \<longleftrightarrow> P 0 \<and> P 1 \<and> P 2 \<and> P (3 :: nat)"
proof -
  have "{..<4 :: nat} = {0, 1, 2, 3}" by auto
  then show ?thesis by (metis (no_types, lifting) insertE empty_iff insert_iff lessThan_iff)
qed
lemma nibble_eq_iff:
  "(x :: u64) AND 15 = y AND 15 \<longleftrightarrow> (\<forall>n<4. bit x n = bit y n)"
proof -
  have "bit x n = bit y n" if "\<forall>n<64. (bit x n \<and> n < 4) = (bit y n \<and> n < 4)" "n < 4" for n
    using that(1) [rule_format, of n] that(2) by auto
  then have "(\<forall>n<64. (bit x n \<and> n < 4) = (bit y n \<and> n < 4)) \<longleftrightarrow> (\<forall>n<4. bit x n = bit y n)"
    by blast
  then show ?thesis unfolding u64_eq_iff by (simp add: bit_and_iff bit_15)
qed
lemma nibble_eq: "(y :: u64) AND 15 = y \<Longrightarrow> x AND 15 = y \<longleftrightarrow> (\<forall>n<4. bit x n = bit y n)"
  using nibble_eq_iff [of x y] by simp
lemma ucast_and_less: "ucast ((v :: u64) AND 0x1f) < (32 :: u8)" "ucast (v AND 7) < (8 :: u8)"
proof -
  have "v AND 0x1f \<le> 0x1f" "v AND 7 \<le> 7" by (rule word_and_le1)+
  then show "ucast (v AND 0x1f) < (32 :: u8)" "ucast (v AND 7) < (8 :: u8)"
    by (simp_all add: word_less_nat_alt word_le_nat_alt unsigned_ucast_eq
        le_less_trans [OF take_bit_nat_less_eq_self])
qed

lemma and_not_bits: "(x :: u64) AND NOT m = 0 \<longleftrightarrow> (\<forall>n<64. bit x n \<longrightarrow> bit m n)"
  unfolding u64_eq_iff by (auto simp: bit_simps)

lemma push_drop_mask: "push_bit n (drop_bit n v) = v AND NOT (mask n :: 'a :: len word)"
  by (rule bit_word_eqI) (auto simp: bit_simps)

lemma and_not_exp_id: "\<not> bit x k \<Longrightarrow> x AND NOT (2 ^ k) = (x :: 'a :: len word)"
  by (rule bit_word_eqI) (auto simp: bit_simps)

lemma drop_bit_and_1: "drop_bit i (x :: u64) AND 1 = 0 \<longleftrightarrow> \<not> bit x i"
  by (simp add: and_one_eq bit_iff_odd_drop_bit even_iff_mod_2_eq_zero)

section \<open>Packing bytes into a word\<close>

text \<open>The loop \<open>for (b = 0; b < n; b++) out |= (uint64_t)f(b) << (8 * b)\<close>.\<close>

definition pack_bytes :: "(nat \<Rightarrow> u8) \<Rightarrow> nat \<Rightarrow> u64" where
  "pack_bytes f n = fold (\<lambda>b out. out OR push_bit (8 * b) (ucast (f b))) [0..<n] 0"

lemma bit_pack_bytes:
  "bit (pack_bytes f n) k \<longleftrightarrow> k < 64 \<and> k < 8 * n \<and> bit (f (k div 8)) (k mod 8)"
proof (induction n)
  case 0
  then show ?case by (simp add: pack_bytes_def)
next
  case (Suc n)
  have b: "bit (f n) (k - 8 * n) \<Longrightarrow> k - 8 * n < 8"
    using bit_imp_le_length [of "f n"] by fastforce
  have "k < 8 * Suc n \<Longrightarrow> 8 * n \<le> k \<Longrightarrow> k div 8 = n \<and> k mod 8 = k - 8 * n"
    by (simp add: div_nat_eqI mod_nat_eqI)
  then show ?case using b Suc.IH
    by (auto simp: pack_bytes_def bit_simps)
qed

lemma byte_pack_bytes:
  assumes "b < n" "n \<le> 8"
  shows "(ucast (drop_bit (8 * b) (pack_bytes f n)) :: u8) = f b"
  by (rule bit_word_eqI) (use assms in \<open>auto simp: bit_simps bit_pack_bytes\<close>)

section \<open>Wrap-around on 64-bit addresses\<close>

lemma unat_u64_less: "unat (x :: u64) < 18446744073709551616"
  using unsigned_less [of x] by simp

lemma unat_u64_not: "unat (NOT x :: u64) = 18446744073709551615 - unat x"
proof -
  have "unat (- 1 - x) = unat (- 1 :: u64) - unat x" by (rule unat_sub) simp
  moreover have "unat (- 1 :: u64) = unat (0xFFFFFFFFFFFFFFFF :: u64)"
    by (rule arg_cong [where f = unat]) simp
  moreover have "NOT x = - 1 - x" by (simp add: not_eq_complement)
  ultimately show ?thesis by simp
qed

lemma unat_u64_minus: "x \<noteq> 0 \<Longrightarrow> unat (- x :: u64) = 18446744073709551616 - unat x"
  using unat_u64_not [of "x - 1"] unat_sub [of 1 x]
  by (simp add: not_eq_complement word_le_nat_alt Suc_le_eq unat_gt_0)

lemma no_wrap_iff: "\<not> NOT addr < (len :: u64) \<longleftrightarrow> unat addr + unat len < 18446744073709551616"
  using unat_u64_less [of addr] by (auto simp: word_less_nat_alt unat_u64_not)

lemma unat_u64_add: "unat a + unat b < 18446744073709551616 \<Longrightarrow> unat (a + b :: u64) = unat a + unat b"
  using unat_add_lem [of a b] by simp

lemma no_wrap:
  fixes addr len :: u64
  assumes "\<not> NOT addr < len" "0 < len"
  shows "addr < addr + len"
  using assms(2) unat_u64_add [OF assms(1) [unfolded no_wrap_iff]]
  by (simp add: word_less_nat_alt)

end
