(* ===== verification/Bus.thy ===== *)
theory Bus
  imports Cemu_Prelude
begin

text \<open>
  The system bus (src/src/bus/bus.h and bus.c): a list of at most 32 address
  windows, looked up by smallest match, with a one-entry lookup cache.  The
  operations are those of bus.c in their order.  Pointers to an operations
  table, to a device and to a host memory block are numbers; the dispatch
  through an operations table is an argument of \<open>BusRead\<close> and \<open>BusWrite\<close>,
  and the board theory instantiates it.
\<close>

section \<open>Windows and the bus\<close>

record BusRegion =
  r_base :: u64
  r_size :: u64
  r_ops :: nat
  r_dev :: nat
  r_overlaps :: bool
  r_host :: "nat option"

text \<open>
  The array \<open>regions[32]\<close> with its \<open>count\<close> is the list of the registered
  windows; the cache pointer \<open>last\<close> is an index into it.
\<close>

record Bus =
  regions :: "BusRegion list"
  bus_last :: "nat option"

definition kBusRegions :: nat where
  "kBusRegions = 32"

text \<open>The test of \<open>RefreshBus\<close>, with the sums wrapping at 64 bits as in C.\<close>

definition intersects :: "BusRegion \<Rightarrow> BusRegion \<Rightarrow> bool" where
  "intersects a b \<longleftrightarrow> r_base a < r_base b + r_size b \<and> r_base b < r_base a + r_size a"

definition overlaps_at :: "BusRegion list \<Rightarrow> nat \<Rightarrow> bool" where
  "overlaps_at rs i = list_ex (\<lambda>j. i \<noteq> j \<and> intersects (rs ! i) (rs ! j)) [0..<length rs]"

definition RefreshBus :: "Bus \<Rightarrow> Bus" where
  "RefreshBus b = b\<lparr>bus_last := None,
     regions := map (\<lambda>i. (regions b ! i)\<lparr>r_overlaps := overlaps_at (regions b) i\<rparr>)
       [0..<length (regions b)]\<rparr>"

text \<open>\<open>None\<close> is the \<open>Fatal\<close> of a full bus.\<close>

definition BusAddRegion :: "Bus \<Rightarrow> u64 \<Rightarrow> u64 \<Rightarrow> nat \<Rightarrow> nat \<Rightarrow> Bus option" where
  "BusAddRegion b base sz ops dev =
     (if kBusRegions \<le> length (regions b) then None
      else Some (RefreshBus (b\<lparr>regions := regions b @
        [\<lparr>r_base = base, r_size = sz, r_ops = ops, r_dev = dev, r_overlaps = False,
          r_host = None\<rparr>]\<rparr>)))"

definition BusAddRamRegion :: "Bus \<Rightarrow> u64 \<Rightarrow> u64 \<Rightarrow> nat \<Rightarrow> nat \<Rightarrow> nat \<Rightarrow> Bus option" where
  "BusAddRamRegion b base sz ops dev host =
     (case BusAddRegion b base sz ops dev of None \<Rightarrow> None
      | Some b' \<Rightarrow> (let i = length (regions b') - 1 in
          Some (b'\<lparr>regions := (regions b')[i := (regions b' ! i)\<lparr>r_host := Some host\<rparr>]\<rparr>)))"

text \<open>The scan for the first window of a device, shared by the next two.\<close>

fun find_dev :: "BusRegion list \<Rightarrow> nat \<Rightarrow> nat \<Rightarrow> nat option" where
  "find_dev [] ops dev = None"
| "find_dev (r # rs) ops dev =
     (if r_ops r = ops \<and> r_dev r = dev then Some 0 else map_option Suc (find_dev rs ops dev))"

definition BusRelocateRegion :: "Bus \<Rightarrow> nat \<Rightarrow> nat \<Rightarrow> u64 \<Rightarrow> u64 \<Rightarrow> Bus option" where
  "BusRelocateRegion b ops dev base sz =
     (case find_dev (regions b) ops dev of
        Some i \<Rightarrow> Some (RefreshBus (b\<lparr>regions := (regions b)[i := (regions b ! i)\<lparr>r_base := base,
          r_size := sz\<rparr>]\<rparr>))
      | None \<Rightarrow> BusAddRegion b base sz ops dev)"

definition BusRemoveRegion :: "Bus \<Rightarrow> nat \<Rightarrow> nat \<Rightarrow> bool \<times> Bus" where
  "BusRemoveRegion b ops dev =
     (case find_dev (regions b) ops dev of
        Some i \<Rightarrow> (True, RefreshBus (b\<lparr>regions := take i (regions b) @ drop (Suc i) (regions b)\<rparr>))
      | None \<Rightarrow> (False, b))"

section \<open>Lookup\<close>

definition in_window :: "BusRegion \<Rightarrow> u64 \<Rightarrow> u64 \<Rightarrow> bool" where
  "in_window r addr len \<longleftrightarrow> r_base r \<le> addr \<and> addr + len \<le> r_base r + r_size r"

definition better :: "BusRegion list \<Rightarrow> (BusRegion \<Rightarrow> bool) \<Rightarrow> nat option \<Rightarrow> nat \<Rightarrow> nat option" where
  "better rs p best i =
     (if p (rs ! i)
      then (case best of None \<Rightarrow> Some i
            | Some k \<Rightarrow> if r_size (rs ! i) < r_size (rs ! k) then Some i else best)
      else best)"

definition smallest_match :: "BusRegion list \<Rightarrow> (BusRegion \<Rightarrow> bool) \<Rightarrow> nat option" where
  "smallest_match rs p = foldl (better rs p) None [0..<length rs]"

definition cache_hit :: "Bus \<Rightarrow> u64 \<Rightarrow> u64 \<Rightarrow> nat option" where
  "cache_hit b addr len =
     (case bus_last b of None \<Rightarrow> None
      | Some i \<Rightarrow> if \<not> r_overlaps (regions b ! i) \<and> in_window (regions b ! i) addr len
          then Some i else None)"

definition FindRegion :: "Bus \<Rightarrow> u64 \<Rightarrow> u64 \<Rightarrow> nat option \<times> Bus" where
  "FindRegion b addr len =
     (if NOT addr < len then (None, b)
      else case cache_hit b addr len of
        Some i \<Rightarrow> (Some i, b)
      | None \<Rightarrow> (let best = smallest_match (regions b) (\<lambda>r. in_window r addr len) in
          (best, b\<lparr>bus_last := (case best of None \<Rightarrow> None
             | Some k \<Rightarrow> if r_overlaps (regions b ! k) then None else Some k)\<rparr>)))"

text \<open>
  \<open>BusProbe\<close> answers with the window found.  \<open>BusRead\<close> and \<open>BusWrite\<close> run
  on the bus together with the devices behind it; the dispatch function gets
  the operations table, the device, the address and the size, and returns
  \<open>None\<close> when the device accesses memory out of bounds.
\<close>

definition BusProbe :: "Bus \<Rightarrow> u64 \<Rightarrow> u64 \<Rightarrow> nat option \<times> Bus" where
  "BusProbe b addr len = FindRegion b addr len"

type_synonym 'd dev_read = "nat \<Rightarrow> nat \<Rightarrow> u64 \<Rightarrow> nat \<Rightarrow> 'd \<Rightarrow> (u64 \<times> 'd \<times> cpu_event list) option"
type_synonym 'd dev_write = "nat \<Rightarrow> nat \<Rightarrow> u64 \<Rightarrow> nat \<Rightarrow> u64 \<Rightarrow> 'd \<Rightarrow> ('d \<times> cpu_event list) option"

definition BusRead :: "'d dev_read \<Rightarrow> u64 \<Rightarrow> nat \<Rightarrow> (Bus \<times> 'd, u64 \<times> cpu_event list) prog" where
  "BusRead rd addr sz = (\<lambda>(b, d). case FindRegion b addr (of_nat sz) of
       (None, b') \<Rightarrow> Fatal
     | (Some i, b') \<Rightarrow> (case rd (r_ops (regions b' ! i)) (r_dev (regions b' ! i)) addr sz d of
           None \<Rightarrow> Undef
         | Some (v, d', es) \<Rightarrow> Ok (v, es) (b', d')))"

definition BusWrite :: "'d dev_write \<Rightarrow> u64 \<Rightarrow> nat \<Rightarrow> u64 \<Rightarrow> (Bus \<times> 'd, cpu_event list) prog" where
  "BusWrite wr addr sz v = (\<lambda>(b, d). case FindRegion b addr (of_nat sz) of
       (None, b') \<Rightarrow> Fatal
     | (Some i, b') \<Rightarrow> (case wr (r_ops (regions b' ! i)) (r_dev (regions b' ! i)) addr sz v d of
           None \<Rightarrow> Undef
         | Some (d', es) \<Rightarrow> Ok es (b', d')))"

text \<open>A host pointer is a block of host memory and an offset into it.\<close>

definition page_free :: "BusRegion list \<Rightarrow> nat \<Rightarrow> u64 \<Rightarrow> bool" where
  "page_free rs i addr \<longleftrightarrow> \<not> list_ex (\<lambda>j. i \<noteq> j \<and>
     addr < r_base (rs ! j) + r_size (rs ! j) \<and> r_base (rs ! j) < addr + 0x1000) [0..<length rs]"

definition ram_page_at :: "BusRegion list \<Rightarrow> u64 \<Rightarrow> nat \<Rightarrow> bool" where
  "ram_page_at rs addr i \<longleftrightarrow> r_host (rs ! i) \<noteq> None \<and> r_base (rs ! i) \<le> addr \<and>
     addr + 0x1000 \<le> r_base (rs ! i) + r_size (rs ! i) \<and>
     (r_overlaps (rs ! i) \<longrightarrow> page_free rs i addr)"

definition BusRamPage :: "Bus \<Rightarrow> u64 \<Rightarrow> (nat \<times> u64) option" where
  "BusRamPage b addr =
     (if addr AND 0xFFF \<noteq> 0 then None
      else case List.find (ram_page_at (regions b) addr) [0..<length (regions b)] of
        None \<Rightarrow> None
      | Some i \<Rightarrow> map_option (\<lambda>h. (h, addr - r_base (regions b ! i))) (r_host (regions b ! i)))"

definition BusRamRange :: "Bus \<Rightarrow> u64 \<Rightarrow> u64 \<Rightarrow> (nat \<times> u64) option" where
  "BusRamRange b addr len =
     (case smallest_match (regions b) (\<lambda>r. r_host r \<noteq> None \<and> in_window r addr len) of
        None \<Rightarrow> None
      | Some i \<Rightarrow> map_option (\<lambda>h. (h, addr - r_base (regions b ! i))) (r_host (regions b ! i)))"

section \<open>Smallest match\<close>

definition is_smallest :: "BusRegion list \<Rightarrow> (BusRegion \<Rightarrow> bool) \<Rightarrow> nat \<Rightarrow> nat \<Rightarrow> bool" where
  "is_smallest rs p n i \<longleftrightarrow> i < n \<and> p (rs ! i) \<and>
     (\<forall>j<n. p (rs ! j) \<longrightarrow> r_size (rs ! i) \<le> r_size (rs ! j) \<and>
        (j < i \<longrightarrow> r_size (rs ! i) < r_size (rs ! j)))"

lemma smallest_upto:
  "case foldl (better rs p) None [0..<n] of
     None \<Rightarrow> \<forall>j<n. \<not> p (rs ! j) | Some i \<Rightarrow> is_smallest rs p n i"
proof (induction n)
  case 0
  then show ?case by simp
next
  case (Suc n)
  define best where "best = foldl (better rs p) None [0..<n]"
  have "case better rs p best n of
     None \<Rightarrow> \<forall>j<Suc n. \<not> p (rs ! j) | Some i \<Rightarrow> is_smallest rs p (Suc n) i"
    using Suc.IH unfolding best_def [symmetric]
    by (cases best) (auto simp: better_def is_smallest_def less_Suc_eq not_less)
  then show ?case by (simp add: best_def)
qed

lemma is_smallest_unique: "is_smallest rs p n i \<Longrightarrow> is_smallest rs p n k \<Longrightarrow> i = k"
  unfolding is_smallest_def by (metis leD linorder_neqE_nat)

lemma smallest_match_iff:
  "smallest_match rs p = Some i \<longleftrightarrow> is_smallest rs p (length rs) i"
proof -
  have u: "case smallest_match rs p of None \<Rightarrow> \<forall>j<length rs. \<not> p (rs ! j)
      | Some k \<Rightarrow> is_smallest rs p (length rs) k"
    unfolding smallest_match_def by (rule smallest_upto)
  show ?thesis
  proof (cases "smallest_match rs p")
    case None
    then show ?thesis using u by (auto simp: is_smallest_def)
  next
    case (Some k)
    then show ?thesis using u is_smallest_unique by auto
  qed
qed

lemma smallest_match_None: "smallest_match rs p = None \<longleftrightarrow> (\<forall>r\<in>set rs. \<not> p r)"
  using smallest_upto [where rs = rs and p = p and n = "length rs"]
  unfolding smallest_match_def [symmetric] all_set_conv_all_nth
  by (cases "smallest_match rs p") (auto simp: is_smallest_def)

lemma smallest_match_single:
  assumes "i < length rs" "p (rs ! i)" "\<And>j. j < length rs \<Longrightarrow> p (rs ! j) \<Longrightarrow> j = i"
  shows "smallest_match rs p = Some i"
  unfolding smallest_match_iff is_smallest_def
proof (intro conjI allI impI)
  show "r_size (rs ! i) \<le> r_size (rs ! j)" if "j < length rs" "p (rs ! j)" for j
    using assms(3) [OF that] by simp
  show "r_size (rs ! i) < r_size (rs ! j)" if "j < length rs" "p (rs ! j)" "j < i" for j
    using assms(3) [OF that(1,2)] that(3) by simp
qed (use assms(1,2) in auto)

section \<open>The bus invariant\<close>

definition bus_ok :: "Bus \<Rightarrow> bool" where
  "bus_ok b \<longleftrightarrow> length (regions b) \<le> kBusRegions \<and>
     (\<forall>i<length (regions b). r_overlaps (regions b ! i) = overlaps_at (regions b) i) \<and>
     (case bus_last b of None \<Rightarrow> True
      | Some i \<Rightarrow> i < length (regions b) \<and> \<not> r_overlaps (regions b ! i))"

lemma overlaps_at_iff:
  "overlaps_at rs i \<longleftrightarrow> (\<exists>j<length rs. i \<noteq> j \<and> intersects (rs ! i) (rs ! j))"
  by (auto simp: overlaps_at_def list_ex_iff)

lemma length_RefreshBus [simp]: "length (regions (RefreshBus b)) = length (regions b)"
  by (simp add: RefreshBus_def)

lemma nth_RefreshBus [simp]:
  "i < length (regions b) \<Longrightarrow>
   regions (RefreshBus b) ! i = (regions b ! i)\<lparr>r_overlaps := overlaps_at (regions b) i\<rparr>"
  by (simp add: RefreshBus_def)

lemma overlaps_at_RefreshBus [simp]:
  "i < length (regions b) \<Longrightarrow> overlaps_at (regions (RefreshBus b)) i = overlaps_at (regions b) i"
  by (auto simp: overlaps_at_iff intersects_def)

lemma bus_ok_RefreshBus: "length (regions b) \<le> kBusRegions \<Longrightarrow> bus_ok (RefreshBus b)"
  by (auto simp: bus_ok_def) (simp add: RefreshBus_def)

lemma find_dev_less: "find_dev rs ops dev = Some i \<Longrightarrow> i < length rs"
  by (induction rs arbitrary: i) (auto split: if_splits option.splits)

lemma bus_ok_BusAddRegion: "BusAddRegion b base sz ops dev = Some b' \<Longrightarrow> bus_ok b'"
  by (auto simp: BusAddRegion_def split: if_splits intro!: bus_ok_RefreshBus)

lemma bus_ok_BusAddRamRegion:
  assumes "BusAddRamRegion b base sz ops dev host = Some b'"
  shows "bus_ok b'"
proof -
  obtain c where c: "BusAddRegion b base sz ops dev = Some c"
    and b': "b' = c\<lparr>regions := (regions c)[length (regions c) - 1 :=
       (regions c ! (length (regions c) - 1))\<lparr>r_host := Some host\<rparr>]\<rparr>"
    using assms by (auto simp: BusAddRamRegion_def Let_def split: option.splits)
  have ok: "bus_ok c" by (rule bus_ok_BusAddRegion [OF c])
  have nth: "i < length (regions c) \<Longrightarrow> regions b' ! i = (regions c ! i)\<lparr>r_host :=
      (if i = length (regions c) - 1 then Some host else r_host (regions c ! i))\<rparr>" for i
    by (auto simp: b' nth_list_update)
  have len: "length (regions b') = length (regions c)" and last: "bus_last b' = bus_last c"
    by (simp_all add: b')
  have "i < length (regions c) \<Longrightarrow> overlaps_at (regions b') i = overlaps_at (regions c) i" for i
    by (simp add: overlaps_at_iff intersects_def nth len cong: conj_cong)
  then show ?thesis using ok by (auto simp: bus_ok_def nth len last split: option.splits)
qed

lemma bus_ok_length: "bus_ok b \<Longrightarrow> length (regions b) \<le> kBusRegions"
  by (simp add: bus_ok_def)

lemma bus_ok_BusRelocateRegion:
  assumes "bus_ok b" "BusRelocateRegion b ops dev base sz = Some b'"
  shows "bus_ok b'"
proof (cases "find_dev (regions b) ops dev")
  case None
  then show ?thesis using assms(2) bus_ok_BusAddRegion by (simp add: BusRelocateRegion_def)
next
  case (Some i)
  then show ?thesis using assms(2) bus_ok_length [OF assms(1)]
    by (auto simp: BusRelocateRegion_def intro!: bus_ok_RefreshBus)
qed

lemma bus_ok_BusRemoveRegion:
  assumes "bus_ok b"
  shows "bus_ok (snd (BusRemoveRegion b ops dev))"
proof (cases "find_dev (regions b) ops dev")
  case None
  then show ?thesis using assms by (simp add: BusRemoveRegion_def)
next
  case (Some i)
  then show ?thesis using bus_ok_length [OF assms] find_dev_less [OF Some]
    by (auto simp: BusRemoveRegion_def intro!: bus_ok_RefreshBus)
qed

section \<open>The lookup cache is transparent\<close>

lemma in_window_clash:
  assumes "in_window r addr len" "in_window q addr len" "\<not> NOT addr < len" "0 < len"
  shows "intersects r q"
  using assms(1,2) no_wrap [OF assms(3,4)] by (auto simp: in_window_def intersects_def)

lemma no_overlap_unique:
  assumes "bus_ok b" "i < length (regions b)" "\<not> r_overlaps (regions b ! i)"
    and "in_window (regions b ! i) addr len" "\<not> NOT addr < len" "0 < len"
    and "j < length (regions b)" "in_window (regions b ! j) addr len"
  shows "j = i"
proof (rule ccontr)
  assume "j \<noteq> i"
  moreover have "intersects (regions b ! i) (regions b ! j)"
    using assms(4,8,5,6) by (rule in_window_clash)
  ultimately have "overlaps_at (regions b) i" using assms(7) by (auto simp: overlaps_at_iff)
  then show False using assms(1-3) by (simp add: bus_ok_def)
qed

definition decode :: "BusRegion list \<Rightarrow> u64 \<Rightarrow> u64 \<Rightarrow> nat option" where
  "decode rs addr len = (if NOT addr < len then None
     else smallest_match rs (\<lambda>r. in_window r addr len))"

lemma cache_hit_decode:
  assumes "bus_ok b" "0 < len" "\<not> NOT addr < len" "cache_hit b addr len = Some i"
  shows "smallest_match (regions b) (\<lambda>r. in_window r addr len) = Some i"
proof -
  have i: "i < length (regions b)" "\<not> r_overlaps (regions b ! i)" "in_window (regions b ! i) addr len"
    using assms(1,4) by (auto simp: cache_hit_def bus_ok_def split: option.splits if_splits)
  show ?thesis
    by (rule smallest_match_single, rule i(1), rule i(3),
        rule no_overlap_unique [OF assms(1) i assms(3,2)])
qed

lemma FindRegion_decode:
  assumes "bus_ok b" "0 < len"
  shows "fst (FindRegion b addr len) = decode (regions b) addr len"
  using cache_hit_decode [OF assms]
  by (auto simp: FindRegion_def decode_def Let_def split: option.splits)

lemma FindRegion_regions [simp]: "regions (snd (FindRegion b addr len)) = regions b"
  by (simp add: FindRegion_def Let_def split: option.splits)

lemma decode_less: "decode rs addr len = Some i \<Longrightarrow> i < length rs"
  by (auto simp: decode_def smallest_match_iff is_smallest_def split: if_splits)

lemma decode_window: "decode rs addr len = Some i \<Longrightarrow> in_window (rs ! i) addr len"
  by (auto simp: decode_def smallest_match_iff is_smallest_def split: if_splits)

lemma bus_ok_FindRegion:
  assumes "bus_ok b"
  shows "bus_ok (snd (FindRegion b addr len))"
proof (cases "NOT addr < len \<or> cache_hit b addr len \<noteq> None")
  case True
  then show ?thesis using assms by (auto simp: FindRegion_def)
next
  case False
  then show ?thesis using assms
    by (auto simp: FindRegion_def bus_ok_def Let_def smallest_match_iff is_smallest_def
        split: option.splits)
qed

text \<open>
  The interface the memory pipeline relies on: a decoder whose lookups may
  change a cache but not the answers.
\<close>

locale decoder =
  fixes ok :: "'b \<Rightarrow> bool" and find :: "'b \<Rightarrow> u64 \<Rightarrow> u64 \<Rightarrow> 'r option \<times> 'b"
    and answer :: "'b \<Rightarrow> u64 \<Rightarrow> u64 \<Rightarrow> 'r option"
  assumes find_answer: "ok b \<Longrightarrow> 0 < n \<Longrightarrow> fst (find b a n) = answer b a n"
    and find_ok: "ok b \<Longrightarrow> ok (snd (find b a n))"
    and find_keeps: "ok b \<Longrightarrow> answer (snd (find b a n)) = answer b"
begin

lemma find_twice:
  assumes "ok b" "0 < n"
  shows "fst (find (snd (find b a' n')) a n) = fst (find b a n)"
  using assms find_ok find_answer find_keeps by metis

lemma finds_ok:
  assumes "ok b"
  shows "ok (foldl (\<lambda>b (a, n). snd (find b a n)) b qs) \<and>
    answer (foldl (\<lambda>b (a, n). snd (find b a n)) b qs) = answer b"
  using assms by (induction qs arbitrary: b) (auto simp: find_ok find_keeps)

lemma find_after_finds:
  assumes "ok b" "0 < n"
  shows "fst (find (foldl (\<lambda>b (a, n). snd (find b a n)) b qs) a n) = answer b a n"
  using finds_ok [OF assms(1), of qs] find_answer assms(2) by metis

end

interpretation bus_dec: decoder bus_ok FindRegion "\<lambda>b. decode (regions b)"
  by unfold_locales (simp_all add: FindRegion_decode bus_ok_FindRegion)


section \<open>The direct path to RAM\<close>

text \<open>
  A page that \<open>BusRamPage\<close> hands out is decoded by the bus to the same window
  for every access inside the page, provided that the page does not end at
  the top of the address space.
\<close>

lemma BusRamPage_window:
  assumes "BusRamPage b page = Some (h, off)"
  obtains i where "i < length (regions b)" "r_host (regions b ! i) = Some h"
    "off = page - r_base (regions b ! i)" "ram_page_at (regions b) page i" "page AND 0xFFF = 0"
proof -
  obtain i where f: "List.find (ram_page_at (regions b) page) [0..<length (regions b)] = Some i"
    and h: "r_host (regions b ! i) = Some h" "off = page - r_base (regions b ! i)"
    and al: "page AND 0xFFF = 0"
    using assms by (auto simp: BusRamPage_def split: if_splits option.splits)
  have "i < length (regions b) \<and> ram_page_at (regions b) page i"
    using f by (auto simp: find_Some_iff)
  then show thesis using that h al by blast
qed

lemma decode_ram_page:
  assumes ok: "bus_ok b" and ram: "BusRamPage b page = Some (h, off)"
    and acc: "page \<le> addr" "addr + len \<le> page + 0x1000" "\<not> NOT addr < len" "0 < len"
  shows "\<exists>i. decode (regions b) addr len = Some i \<and> r_host (regions b ! i) = Some h \<and>
    off + (addr - page) = addr - r_base (regions b ! i)"
proof -
  obtain i where i: "i < length (regions b)" "r_host (regions b ! i) = Some h"
    "off = page - r_base (regions b ! i)" "ram_page_at (regions b) page i"
    using ram by (rule BusRamPage_window)
  have w: "in_window (regions b ! i) addr len"
    using i(4) acc(1,2) by (auto simp: ram_page_at_def in_window_def)
  have uniq: "j = i" if j: "j < length (regions b)" "in_window (regions b ! j) addr len" for j
  proof (cases "r_overlaps (regions b ! i)")
    case False
    then show ?thesis using no_overlap_unique [OF ok i(1) _ w acc(3,4) j] by simp
  next
    case True
    then have "page_free (regions b) i page" using i(4) by (simp add: ram_page_at_def)
    moreover have "page < r_base (regions b ! j) + r_size (regions b ! j)"
      "r_base (regions b ! j) < page + 0x1000"
      using j(2) acc(1,2) no_wrap [OF acc(3,4)] by (auto simp: in_window_def)
    ultimately show ?thesis using j(1) by (auto simp: page_free_def list_ex_iff)
  qed
  have "smallest_match (regions b) (\<lambda>r. in_window r addr len) = Some i"
    by (rule smallest_match_single, rule i(1), rule w, rule uniq)
  then have "decode (regions b) addr len = Some i" using acc(3) by (simp add: decode_def)
  then show ?thesis using i(2,3) by auto
qed

section \<open>Every bus the program can build\<close>

definition empty_bus :: Bus where
  "empty_bus = \<lparr>regions = [], bus_last = None\<rparr>"

inductive bus_step :: "Bus \<Rightarrow> Bus \<Rightarrow> bool" where
  AddRegion: "BusAddRegion b base sz ops dev = Some b' \<Longrightarrow> bus_step b b'"
| AddRam: "BusAddRamRegion b base sz ops dev host = Some b' \<Longrightarrow> bus_step b b'"
| Relocate: "BusRelocateRegion b ops dev base sz = Some b' \<Longrightarrow> bus_step b b'"
| Remove: "bus_step b (snd (BusRemoveRegion b ops dev))"
| Lookup: "bus_step b (snd (FindRegion b addr len))"

inductive_cases bus_stepE: "bus_step b b'"

lemma bus_ok_empty: "bus_ok empty_bus"
  by (simp add: bus_ok_def empty_bus_def kBusRegions_def)

lemma bus_ok_step: "bus_step b b' \<Longrightarrow> bus_ok b \<Longrightarrow> bus_ok b'"
  by (induction rule: bus_step.induct)
    (blast intro: bus_ok_BusAddRegion bus_ok_BusAddRamRegion bus_ok_BusRelocateRegion
      bus_ok_BusRemoveRegion bus_ok_FindRegion)+

lemma bus_ok_reachable: "bus_step\<^sup>*\<^sup>* empty_bus b \<Longrightarrow> bus_ok b"
  by (induction rule: rtranclp_induct) (use bus_ok_empty bus_ok_step in blast)+

text \<open>
  C10. On every bus that the program can build, the lookup with its one-entry cache answers
  with the smallest window that contains the access, the first such window on a tie, and with nothing
  when no window contains it or the access wraps around the address space.
\<close>

theorem find_region_smallest:
  assumes "bus_step\<^sup>*\<^sup>* empty_bus b" "0 < len"
  shows "fst (FindRegion b addr len) = Some i \<longleftrightarrow>
    \<not> NOT addr < len \<and> is_smallest (regions b) (\<lambda>r. in_window r addr len) (length (regions b)) i"
  using FindRegion_decode [OF bus_ok_reachable [OF assms(1)] assms(2)]
  by (simp add: decode_def smallest_match_iff)

theorem find_region_smallest_witness:
  "\<exists>b. bus_step\<^sup>*\<^sup>* empty_bus b \<and> length (regions b) = 2 \<and> fst (FindRegion b 0x1004 4) = Some 1"
proof -
  define b1 where "b1 = the (BusAddRamRegion empty_bus 0 0x10000 0 0 0)"
  define b2 where "b2 = the (BusAddRegion b1 0x1000 0x100 1 0)"
  have 1: "BusAddRamRegion empty_bus 0 0x10000 0 0 0 = Some b1"
    unfolding b1_def by (simp add: BusAddRamRegion_def BusAddRegion_def empty_bus_def kBusRegions_def Let_def)
  have 2: "BusAddRegion b1 0x1000 0x100 1 0 = Some b2"
    unfolding b2_def b1_def
    by (simp add: BusAddRamRegion_def BusAddRegion_def empty_bus_def kBusRegions_def Let_def RefreshBus_def)
  have r: "bus_step\<^sup>*\<^sup>* empty_bus b2"
    by (rule rtranclp.rtrancl_into_rtrancl [OF r_into_rtranclp [of bus_step, OF bus_step.AddRam [OF 1]]
        bus_step.AddRegion [OF 2]])
  have l: "map r_base (regions b2) = [0, 0x1000]" "map r_size (regions b2) = [0x10000, 0x100]"
    unfolding b2_def b1_def
    by (simp_all add: BusAddRamRegion_def BusAddRegion_def empty_bus_def kBusRegions_def Let_def RefreshBus_def)
  then obtain p q where pq: "regions b2 = [p, q]" "r_base p = 0" "r_size p = 0x10000" "r_base q = 0x1000" "r_size q = 0x100"
    by (auto simp: map_eq_Cons_conv)
  have "fst (FindRegion b2 0x1004 4) = Some 1"
    using find_region_smallest [OF r, of 4 "0x1004" 1] pq
    by (simp add: is_smallest_def in_window_def All_less_Suc)
  then show ?thesis using r pq(1) by fastforce
qed

definition ram_bus :: Bus where
  "ram_bus = \<lparr>regions = [\<lparr>r_base = 0x80000000, r_size = 0x10000, r_ops = 0, r_dev = 0, r_overlaps = False,
     r_host = Some 0\<rparr>], bus_last = None\<rparr>"

lemma bus_ok_ram_bus: "bus_ok ram_bus"
  by (simp add: bus_ok_def ram_bus_def kBusRegions_def overlaps_at_def)

lemma find_empty: "FindRegion empty_bus a n = (None, empty_bus)"
  by (simp add: FindRegion_def empty_bus_def cache_hit_def smallest_match_def)

lemma ram_page_empty: "BusRamPage empty_bus a = None"
  by (simp add: BusRamPage_def empty_bus_def)

text \<open>
  C11. The host pointer of a RAM page leads to the byte that a bus access would reach: every
  access inside the page decodes to the window that owns the pointer, at the same offset.
\<close>

theorem ram_page_agrees:
  assumes ok: "bus_ok b" and ram: "BusRamPage b page = Some (h, off)"
    and acc: "page \<le> addr" "addr + len \<le> page + 0x1000" "\<not> NOT addr < len" "0 < len"
  shows "\<exists>i. fst (FindRegion b addr len) = Some i \<and> r_host (regions b ! i) = Some h \<and>
    off + (addr - page) = addr - r_base (regions b ! i)"
  using decode_ram_page [OF assms] FindRegion_decode [OF ok acc(4)] by simp

theorem ram_page_agrees_witness:
  "BusRamPage ram_bus 0x80001000 = Some (0, 0x1000) \<and>
   (\<exists>i. fst (FindRegion ram_bus 0x80001010 8) = Some i \<and> r_host (regions ram_bus ! i) = Some 0 \<and>
     (0x1000 :: u64) + (0x80001010 - 0x80001000) = 0x80001010 - r_base (regions ram_bus ! i))"
proof
  show p: "BusRamPage ram_bus 0x80001000 = Some (0, 0x1000)"
    by (simp add: BusRamPage_def ram_bus_def ram_page_at_def)
  show "\<exists>i. fst (FindRegion ram_bus 0x80001010 8) = Some i \<and> r_host (regions ram_bus ! i) = Some 0 \<and>
     (0x1000 :: u64) + (0x80001010 - 0x80001000) = 0x80001010 - r_base (regions ram_bus ! i)"
    by (rule ram_page_agrees [OF bus_ok_ram_bus p]) simp_all
qed


end
