(* ===== verification/Device.thy ===== *)
theory Device
  imports Bus
begin

text \<open>
  What the device models share.  A device drives its interrupt line by calling
  the function the board installed as its sink; in the model every operation
  returns the list of the calls it makes, in order, as pairs of a line number
  and a level, and the board theory feeds them to the component behind the
  line.  The current time of the host (\<open>HostTimerNow\<close>) is an argument of the
  operations that read it.

  The receiver of the serial port and the staging buffer of the virtio
  console are ring buffers with different representations.  The locale
  \<open>byte_fifo\<close> is the contract they share, and the order and loss lemmas of a
  queue are proved once from it.
\<close>

unbundle bit_operations_syntax

section \<open>Registration\<close>

text \<open>
  A device registers itself with a window of the bus; \<open>ops\<close> and \<open>dev\<close> are the addresses of its operations
  table and of its state.  \<open>None\<close> is the \<open>Fatal\<close> of a full bus.
\<close>

definition with_window :: "Bus \<Rightarrow> u64 \<Rightarrow> u64 \<Rightarrow> nat \<Rightarrow> nat \<Rightarrow> 'a \<Rightarrow> (Bus \<times> 'a) option" where
  "with_window b base sz ops dev x = map_option (\<lambda>b'. (b', x)) (BusAddRegion b base sz ops dev)"

section \<open>Interrupt lines\<close>

type_synonym line_call = "int \<times> bool"

text \<open>The calls a device makes when it has a sink.\<close>

definition drive :: "bool \<Rightarrow> line_call list \<Rightarrow> line_call list" where
  "drive sink calls = (if sink then calls else [])"

text \<open>The level a line has after some calls, when it had the level \<open>old\<close> before.\<close>

fun line_after :: "bool \<Rightarrow> int \<Rightarrow> line_call list \<Rightarrow> bool" where
  "line_after old l [] = old"
| "line_after old l ((k, v) # cs) = line_after (if k = l then v else old) l cs"

lemma line_after_append [simp]: "line_after old l (xs @ ys) = line_after (line_after old l xs) l ys"
  by (induction xs arbitrary: old) auto

section \<open>Queues of bytes\<close>

definition push_all :: "('a \<Rightarrow> 's \<Rightarrow> 's) \<Rightarrow> 'a list \<Rightarrow> 's \<Rightarrow> 's" where
  "push_all push bs s = foldl (\<lambda>s b. push b s) s bs"

fun pop_n :: "('s \<Rightarrow> 'a \<times> 's) \<Rightarrow> nat \<Rightarrow> 's \<Rightarrow> 'a list \<times> 's" where
  "pop_n pop 0 s = ([], s)"
| "pop_n pop (Suc n) s = (let (b, s1) = pop s; (bs, s2) = pop_n pop n s1 in (b # bs, s2))"

locale byte_fifo =
  fixes valid :: "'s \<Rightarrow> bool"
    and content :: "'s \<Rightarrow> u8 list"
    and cap :: nat
    and push :: "u8 \<Rightarrow> 's \<Rightarrow> 's"
    and pop :: "'s \<Rightarrow> u8 \<times> 's"
  assumes valid_push: "valid s \<Longrightarrow> valid (push b s)"
    and content_push: "valid s \<Longrightarrow>
      content (push b s) = (if length (content s) < cap then content s @ [b] else content s)"
    and valid_pop: "valid s \<Longrightarrow> content s \<noteq> [] \<Longrightarrow> valid (snd (pop s))"
    and content_pop: "valid s \<Longrightarrow> content s \<noteq> [] \<Longrightarrow>
      content s = fst (pop s) # content (snd (pop s))"
    and content_cap: "valid s \<Longrightarrow> length (content s) \<le> cap"
begin

lemma push_all_valid: "valid s \<Longrightarrow> valid (push_all push bs s)"
  unfolding push_all_def by (induction bs arbitrary: s) (auto simp: valid_push)

lemma push_all_content: "valid s \<Longrightarrow> content (push_all push bs s) = take cap (content s @ bs)"
proof (induction bs arbitrary: s)
  case Nil
  then show ?case using content_cap by (simp add: push_all_def)
next
  case (Cons b bs)
  have "push_all push (b # bs) s = push_all push bs (push b s)" by (simp add: push_all_def)
  then show ?case using Cons.IH [OF valid_push [OF Cons.prems]] content_push [OF Cons.prems]
      content_cap [OF Cons.prems] by (simp add: take_Cons')
qed

lemma pop_n_content:
  "valid s \<Longrightarrow> n \<le> length (content s) \<Longrightarrow>
     fst (pop_n pop n s) = take n (content s) \<and> content (snd (pop_n pop n s)) = drop n (content s) \<and>
     valid (snd (pop_n pop n s))"
proof (induction n arbitrary: s)
  case 0
  then show ?case by simp
next
  case (Suc n)
  then have ne: "content s \<noteq> []" by auto
  obtain b s1 where p: "pop s = (b, s1)" by fastforce
  have c: "content s = b # content s1" and v: "valid s1"
    using content_pop [OF Suc.prems(1) ne] valid_pop [OF Suc.prems(1) ne] p by auto
  with Suc.IH [OF v] Suc.prems(2) show ?case by (simp add: p case_prod_unfold)
qed

text \<open>What goes in comes out in order, up to the capacity; what does not fit is lost.\<close>

lemma fifo_order:
  assumes "valid s" "content s = []"
  shows "fst (pop_n pop (min cap (length bs)) (push_all push bs s)) = take cap bs"
  using pop_n_content [OF push_all_valid [OF assms(1)], of "min cap (length bs)" bs]
    push_all_content [OF assms(1), of bs] assms(2) by (simp add: min_def split: if_splits)

end

section \<open>Rings\<close>

text \<open>The \<open>n\<close> elements of an array of size \<open>m\<close> from index \<open>t\<close> on, wrapping at the end.\<close>

definition ring :: "nat \<Rightarrow> (nat \<Rightarrow> 'a) \<Rightarrow> nat \<Rightarrow> nat \<Rightarrow> 'a list" where
  "ring m f t n = map (\<lambda>i. f ((t + i) mod m)) [0..<n]"

lemma ring_length [simp]: "length (ring m f t n) = n"
  by (simp add: ring_def)

lemma ring_empty_iff [simp]: "ring m f t n = [] \<longleftrightarrow> n = 0"
  by (simp add: ring_def)

lemma ring_push:
  assumes "n < m" "t < m"
  shows "ring m (f((t + n) mod m := b)) t (Suc n) = ring m f t n @ [b]"
proof -
  have "(t + i) mod m \<noteq> (t + n) mod m" if "i < n" for i
  proof
    assume "(t + i) mod m = (t + n) mod m"
    then have "m dvd (t + n) - (t + i)" using that by (metis add_le_cancel_left less_imp_le mod_eq_dvd_iff_nat)
    then show False using that assms(1) by (auto dest: dvd_imp_le)
  qed
  then show ?thesis by (simp add: ring_def)
qed

lemma ring_pop: "0 < n \<Longrightarrow> t < m \<Longrightarrow> ring m f t n = f t # ring m f ((t + 1) mod m) (n - 1)"
proof -
  assume n: "0 < n" and t: "t < m"
  then obtain k where k: "n = Suc k" using gr0_implies_Suc by blast
  have "[0..<Suc k] = 0 # map Suc [0..<k]" by (simp add: upt_conv_Cons map_Suc_upt del: upt_Suc)
  then show ?thesis using t unfolding k ring_def by (simp add: mod_simps del: upt_Suc)
qed

lemma ring_advance: "0 < n \<Longrightarrow> ((t + 1) mod m + (n - 1)) mod m = (t + n) mod (m :: nat)"
  by (cases n) (simp_all add: mod_add_left_eq)

end
