(* ===== verification/Clint.thy ===== *)
theory Clint
  imports Device
begin

text \<open>
  The core-local interruptor (src/src/device/timer/clint.c): the software
  interrupt bit, the timer and its compare register, and the two level lines
  they drive.  The host clock is the argument \<open>now\<close>, in microseconds.
\<close>

unbundle bit_operations_syntax

section \<open>State and operations\<close>

record ClintDevice =
  cl_base :: u64
  msip :: u32
  mtimecmp :: u64
  mtime0 :: u64
  host0 :: u64
  timebase_hz :: u64
  cl_sink :: bool

definition size_mask :: "nat \<Rightarrow> u64" where
  "size_mask sz = (if 8 \<le> sz then NOT 0 else push_bit (sz * 8) 1 - 1)"

definition SubRead64 :: "u64 \<Rightarrow> u64 \<Rightarrow> nat \<Rightarrow> u64" where
  "SubRead64 v off sz = drop_bit (unat off * 8) v AND size_mask sz"

definition SubWrite64 :: "u64 \<Rightarrow> u64 \<Rightarrow> nat \<Rightarrow> u64 \<Rightarrow> u64" where
  "SubWrite64 old off sz val =
     (old AND NOT (push_bit (unat off * 8) (size_mask sz))) OR push_bit (unat off * 8) (val AND size_mask sz)"

definition ClintInit :: "u64 \<Rightarrow> u64 \<Rightarrow> ClintDevice \<Rightarrow> ClintDevice" where
  "ClintInit now hz c = c\<lparr>msip := 0, mtimecmp := NOT 0, timebase_hz := hz, mtime0 := 0, host0 := now\<rparr>"

definition ClintMtime :: "u64 \<Rightarrow> ClintDevice \<Rightarrow> u64" where
  "ClintMtime now c = mtime0 c + (now - host0 c) * timebase_hz c div 1000000"

definition UpdateMtip :: "u64 \<Rightarrow> ClintDevice \<Rightarrow> line_call list" where
  "UpdateMtip now c = drive (cl_sink c) [(1, mtimecmp c \<le> ClintMtime now c)]"

definition ClintPoll :: "u64 \<Rightarrow> ClintDevice \<Rightarrow> line_call list" where
  "ClintPoll now c = UpdateMtip now c"

definition UpdateMsip :: "ClintDevice \<Rightarrow> line_call list" where
  "UpdateMsip c = drive (cl_sink c) [(0, msip c AND 1 \<noteq> 0)]"

definition in_reg :: "ClintDevice \<Rightarrow> u64 \<Rightarrow> u64 \<Rightarrow> u64 \<Rightarrow> bool" where
  "in_reg c off len addr \<longleftrightarrow> cl_base c + off \<le> addr \<and> addr < cl_base c + off + len"

definition ClintRead :: "u64 \<Rightarrow> ClintDevice \<Rightarrow> u64 \<Rightarrow> nat \<Rightarrow> u64" where
  "ClintRead now c addr sz =
     (if in_reg c 0x0 4 addr then ucast (msip c AND 1)
      else if in_reg c 0x4000 8 addr then SubRead64 (mtimecmp c) (addr - (cl_base c + 0x4000)) sz
      else if in_reg c 0xBFF8 8 addr then SubRead64 (ClintMtime now c) (addr - (cl_base c + 0xBFF8)) sz
      else 0)"

definition ClintWrite :: "u64 \<Rightarrow> ClintDevice \<Rightarrow> u64 \<Rightarrow> nat \<Rightarrow> u64 \<Rightarrow> ClintDevice \<times> line_call list" where
  "ClintWrite now c addr sz val =
     (if in_reg c 0x0 4 addr then
        (let c1 = c\<lparr>msip := ucast (val AND 1)\<rparr> in (c1, UpdateMsip c1))
      else if in_reg c 0x4000 8 addr then
        (let c1 = c\<lparr>mtimecmp := SubWrite64 (mtimecmp c) (addr - (cl_base c + 0x4000)) sz val\<rparr> in
         (c1, UpdateMtip now c1))
      else if in_reg c 0xBFF8 8 addr then
        (let c1 = c\<lparr>mtime0 := SubWrite64 (ClintMtime now c) (addr - (cl_base c + 0xBFF8)) sz val, host0 := now\<rparr> in
         (c1, UpdateMtip now c1))
      else (c, []))"

definition ClintRegister :: "Bus \<Rightarrow> ClintDevice \<Rightarrow> u64 \<Rightarrow> u64 \<Rightarrow> nat \<Rightarrow> nat \<Rightarrow> (Bus \<times> ClintDevice) option" where
  "ClintRegister b c base sz ops dev = with_window b base sz ops dev (c\<lparr>cl_base := base\<rparr>)"

definition ClintSetIrqSink :: "ClintDevice \<Rightarrow> ClintDevice" where
  "ClintSetIrqSink c = c\<lparr>cl_sink := True\<rparr>"

section \<open>Sub-word access\<close>

lemma bit_size_mask: "bit (size_mask sz) n \<longleftrightarrow> n < 64 \<and> n < sz * 8"
proof (cases "8 \<le> sz")
  case True
  then show ?thesis by (auto simp: size_mask_def bit_simps)
next
  case False
  then have "push_bit (sz * 8) 1 - 1 = (mask (sz * 8) :: u64)" by (simp add: mask_eq_exp_minus_1 push_bit_of_1)
  then show ?thesis using False by (simp add: size_mask_def bit_mask_iff)
qed

lemma bit_SubRead64: "bit (SubRead64 v off sz) n \<longleftrightarrow> n < sz * 8 \<and> n < 64 \<and> bit v (unat off * 8 + n)"
  by (auto simp: SubRead64_def bit_simps bit_size_mask dest: bit_imp_le_length)

lemma bit_SubWrite64:
  "bit (SubWrite64 old off sz val) n \<longleftrightarrow> n < 64 \<and>
     (if unat off * 8 \<le> n \<and> n - unat off * 8 < sz * 8 then bit val (n - unat off * 8) else bit old n)"
  by (auto simp: SubWrite64_def bit_simps bit_size_mask)

lemma SubRead_SubWrite:
  assumes "unat off + sz \<le> 8"
  shows "SubRead64 (SubWrite64 old off sz val) off sz = val AND size_mask sz"
  using assms by (auto simp: u64_eq_iff bit_SubRead64 bit_SubWrite64 bit_simps bit_size_mask)

lemma SubRead_SubWrite_other:
  assumes "unat off + sz \<le> unat off' \<or> unat off' + sz' \<le> unat off"
  shows "SubRead64 (SubWrite64 old off sz val) off' sz' = SubRead64 old off' sz'"
  using assms by (auto simp: u64_eq_iff bit_SubRead64 bit_SubWrite64 dest: bit_imp_le_length)

lemma SubWrite64_full: "SubWrite64 old 0 8 val = val"
  by (auto simp: u64_eq_iff bit_SubWrite64)

section \<open>Registers and the timer line\<close>

lemma in_reg_offset:
  assumes "in_reg c off len addr" "unat (cl_base c) + unat off + unat len < 2 ^ 64"
  shows "unat (addr - (cl_base c + off)) = unat addr - (unat (cl_base c) + unat off)"
    "unat (cl_base c) + unat off \<le> unat addr" "unat addr < unat (cl_base c) + unat off + unat len"
proof -
  have s: "unat (cl_base c + off) = unat (cl_base c) + unat off"
    using assms(2) by (intro unat_u64_add) simp
  have t: "unat (cl_base c + off + len) = unat (cl_base c) + unat off + unat len"
    using assms(2) by (subst unat_u64_add) (simp_all add: s)
  show "unat (cl_base c) + unat off \<le> unat addr" "unat addr < unat (cl_base c) + unat off + unat len"
    using assms(1) s t by (simp_all add: in_reg_def word_le_nat_alt word_less_nat_alt)
  show "unat (addr - (cl_base c + off)) = unat addr - (unat (cl_base c) + unat off)"
    using assms(1) s by (simp add: in_reg_def unat_sub)
qed

lemma reg_exclusive:
  assumes "in_reg c off 8 addr" "unat (cl_base c) + 0x10000 < 2 ^ 64"
  shows "off = 0x4000 \<or> off = 0xBFF8 \<Longrightarrow> \<not> in_reg c 0 4 addr"
    and "off = 0xBFF8 \<Longrightarrow> \<not> in_reg c 0x4000 8 addr"
proof -
  have n: "\<not> in_reg c o2 n addr" if "unat (cl_base c) + unat off + 8 < 2 ^ 64" "unat o2 + unat n \<le> unat off" for o2 n
    using in_reg_offset [of c o2 n addr] in_reg_offset [OF assms(1)] that by auto
  show "off = 0x4000 \<or> off = 0xBFF8 \<Longrightarrow> \<not> in_reg c 0 4 addr"
    by (rule n) (use assms(2) in auto)
  show "off = 0xBFF8 \<Longrightarrow> \<not> in_reg c 0x4000 8 addr"
    by (rule n) (use assms(2) in auto)
qed

lemma ClintMtime_value:
  assumes "host0 c \<le> now" "(unat now - unat (host0 c)) * unat (timebase_hz c) < 2 ^ 64"
    "unat (mtime0 c) + (unat now - unat (host0 c)) * unat (timebase_hz c) div 1000000 < 2 ^ 64"
  shows "unat (ClintMtime now c) = unat (mtime0 c) + (unat now - unat (host0 c)) * unat (timebase_hz c) div 1000000"
proof -
  have d: "unat (now - host0 c) = unat now - unat (host0 c)" using assms(1) by (simp add: unat_sub)
  have m: "unat ((now - host0 c) * timebase_hz c) = (unat now - unat (host0 c)) * unat (timebase_hz c)"
    using assms(2) by (simp add: unat_word_ariths d)
  have q: "unat ((now - host0 c) * timebase_hz c div 1000000) =
      (unat now - unat (host0 c)) * unat (timebase_hz c) div 1000000"
    by (simp add: unat_div_distrib m)
  show ?thesis unfolding ClintMtime_def using assms(3) by (subst unat_u64_add) (simp_all add: q)
qed

text \<open>
  While the scaled time does not overflow, a poll drives the timer line to the comparison of the
  compare register with the elapsed ticks, and once the line is high every later poll keeps it high.
\<close>

theorem clint_timer:
  assumes "cl_sink c" "host0 c \<le> now" "now \<le> now'"
    "(unat now' - unat (host0 c)) * unat (timebase_hz c) < 2 ^ 64"
    "unat (mtime0 c) + (unat now' - unat (host0 c)) * unat (timebase_hz c) div 1000000 < 2 ^ 64"
  shows "ClintPoll now c = [(1, unat (mtimecmp c) \<le> unat (mtime0 c) +
      (unat now - unat (host0 c)) * unat (timebase_hz c) div 1000000)] \<and>
    (ClintPoll now c = [(1, True)] \<longrightarrow> ClintPoll now' c = [(1, True)])"
proof (intro conjI impI)
  let ?t = "\<lambda>n. (unat n - unat (host0 c)) * unat (timebase_hz c)"
  have le: "?t now \<le> ?t now'" using assms(3) by (intro mult_le_mono1) (simp add: word_le_nat_alt diff_le_mono)
  then have d: "?t now div 1000000 \<le> ?t now' div 1000000" by (rule div_le_mono)
  have v: "unat (ClintMtime now c) = unat (mtime0 c) + ?t now div 1000000"
    by (rule ClintMtime_value [OF assms(2) le_less_trans [OF le assms(4)]]) (use assms(5) d in linarith)
  have v': "unat (ClintMtime now' c) = unat (mtime0 c) + ?t now' div 1000000"
    by (rule ClintMtime_value) (use assms in simp_all)
  show "ClintPoll now c = [(1, unat (mtimecmp c) \<le> unat (mtime0 c) + ?t now div 1000000)]"
    by (simp add: ClintPoll_def UpdateMtip_def drive_def assms(1) word_le_nat_alt v)
  show "ClintPoll now' c = [(1, True)]" if "ClintPoll now c = [(1, True)]"
    using that d by (simp add: ClintPoll_def UpdateMtip_def drive_def assms(1) word_le_nat_alt v v')
qed

text \<open>
  A sub-word write to the compare register or to the timer is read back as written by an access
  of the same place and size, and the other bytes of the register do not change.
\<close>

theorem clint_subword:
  assumes "in_reg c off 8 addr" "off = 0x4000 \<or> off = 0xBFF8" "unat (cl_base c) + 0x10000 < 2 ^ 64"
    "unat (addr - (cl_base c + off)) + sz \<le> 8" "ClintWrite now c addr sz val = (c', ls)"
  shows "ClintRead now c' addr sz = val AND size_mask sz \<and>
    (\<forall>addr' sz'. in_reg c off 8 addr' \<longrightarrow> unat addr + sz \<le> unat addr' \<or> unat addr' + sz' \<le> unat addr \<longrightarrow>
      ClintRead now c' addr' sz' = ClintRead now c addr' sz')"
proof (intro conjI allI impI)
  define o1 where "o1 = addr - (cl_base c + off)"
  have x: "\<not> in_reg c 0 4 a" "off = 0xBFF8 \<Longrightarrow> \<not> in_reg c 0x4000 8 a" if "in_reg c off 8 a" for a
    using reg_exclusive [OF that assms(3)] assms(2) by auto
  have c': "c' = (if off = 0x4000 then c\<lparr>mtimecmp := SubWrite64 (mtimecmp c) o1 sz val\<rparr>
      else c\<lparr>mtime0 := SubWrite64 (ClintMtime now c) o1 sz val, host0 := now\<rparr>)"
    using assms(1,2,5) x [OF assms(1)] by (elim disjE) (simp_all add: ClintWrite_def o1_def Let_def)
  have b: "in_reg c' = in_reg c" "cl_base c' = cl_base c" by (simp_all add: c' in_reg_def fun_eq_iff)
  have r: "ClintRead now c' a n = SubRead64 (SubWrite64 (if off = 0x4000 then mtimecmp c else ClintMtime now c) o1 sz val)
      (a - (cl_base c + off)) n" if "in_reg c off 8 a" for a n
    using assms(2) x [OF that] that by (elim disjE) (simp_all add: ClintRead_def b, simp_all add: c' ClintMtime_def)
  show "ClintRead now c' addr sz = val AND size_mask sz"
    unfolding r [OF assms(1)] o1_def [symmetric] by (rule SubRead_SubWrite) (use assms(4) in \<open>simp add: o1_def\<close>)
  fix addr' sz'
  assume a': "in_reg c off 8 addr'" and d: "unat addr + sz \<le> unat addr' \<or> unat addr' + sz' \<le> unat addr"
  have u: "unat (cl_base c) + unat off + unat (8 :: u64) < 2 ^ 64" using assms(2,3) by auto
  note q = in_reg_offset [OF assms(1) u] in_reg_offset [OF a' u]
  have "unat o1 + sz \<le> unat (addr' - (cl_base c + off)) \<or> unat (addr' - (cl_base c + off)) + sz' \<le> unat o1"
    using d q unfolding o1_def by linarith
  then have "ClintRead now c' addr' sz' = SubRead64 (if off = 0x4000 then mtimecmp c else ClintMtime now c)
      (addr' - (cl_base c + off)) sz'"
    unfolding r [OF a'] by (rule SubRead_SubWrite_other)
  then show "ClintRead now c' addr' sz' = ClintRead now c addr' sz'"
    using assms(2) x [OF a'] a' by (elim disjE) (simp_all add: ClintRead_def)
qed

definition clint0 :: ClintDevice where
  "clint0 = \<lparr>cl_base = 0x02000000, msip = 0, mtimecmp = 30, mtime0 = 0, host0 = 5, timebase_hz = 10000000, cl_sink = True\<rparr>"

theorem clint_timer_witness: "ClintPoll 7 clint0 = [(1, False)] \<and> ClintPoll 8 clint0 = [(1, True)] \<and> ClintPoll 9 clint0 = [(1, True)]"
  using clint_timer [of clint0 7 9] clint_timer [of clint0 8 9] by (simp add: clint0_def)

theorem clint_subword_witness:
  "ClintRead 7 (fst (ClintWrite 7 clint0 0x02004004 4 0x1122334455667788)) 0x02004004 4 = 0x55667788 \<and>
   ClintRead 7 (fst (ClintWrite 7 clint0 0x02004004 4 0x1122334455667788)) 0x02004000 4 = ClintRead 7 clint0 0x02004000 4"
proof -
  obtain c' ls where w: "ClintWrite 7 clint0 0x02004004 4 0x1122334455667788 = (c', ls)" by fastforce
  note t = clint_subword [OF _ _ _ _ w, of "0x4000"]
  have "in_reg clint0 0x4000 8 0x02004004" "in_reg clint0 0x4000 8 0x02004000" by (simp_all add: in_reg_def clint0_def)
  then show ?thesis using t w by (simp add: clint0_def size_mask_def)
qed

end
