(* ===== verification/Plic.thy ===== *)
theory Plic
  imports Device
begin

text \<open>
  The platform interrupt controller (src/src/device/intc/plic.c): 95 sources
  with a priority and a pending bit, two contexts with an enable set and a
  threshold, and one level line per context.  A claim is a register read with
  a side effect, so reads return the device too.
\<close>

unbundle bit_operations_syntax

section \<open>State and operations\<close>

record PlicDevice =
  pl_base :: u64
  priority :: "nat \<Rightarrow> u32"
  pending :: "nat \<Rightarrow> u32"
  enable :: "nat \<Rightarrow> nat \<Rightarrow> u32"
  threshold :: "nat \<Rightarrow> u32"
  pl_sink :: bool

definition PlicInit :: "PlicDevice \<Rightarrow> PlicDevice" where
  "PlicInit p = p\<lparr>priority := (\<lambda>_. 0), pending := (\<lambda>_. 0), enable := (\<lambda>_ _. 0), threshold := (\<lambda>_. 0)\<rparr>"

definition src_bit :: "nat \<Rightarrow> u32" where
  "src_bit src = push_bit (src mod 32) 1"

definition claimable :: "PlicDevice \<Rightarrow> nat \<Rightarrow> nat \<Rightarrow> bool" where
  "claimable p ctx src \<longleftrightarrow> pending p (src div 32) AND src_bit src \<noteq> 0 \<and>
     enable p ctx (src div 32) AND src_bit src \<noteq> 0 \<and> threshold p ctx < priority p src"

definition UpdateOutput :: "PlicDevice \<Rightarrow> line_call list" where
  "UpdateOutput p = drive (pl_sink p)
     (map (\<lambda>ctx. (int ctx, list_ex (claimable p ctx) [1..<96])) [0..<2])"

definition PlicDeviceIrq :: "PlicDevice \<Rightarrow> int \<Rightarrow> bool \<Rightarrow> PlicDevice \<times> line_call list" where
  "PlicDeviceIrq p s level =
     (if s < 1 \<or> 95 < s then (p, [])
      else let src = nat s; w = src div 32;
               p1 = p\<lparr>pending := (pending p)(w := if level then pending p w OR src_bit src
                      else pending p w AND NOT (src_bit src))\<rparr> in
           (p1, UpdateOutput p1))"

definition claim_better :: "PlicDevice \<Rightarrow> nat \<Rightarrow> nat \<times> u32 \<Rightarrow> nat \<Rightarrow> nat \<times> u32" where
  "claim_better p ctx b src =
     (if claimable p ctx src \<and> (fst b = 0 \<or> snd b < priority p src) then (src, priority p src) else b)"

definition Claim :: "PlicDevice \<Rightarrow> nat \<Rightarrow> nat" where
  "Claim p ctx = fst (foldl (claim_better p ctx) (0, 0) [1..<96])"

text \<open>The conversion of a 64-bit value to \<open>int\<close>.\<close>

definition to_int :: "u64 \<Rightarrow> int" where
  "to_int x = sint (ucast x :: u32)"

definition claim_read :: "PlicDevice \<Rightarrow> nat \<Rightarrow> u32 \<times> PlicDevice \<times> line_call list" where
  "claim_read p ctx =
     (let src = Claim p ctx in
      if src = 0 then (0, p, [])
      else let p1 = p\<lparr>pending := (pending p)(src div 32 := pending p (src div 32) AND NOT (src_bit src))\<rparr> in
           (of_nat src, p1, UpdateOutput p1))"

definition ReadWord :: "PlicDevice \<Rightarrow> u64 \<Rightarrow> u32 \<times> PlicDevice \<times> line_call list" where
  "ReadWord p off =
     (if off < 0x1000 then
        (let src = to_int (off div 4) in
         (if 1 \<le> src \<and> src \<le> 95 then priority p (nat src) else 0, p, []))
      else if off < 0x2000 then
        (let word = to_int ((off - 0x1000) div 4) in
         (if 0 \<le> word \<and> word < 3 then pending p (nat word) else 0, p, []))
      else if off < 0x200000 then
        (let rel = off - 0x2000; ctx = to_int (rel div 0x80); widx = to_int (rel mod 0x80 div 4) in
         (if 0 \<le> ctx \<and> ctx < 2 \<and> 0 \<le> widx \<and> widx < 3 then enable p (nat ctx) (nat widx) else 0, p, []))
      else
        (let rel = off - 0x200000; ctx = to_int (rel div 0x1000); field = to_int (rel mod 0x1000 div 4) in
         if 0 \<le> ctx \<and> ctx < 2 \<and> field = 0 then (threshold p (nat ctx), p, [])
         else if 0 \<le> ctx \<and> ctx < 2 \<and> field = 1 then claim_read p (nat ctx)
         else (0, p, [])))"

definition WriteWord :: "PlicDevice \<Rightarrow> u64 \<Rightarrow> u32 \<Rightarrow> PlicDevice \<times> line_call list" where
  "WriteWord p off val =
     (if off < 0x1000 then
        (let src = to_int (off div 4) in
         (if 1 \<le> src \<and> src \<le> 95 then p\<lparr>priority := (priority p)(nat src := val AND 7)\<rparr> else p, []))
      else if 0x2000 \<le> off \<and> off < 0x200000 then
        (let rel = off - 0x2000; ctx = to_int (rel div 0x80); widx = to_int (rel mod 0x80 div 4);
             p1 = (if 0 \<le> ctx \<and> ctx < 2 \<and> 0 \<le> widx \<and> widx < 3
                   then p\<lparr>enable := (enable p)(nat ctx := (enable p (nat ctx))(nat widx := val))\<rparr> else p) in
         (p1, UpdateOutput p1))
      else if 0x200000 \<le> off then
        (let rel = off - 0x200000; ctx = to_int (rel div 0x1000); field = to_int (rel mod 0x1000 div 4);
             p1 = (if 0 \<le> ctx \<and> ctx < 2 \<and> field = 0
                   then p\<lparr>threshold := (threshold p)(nat ctx := val)\<rparr> else p) in
         (p1, UpdateOutput p1))
      else (p, []))"

definition aligned :: "u64 \<Rightarrow> u64" where
  "aligned off = off AND NOT 3"

definition PlicRead :: "PlicDevice \<Rightarrow> u64 \<Rightarrow> nat \<Rightarrow> u64 \<times> PlicDevice \<times> line_call list" where
  "PlicRead p addr sz =
     (let off = addr - pl_base p; (v, p1, c1) = ReadWord p (aligned off) in
      if 4 < sz \<and> off AND 4 \<noteq> 0 then
        (let (w, p2, c2) = ReadWord p1 (aligned off + 4) in
         (ucast v OR push_bit 32 (ucast w), p2, c1 @ c2))
      else (ucast v, p1, c1))"

definition PlicWrite :: "PlicDevice \<Rightarrow> u64 \<Rightarrow> nat \<Rightarrow> u64 \<Rightarrow> PlicDevice \<times> line_call list" where
  "PlicWrite p addr sz val =
     (let off = addr - pl_base p; (p1, c1) = WriteWord p (aligned off) (ucast val) in
      if 4 < sz \<and> off AND 4 \<noteq> 0 then
        (let (p2, c2) = WriteWord p1 (aligned off + 4) (ucast (drop_bit 32 val)) in (p2, c1 @ c2))
      else (p1, c1))"

definition PlicRegister :: "Bus \<Rightarrow> PlicDevice \<Rightarrow> u64 \<Rightarrow> u64 \<Rightarrow> nat \<Rightarrow> nat \<Rightarrow> (Bus \<times> PlicDevice) option" where
  "PlicRegister b p base sz ops dev = with_window b base sz ops dev (p\<lparr>pl_base := base\<rparr>)"

definition PlicSetIrqSink :: "PlicDevice \<Rightarrow> PlicDevice" where
  "PlicSetIrqSink p = p\<lparr>pl_sink := True\<rparr>"

section \<open>Claims\<close>

text \<open>The best claimable source among the sources below \<open>n\<close>, 0 when there is none.\<close>

definition best_below :: "PlicDevice \<Rightarrow> nat \<Rightarrow> nat \<Rightarrow> nat \<Rightarrow> bool" where
  "best_below p ctx n b \<longleftrightarrow>
     (if b = 0 then \<forall>s. 1 \<le> s \<and> s < n \<longrightarrow> \<not> claimable p ctx s
      else 1 \<le> b \<and> b < n \<and> claimable p ctx b \<and>
        (\<forall>s. 1 \<le> s \<and> s < n \<and> claimable p ctx s \<longrightarrow> priority p s \<le> priority p b \<and>
           (s < b \<longrightarrow> priority p s < priority p b)))"

lemma claim_scan:
  "1 \<le> n \<Longrightarrow> let r = foldl (claim_better p ctx) (0, 0) [1..<n] in
     best_below p ctx n (fst r) \<and> (fst r \<noteq> 0 \<longrightarrow> snd r = priority p (fst r))"
proof (induction n rule: dec_induct)
  case base
  then show ?case by (simp add: best_below_def)
next
  case (step n)
  define r where "r = foldl (claim_better p ctx) (0, 0) [1..<n]"
  have "best_below p ctx n (fst r)" "fst r \<noteq> 0 \<Longrightarrow> snd r = priority p (fst r)"
    using step.IH by (auto simp: r_def Let_def)
  then have "let q = claim_better p ctx r n in
      best_below p ctx (Suc n) (fst q) \<and> (fst q \<noteq> 0 \<longrightarrow> snd q = priority p (fst q))"
    using step.hyps by (auto simp: best_below_def claim_better_def Let_def less_Suc_eq not_less split: if_splits)
  then show ?case using step.hyps by (simp add: r_def)
qed

lemma Claim_best: "best_below p ctx 96 (Claim p ctx)"
  using claim_scan [of 96 p ctx] by (simp add: Claim_def Let_def)

lemma Claim_zero: "Claim p ctx = 0 \<longleftrightarrow> \<not> list_ex (claimable p ctx) [1..<96]"
  using Claim_best [of p ctx] by (auto simp: best_below_def list_ex_iff split: if_splits)

lemma src_bit_iff: "x AND src_bit s \<noteq> 0 \<longleftrightarrow> bit x (s mod 32)"
  by (simp add: src_bit_def push_bit_of_1 and_exp_eq_0_iff_not_bit)

lemma claimable_bits: "claimable p ctx s \<longleftrightarrow> bit (pending p (s div 32)) (s mod 32) \<and>
    bit (enable p ctx (s div 32)) (s mod 32) \<and> threshold p ctx < priority p s"
  by (simp add: claimable_def src_bit_iff)

lemma clear_pending:
  "bit (((pending p)(s div 32 := pending p (s div 32) AND NOT (src_bit s))) (t div 32)) (t mod 32) \<longleftrightarrow>
     bit (pending p (t div 32)) (t mod 32) \<and> t \<noteq> s"
proof -
  have "t = s \<longleftrightarrow> t div 32 = s div 32 \<and> t mod 32 = s mod 32" by (metis div_mult_mod_eq)
  then show ?thesis by (auto simp: src_bit_def bit_simps)
qed

text \<open>
  C24. A claim returns the claimable source of the highest priority, the lowest number among equals, or
  zero when there is none, and takes exactly that source from every context.
\<close>

theorem plic_claim:
  "case claim_read p ctx of (v, p', cs) \<Rightarrow> best_below p ctx 96 (unat v) \<and>
     (\<forall>c s. claimable p' c s \<longleftrightarrow> claimable p c s \<and> \<not> (1 \<le> unat v \<and> s = unat v))"
proof -
  define src where "src = Claim p ctx"
  have b: "best_below p ctx 96 src" unfolding src_def by (rule Claim_best)
  then have "src < 96" by (auto simp: best_below_def split: if_splits)
  then have u: "unat (of_nat src :: u32) = src" by (simp add: unat_of_nat)
  show ?thesis
  proof (cases "src = 0")
    case True
    then show ?thesis using b by (simp add: claim_read_def src_def)
  next
    case False
    define p1 where "p1 = p\<lparr>pending := (pending p)(src div 32 := pending p (src div 32) AND NOT (src_bit src))\<rparr>"
    have "claim_read p ctx = (of_nat src, p1, UpdateOutput p1)"
      using False by (simp add: claim_read_def src_def Let_def p1_def)
    moreover have "claimable p1 c s \<longleftrightarrow> claimable p c s \<and> s \<noteq> src" for c s
      unfolding claimable_bits p1_def using clear_pending [of p src s] by simp blast
    ultimately show ?thesis using b u False by simp
  qed
qed

section \<open>The output lines\<close>

definition lines_agree :: "PlicDevice \<Rightarrow> (int \<Rightarrow> bool) \<Rightarrow> bool" where
  "lines_agree p l \<longleftrightarrow> pl_sink p \<and> (\<forall>ctx<2. l (int ctx) = list_ex (claimable p ctx) [1..<96])"

definition after :: "(int \<Rightarrow> bool) \<Rightarrow> line_call list \<Rightarrow> int \<Rightarrow> bool" where
  "after l cs k = line_after (l k) k cs"

lemma after_simps [simp]: "after l [] = l" "after l (xs @ ys) = after (after l xs) ys"
  by (simp_all add: after_def fun_eq_iff)

lemma agree_update: "pl_sink p \<Longrightarrow> lines_agree p (after l (UpdateOutput p))"
  by (simp add: lines_agree_def UpdateOutput_def drive_def after_def All_less_Suc2 numeral_2_eq_2)

text \<open>The inputs of the controller; the register writes of this relation leave the priorities alone.\<close>

inductive plic_step :: "PlicDevice \<times> (int \<Rightarrow> bool) \<Rightarrow> PlicDevice \<times> (int \<Rightarrow> bool) \<Rightarrow> bool" where
  irq: "PlicDeviceIrq p s lv = (p', cs) \<Longrightarrow> plic_step (p, l) (p', after l cs)"
| read: "PlicRead p a n = (v, p', cs) \<Longrightarrow> plic_step (p, l) (p', after l cs)"
| "write": "PlicWrite p a n v = (p', cs) \<Longrightarrow> 0x1000 \<le> a - pl_base p \<Longrightarrow> plic_step (p, l) (p', after l cs)"

inductive_cases plic_stepE: "plic_step x y"

lemma agree_sink: "lines_agree p l \<Longrightarrow> pl_sink p"
  by (simp add: lines_agree_def)

lemma agree_irq: "lines_agree p l \<Longrightarrow> PlicDeviceIrq p s lv = (p', cs) \<Longrightarrow> lines_agree p' (after l cs)"
  by (frule agree_sink) (auto simp: PlicDeviceIrq_def Let_def intro: agree_update split: if_splits)

lemma agree_ReadWord: "lines_agree p l \<Longrightarrow> ReadWord p off = (v, p', cs) \<Longrightarrow> lines_agree p' (after l cs)"
  by (frule agree_sink) (auto simp: ReadWord_def claim_read_def Let_def intro: agree_update split: if_splits)

lemma agree_WriteWord:
  assumes "lines_agree p l" "WriteWord p off val = (p', cs)" "0x1000 \<le> off \<or> off = 0"
  shows "lines_agree p' (after l cs) \<and> pl_base p' = pl_base p"
proof (cases "off < 0x1000")
  case True
  then have "off = 0" using assms(3) by (simp add: not_less [symmetric])
  then show ?thesis using assms(1,2) by (auto simp: WriteWord_def to_int_def)
next
  case False
  then show ?thesis using assms(1,2) agree_sink [OF assms(1)]
    by (auto simp: WriteWord_def Let_def intro: agree_update split: if_splits)
qed

lemma unat_aligned: "unat (aligned off) = unat off div 4 * 4"
proof -
  have "aligned off = push_bit 2 (drop_bit 2 off)" by (simp add: aligned_def push_drop_mask mask_eq_exp_minus_1)
  moreover have "unat off div 4 * 4 < 2 ^ 64" using unat_u64_less [of off] div_times_less_eq_dividend [of "unat off" 4]
    by simp
  ultimately show ?thesis
    by (simp add: push_bit_eq_mult drop_bit_eq_div unat_word_ariths unat_div_distrib)
qed

lemma next_word: "0x1000 \<le> off \<Longrightarrow> 0x1000 \<le> aligned off \<and> (0x1000 \<le> aligned off + 4 \<or> aligned off + 4 = 0)"
proof -
  assume a: "0x1000 \<le> off"
  then have u: "4096 \<le> unat (aligned off)" by (simp add: word_le_nat_alt unat_aligned)
  have w: "unat (aligned off + 4) = (unat (aligned off) + 4) mod 2 ^ 64" by (simp add: unat_word_ariths)
  have "unat (aligned off) + 4 \<le> 2 ^ 64" using unat_u64_less [of off] by (simp add: unat_aligned)
  then have "unat (aligned off) + 4 < 2 ^ 64 \<or> unat (aligned off) + 4 = 2 ^ 64" by linarith
  then have "4096 \<le> unat (aligned off + 4) \<or> unat (aligned off + 4) = 0" using u w by auto
  then show ?thesis using u by (simp add: word_le_nat_alt unat_eq_0)
qed

lemma agree_read: "lines_agree p l \<Longrightarrow> PlicRead p a n = (v, p', cs) \<Longrightarrow> lines_agree p' (after l cs)"
  by (auto simp: PlicRead_def Let_def split: prod.splits if_splits) (blast dest: agree_ReadWord)+

lemma agree_write:
  assumes "lines_agree p l" "PlicWrite p a n v = (p', cs)" "0x1000 \<le> a - pl_base p"
  shows "lines_agree p' (after l cs)"
proof -
  define off where "off = a - pl_base p"
  note w = next_word [OF assms(3), folded off_def]
  obtain p1 c1 where 1: "WriteWord p (aligned off) (ucast v) = (p1, c1)" by fastforce
  have a1: "lines_agree p1 (after l c1)" using agree_WriteWord [OF assms(1) 1] w by blast
  obtain p2 c2 where 2: "WriteWord p1 (aligned off + 4) (ucast (drop_bit 32 v)) = (p2, c2)" by fastforce
  have "lines_agree p2 (after (after l c1) c2)" using agree_WriteWord [OF a1 2] w by blast
  then show ?thesis
    using assms(2) a1 by (auto simp: PlicWrite_def off_def [symmetric] Let_def 1 2 split: if_splits)
qed

lemma agree_step: "plic_step x y \<Longrightarrow> lines_agree (fst x) (snd x) \<Longrightarrow> lines_agree (fst y) (snd y)"
  by (erule plic_stepE) (auto dest: agree_irq agree_read agree_write)

text \<open>
  C23. In every run in which the guest does not change a source priority, the two output lines say at each
  moment whether their context has a source to claim.
\<close>

theorem plic_lines:
  assumes "plic_step\<^sup>*\<^sup>* (p, l) (p', l')" "lines_agree p l"
  shows "lines_agree p' l'"
proof -
  have "lines_agree (fst y) (snd y)" if "plic_step\<^sup>*\<^sup>* (p, l) y" for y
    using that by (induction rule: rtranclp_induct) (use assms(2) agree_step in auto)
  then show ?thesis using assms(1) by fastforce
qed

definition plic0 :: PlicDevice where
  "plic0 = \<lparr>pl_base = 0x0c000000, priority = (\<lambda>_. 1), pending = (\<lambda>_. 0), enable = (\<lambda>_ _. 0x400), threshold = (\<lambda>_. 0),
     pl_sink = True\<rparr>"

theorem plic_lines_witness:
  "\<exists>p1 l1. plic_step (plic0, \<lambda>_. False) (p1, l1) \<and> l1 1 \<and> lines_agree p1 l1"
proof -
  obtain p1 cs where 1: "PlicDeviceIrq plic0 10 True = (p1, cs)" by fastforce
  then have s: "plic_step (plic0, \<lambda>_. False) (p1, after (\<lambda>_. False) cs)" by (rule plic_step.irq)
  have "lines_agree plic0 (\<lambda>_. False)"
    by (simp add: lines_agree_def list_ex_iff claimable_def plic0_def)
  then have a: "lines_agree p1 (after (\<lambda>_. False) cs)" using plic_lines [OF r_into_rtranclp [where r = plic_step, OF s]] by blast
  have "claimable p1 1 10" using 1 by (auto simp: PlicDeviceIrq_def Let_def claimable_def plic0_def src_bit_def)
  then have "list_ex (claimable p1 1) [1..<96]" by (simp add: list_ex_iff) (use atLeastLessThan_iff in force)
  then have "after (\<lambda>_. False) cs 1" using a by (simp add: lines_agree_def All_less_Suc2 numeral_2_eq_2)
  then show ?thesis using s a by blast
qed

text \<open>
  C34. A write to a source priority does not refresh the output lines: a pending, enabled source whose
  priority rises above the threshold can be claimed while the line of its context stays low.
\<close>

theorem plic_priority_stale:
  "let p = plic0\<lparr>priority := (\<lambda>_. 0), pending := (\<lambda>_. 0x400)\<rparr> in
   lines_agree p (\<lambda>_. False) \<and>
   (case PlicWrite p 0x0c000028 4 1 of (p', cs) \<Rightarrow> cs = [] \<and> Claim p' 1 = 10)"
proof -
  define p where "p = plic0\<lparr>priority := (\<lambda>_. 0), pending := (\<lambda>_. 0x400)\<rparr>"
  define p' where "p' = p\<lparr>priority := (\<lambda>_. 0)(10 := 1)\<rparr>"
  have w: "PlicWrite p 0x0c000028 4 1 = (p', [])"
    by (simp add: PlicWrite_def WriteWord_def aligned_def to_int_def p_def p'_def plic0_def Let_def)
  have c: "claimable p' 1 s \<longleftrightarrow> s = 10" for s
    by (auto simp: claimable_def p'_def p_def plic0_def src_bit_def)
  have "Claim p' 1 = 10"
    using Claim_best [of p' 1] unfolding best_below_def c
    by (cases "Claim p' 1 = 0") (auto dest: spec [of _ 10])
  moreover have "lines_agree p (\<lambda>_. False)"
    by (simp add: lines_agree_def list_ex_iff claimable_def p_def plic0_def)
  ultimately show ?thesis using w by (simp add: p_def [symmetric])
qed

end
