(* ===== verification/Uart.thy ===== *)
theory Uart
  imports Device
begin

text \<open>
  The serial port (src/src/device/char/uart16550.c): register file, receiver
  FIFO with its trigger level and character timeout, interrupt identification
  and loopback.  Transmitted bytes leave at once; they are the last component
  of the result of a write.  The host clock is the argument \<open>now\<close>, in
  microseconds.
\<close>

unbundle bit_operations_syntax

section \<open>State\<close>

record Uart16550 =
  ier :: u8
  iir :: u8
  lcr :: u8
  mcr :: u8
  msr :: u8
  scr :: u8
  fcr :: u8
  lsr :: u8
  divider :: u16
  rx_fifo :: "nat \<Rightarrow> u8"
  rx_head :: nat
  rx_tail :: nat
  rx_count :: nat
  rx_trigger :: nat
  rx_timeout_armed :: bool
  rx_timeout_at :: int
  rx_timeout_ip :: bool
  thr_ip :: bool
  ua_sink :: bool

abbreviation (input) kLsrErr :: u8 where "kLsrErr \<equiv> 0x1e"

definition kTriggerLevels :: "u8 \<Rightarrow> nat" where
  "kTriggerLevels i = (if i = 0 then 1 else if i = 1 then 4 else if i = 2 then 8 else 14)"

section \<open>Operations\<close>

definition CharTimeUs :: "Uart16550 \<Rightarrow> int" where
  "CharTimeUs u = (let d = (if divider u = 0 then 1 else ucast (divider u)) :: u32 in
     uint (10 * d) * 1000000 div 115200)"

definition RefreshLsr :: "Uart16550 \<Rightarrow> Uart16550" where
  "RefreshLsr u = u\<lparr>lsr := ((lsr u AND kLsrErr) OR (if 0 < rx_count u then 0x01 else 0)) OR (0x20 OR 0x40)\<rparr>"

definition uart_source :: "Uart16550 \<Rightarrow> u8" where
  "uart_source u =
     (if ier u AND 0x04 \<noteq> 0 \<and> lsr u AND kLsrErr \<noteq> 0 then 0x06
      else if ier u AND 0x01 \<noteq> 0 \<and> lsr u AND 0x01 \<noteq> 0 \<and> (fcr u AND 0x01 = 0 \<or> rx_trigger u \<le> rx_count u) then 0x04
      else if ier u AND 0x01 \<noteq> 0 \<and> rx_timeout_ip u then 0x0c
      else if ier u AND 0x02 \<noteq> 0 \<and> thr_ip u then 0x02
      else if ier u AND 0x08 \<noteq> 0 \<and> msr u AND 0x0f \<noteq> 0 then 0x00
      else 0x01)"

definition UpdateIrq :: "Uart16550 \<Rightarrow> Uart16550 \<times> line_call list" where
  "UpdateIrq u = (u\<lparr>iir := uart_source u OR (if fcr u AND 0x01 \<noteq> 0 then 0xc0 else 0)\<rparr>,
     drive (ua_sink u) [(0, uart_source u \<noteq> 0x01)])"

definition UpdateMsr :: "Uart16550 \<Rightarrow> Uart16550 \<times> line_call list" where
  "UpdateMsr u =
     (let loop = mcr u AND 0x10 \<noteq> 0;
          i0 = (if loop then
                  (if mcr u AND 0x01 \<noteq> 0 then 0x20 else 0) OR (if mcr u AND 0x02 \<noteq> 0 then 0x10 else 0) OR
                  (if mcr u AND 0x04 \<noteq> 0 then 0x40 else 0) OR (if mcr u AND 0x08 \<noteq> 0 then 0x80 else 0)
                else 0);
          i1 = (if (i0 XOR msr u) AND 0x10 \<noteq> 0 then i0 OR 0x01 else i0);
          i2 = (if (i1 XOR msr u) AND 0x20 \<noteq> 0 then i1 OR 0x02 else i1);
          i3 = (if (i2 XOR msr u) AND 0x40 \<noteq> 0 then i2 OR 0x04 else i2);
          i4 = (if (i3 XOR msr u) AND 0x80 \<noteq> 0 then i3 OR 0x08 else i3) in
      UpdateIrq (u\<lparr>msr := i4 OR (msr u AND 0x0f)\<rparr>))"

definition PushRx :: "int \<Rightarrow> Uart16550 \<Rightarrow> u8 \<Rightarrow> Uart16550 \<times> line_call list" where
  "PushRx now u ch =
     (let u1 = (if 16 \<le> rx_count u then u\<lparr>lsr := lsr u OR 0x02\<rparr>
                else u\<lparr>rx_fifo := (rx_fifo u)(rx_head u := ch), rx_head := (rx_head u + 1) mod 16,
                       rx_count := rx_count u + 1\<rparr>);
          u2 = RefreshLsr u1;
          u3 = (if fcr u2 AND 0x01 \<noteq> 0
                then u2\<lparr>rx_timeout_armed := True, rx_timeout_at := now + CharTimeUs u2 * 4\<rparr> else u2) in
      UpdateIrq u3)"

definition Uart16550Init :: "Uart16550 \<Rightarrow> Uart16550 \<times> line_call list" where
  "Uart16550Init u =
     (let u1 = \<lparr>ier = 0, iir = 0, lcr = 0, mcr = 0, msr = 0, scr = 0, fcr = 0, lsr = 0, divider = 0,
            rx_fifo = (\<lambda>_. 0), rx_head = 0, rx_tail = 0, rx_count = 0, rx_trigger = kTriggerLevels 0,
            rx_timeout_armed = False, rx_timeout_at = 0, rx_timeout_ip = False, thr_ip = True, ua_sink = ua_sink u\<rparr>;
          (u2, c1) = UpdateMsr (RefreshLsr u1); (u3, c2) = UpdateIrq u2 in
      (u3, c1 @ c2))"

definition read_rbr :: "Uart16550 \<Rightarrow> u8 \<times> Uart16550 \<times> line_call list" where
  "read_rbr u =
     (let (v, u1) = (if 0 < rx_count u
                     then (rx_fifo u (rx_tail u), u\<lparr>rx_tail := (rx_tail u + 1) mod 16, rx_count := rx_count u - 1\<rparr>)
                     else (0, u));
          (u2, c) = UpdateIrq (RefreshLsr (u1\<lparr>rx_timeout_ip := False, rx_timeout_armed := False\<rparr>)) in
      (v, u2, c))"

definition Uart16550Read :: "Uart16550 \<Rightarrow> u64 \<Rightarrow> u8 \<times> Uart16550 \<times> line_call list" where
  "Uart16550Read u off =
     (if off = 0 then
        (if lcr u AND 0x80 \<noteq> 0 then (ucast (divider u AND 0xff), u, []) else read_rbr u)
      else if off = 1 then (if lcr u AND 0x80 \<noteq> 0 then ucast (drop_bit 8 (divider u)) else ier u, u, [])
      else if off = 2 then (iir u, UpdateIrq (u\<lparr>thr_ip := False\<rparr>))
      else if off = 3 then (lcr u, u, [])
      else if off = 4 then (mcr u, u, [])
      else if off = 5 then (lsr u, UpdateIrq (u\<lparr>lsr := lsr u AND NOT kLsrErr\<rparr>))
      else if off = 6 then (msr u, UpdateIrq (u\<lparr>msr := msr u AND NOT 0x0f\<rparr>))
      else (scr u, u, []))"

definition write_thr :: "int \<Rightarrow> Uart16550 \<Rightarrow> u8 \<Rightarrow> Uart16550 \<times> line_call list \<times> u8 list" where
  "write_thr now u val =
     (let (u1, c1, out) = (if lcr u AND 0x80 \<noteq> 0
                           then (u\<lparr>divider := (divider u AND 0xff00) OR ucast val\<rparr>, [], [])
                           else if mcr u AND 0x10 \<noteq> 0 then (let (u1, c1) = PushRx now u val in (u1, c1, []))
                           else (u, [], [val]));
          (u2, c2) = UpdateIrq (u1\<lparr>thr_ip := True\<rparr>) in
      (u2, c1 @ c2, out))"

definition write_fcr :: "Uart16550 \<Rightarrow> u8 \<Rightarrow> Uart16550 \<times> line_call list" where
  "write_fcr u val =
     (let u1 = u\<lparr>fcr := val\<rparr>;
          u2 = (if val AND 0x02 \<noteq> 0
                then u1\<lparr>rx_count := 0, rx_head := 0, rx_tail := 0, rx_timeout_armed := False,
                       rx_timeout_ip := False, lsr := lsr u1 AND NOT kLsrErr\<rparr> else u1) in
      UpdateIrq (RefreshLsr (u2\<lparr>rx_trigger := kTriggerLevels (drop_bit 6 val AND 3)\<rparr>)))"

definition write_lcr :: "Uart16550 \<Rightarrow> u8 \<Rightarrow> Uart16550 \<times> line_call list" where
  "write_lcr u val =
     UpdateIrq (RefreshLsr (u\<lparr>lcr := val, lsr := (if val AND 0x40 \<noteq> 0 then lsr u OR 0x10 else lsr u AND NOT 0x10)\<rparr>))"

definition Uart16550Write :: "int \<Rightarrow> Uart16550 \<Rightarrow> u64 \<Rightarrow> u8 \<Rightarrow> Uart16550 \<times> line_call list \<times> u8 list" where
  "Uart16550Write now u off val =
     (if off = 0 then write_thr now u val
      else if off = 1 then
        (if lcr u AND 0x80 \<noteq> 0
         then (u\<lparr>divider := (divider u AND 0x00ff) OR push_bit 8 (ucast val)\<rparr>, [], [])
         else let (u1, c) = UpdateIrq (u\<lparr>ier := val AND 0x0f\<rparr>) in (u1, c, []))
      else if off = 2 then (let (u1, c) = write_fcr u val in (u1, c, []))
      else if off = 3 then (let (u1, c) = write_lcr u val in (u1, c, []))
      else if off = 4 then (let (u1, c) = UpdateMsr (u\<lparr>mcr := val\<rparr>) in (u1, c, []))
      else if off = 5 \<or> off = 6 then (u, [], [])
      else (u\<lparr>scr := val\<rparr>, [], []))"

definition Uart16550Receive :: "int \<Rightarrow> Uart16550 \<Rightarrow> u8 \<Rightarrow> Uart16550 \<times> line_call list" where
  "Uart16550Receive now u ch = (if mcr u AND 0x10 \<noteq> 0 then (u, []) else PushRx now u ch)"

definition Uart16550Poll :: "int \<Rightarrow> Uart16550 \<Rightarrow> Uart16550 \<times> line_call list" where
  "Uart16550Poll now u =
     (if \<not> rx_timeout_armed u \<or> now < rx_timeout_at u then (u, [])
      else let u1 = u\<lparr>rx_timeout_armed := False\<rparr> in
           if 0 < rx_count u1 then UpdateIrq (u1\<lparr>rx_timeout_ip := True\<rparr>) else (u1, []))"

definition UartRead :: "Uart16550 \<Rightarrow> u64 \<Rightarrow> u64 \<times> Uart16550 \<times> line_call list" where
  "UartRead u addr = (let (v, r) = Uart16550Read u (addr AND 7) in (ucast v, r))"

definition UartWrite :: "int \<Rightarrow> Uart16550 \<Rightarrow> u64 \<Rightarrow> u64 \<Rightarrow> Uart16550 \<times> line_call list \<times> u8 list" where
  "UartWrite now u addr val = Uart16550Write now u (addr AND 7) (ucast val)"

definition Uart16550SetIrqSink :: "Uart16550 \<Rightarrow> Uart16550" where
  "Uart16550SetIrqSink u = u\<lparr>ua_sink := True\<rparr>"

section \<open>The invariant of the port\<close>

definition rx_ok :: "Uart16550 \<Rightarrow> bool" where
  "rx_ok u \<longleftrightarrow> rx_count u \<le> 16 \<and> rx_tail u < 16 \<and> rx_head u = (rx_tail u + rx_count u) mod 16"

definition lsr_ok :: "Uart16550 \<Rightarrow> bool" where
  "lsr_ok u \<longleftrightarrow> bit (lsr u) 0 = (0 < rx_count u) \<and> bit (lsr u) 5 \<and> bit (lsr u) 6"

text \<open>The identification register and the line follow the highest-priority enabled source.\<close>

definition irq_ok :: "Uart16550 \<Rightarrow> bool \<Rightarrow> bool" where
  "irq_ok u l \<longleftrightarrow> iir u = uart_source u OR (if fcr u AND 0x01 \<noteq> 0 then 0xc0 else 0) \<and>
     l = (uart_source u \<noteq> 0x01) \<and> ua_sink u"

definition uart_ok :: "Uart16550 \<Rightarrow> bool \<Rightarrow> bool" where
  "uart_ok u l \<longleftrightarrow> rx_ok u \<and> lsr_ok u \<and> irq_ok u l"

lemma uart_source_iir [simp]: "uart_source (u\<lparr>iir := x\<rparr>) = uart_source u"
  by (simp add: uart_source_def)

lemma ok_UpdateIrq:
  "rx_ok u \<Longrightarrow> lsr_ok u \<Longrightarrow> ua_sink u \<Longrightarrow> UpdateIrq u = (u', cs) \<Longrightarrow> uart_ok u' (line_after l 0 cs)"
  by (auto simp: UpdateIrq_def uart_ok_def irq_ok_def rx_ok_def lsr_ok_def drive_def)

lemma lsr_ok_refresh: "lsr_ok (RefreshLsr u)"
  by (simp add: lsr_ok_def RefreshLsr_def bit_or_iff bit_and_iff)

lemma rx_ok_refresh [simp]: "rx_ok (RefreshLsr u) = rx_ok u" "ua_sink (RefreshLsr u) = ua_sink u"
  by (simp_all add: rx_ok_def RefreshLsr_def)

lemma ok_parts: "uart_ok u l \<Longrightarrow> rx_ok u \<and> lsr_ok u \<and> ua_sink u"
  by (simp add: uart_ok_def irq_ok_def)

lemma ok_refreshed:
  "rx_ok u \<Longrightarrow> ua_sink u \<Longrightarrow> UpdateIrq (RefreshLsr u) = (u', cs) \<Longrightarrow> uart_ok u' (line_after l 0 cs)"
  by (rule ok_UpdateIrq) (simp_all add: lsr_ok_refresh)

lemma ok_UpdateMsr: "rx_ok u \<Longrightarrow> lsr_ok u \<Longrightarrow> ua_sink u \<Longrightarrow> UpdateMsr u = (u', cs) \<Longrightarrow> uart_ok u' (line_after l 0 cs)"
  unfolding UpdateMsr_def Let_def by (erule ok_UpdateIrq [rotated 3]) (simp_all add: rx_ok_def lsr_ok_def)

lemma rx_ok_push:
  "rx_ok u \<Longrightarrow> rx_count u < 16 \<Longrightarrow> rx_ok (u\<lparr>rx_fifo := f, rx_head := (rx_head u + 1) mod 16, rx_count := rx_count u + 1\<rparr>)"
  by (simp add: rx_ok_def mod_simps)

lemma ok_PushRx: "rx_ok u \<Longrightarrow> ua_sink u \<Longrightarrow> PushRx now u ch = (u', cs) \<Longrightarrow> uart_ok u' (line_after l 0 cs)"
proof -
  assume a: "rx_ok u" "ua_sink u" "PushRx now u ch = (u', cs)"
  define u1 where "u1 = (if 16 \<le> rx_count u then u\<lparr>lsr := lsr u OR 0x02\<rparr>
     else u\<lparr>rx_fifo := (rx_fifo u)(rx_head u := ch), rx_head := (rx_head u + 1) mod 16, rx_count := rx_count u + 1\<rparr>)"
  have 1: "rx_ok u1" "ua_sink u1" using a rx_ok_push [OF a(1)] by (auto simp: u1_def rx_ok_def)
  define u2 where "u2 = RefreshLsr u1"
  have 2: "rx_ok u2" "ua_sink u2" "lsr_ok u2" using 1 by (simp_all add: u2_def lsr_ok_refresh)
  define u3 where "u3 = (if fcr u2 AND 0x01 \<noteq> 0
     then u2\<lparr>rx_timeout_armed := True, rx_timeout_at := now + CharTimeUs u2 * 4\<rparr> else u2)"
  have "rx_ok u3" "ua_sink u3" "lsr_ok u3" using 2 by (simp_all add: u3_def rx_ok_def lsr_ok_def)
  moreover have "UpdateIrq u3 = (u', cs)" using a(3) unfolding PushRx_def Let_def u1_def u2_def u3_def .
  ultimately show ?thesis by (blast intro: ok_UpdateIrq)
qed

lemma ok_read_rbr: "uart_ok u l \<Longrightarrow> read_rbr u = (v, u', cs) \<Longrightarrow> uart_ok u' (line_after l 0 cs)"
proof -
  assume a: "uart_ok u l" "read_rbr u = (v, u', cs)"
  define u1 where "u1 = (if 0 < rx_count u then u\<lparr>rx_tail := (rx_tail u + 1) mod 16, rx_count := rx_count u - 1\<rparr> else u)
     \<lparr>rx_timeout_ip := False, rx_timeout_armed := False\<rparr>"
  have "rx_ok u1" using ok_parts [OF a(1)] ring_advance [of "rx_count u" "rx_tail u" 16] by (auto simp: u1_def rx_ok_def)
  moreover have "ua_sink u1" using ok_parts [OF a(1)] by (simp add: u1_def)
  moreover have "UpdateIrq (RefreshLsr u1) = (u', cs)"
    using a(2) by (auto simp: read_rbr_def u1_def Let_def split: if_splits prod.splits)
  ultimately show ?thesis by (rule ok_refreshed)
qed

lemma ok_Read: "uart_ok u l \<Longrightarrow> Uart16550Read u off = (v, u', cs) \<Longrightarrow> uart_ok u' (line_after l 0 cs)"
proof -
  assume a: "uart_ok u l" "Uart16550Read u off = (v, u', cs)"
  note p = ok_parts [OF a(1)]
  have 2: "UpdateIrq (u\<lparr>thr_ip := False\<rparr>) = (u', cs) \<Longrightarrow> ?thesis"
    by (erule ok_UpdateIrq [rotated 3]) (use p in \<open>simp_all add: rx_ok_def lsr_ok_def\<close>)
  have 5: "UpdateIrq (u\<lparr>lsr := lsr u AND NOT kLsrErr\<rparr>) = (u', cs) \<Longrightarrow> ?thesis"
    by (erule ok_UpdateIrq [rotated 3]) (use p in \<open>simp_all add: rx_ok_def lsr_ok_def bit_and_iff bit_not_iff\<close>)
  have 6: "UpdateIrq (u\<lparr>msr := msr u AND NOT 0x0f\<rparr>) = (u', cs) \<Longrightarrow> ?thesis"
    by (erule ok_UpdateIrq [rotated 3]) (use p in \<open>simp_all add: rx_ok_def lsr_ok_def\<close>)
  have 0: "read_rbr u = (v, u', cs) \<Longrightarrow> ?thesis" by (erule ok_read_rbr [OF a(1)])
  show ?thesis using a 0 2 5 6 by (auto simp: Uart16550Read_def split: if_split_asm)
qed

lemma ok_write_thr:
  assumes "uart_ok u l" "write_thr now u val = (u', cs, out)"
  shows "uart_ok u' (line_after l 0 cs)"
proof -
  note p = ok_parts [OF assms(1)]
  obtain u1 c1 out1 where 1: "(if lcr u AND 0x80 \<noteq> 0 then (u\<lparr>divider := (divider u AND 0xff00) OR ucast val\<rparr>, [], [])
       else if mcr u AND 0x10 \<noteq> 0 then (let (u1, c1) = PushRx now u val in (u1, c1, []))
       else (u, [], [val])) = (u1, c1, out1)" by (metis prod_cases3)
  have q: "rx_ok u1 \<and> lsr_ok u1 \<and> ua_sink u1"
    using 1 p by (auto simp: rx_ok_def lsr_ok_def split: if_splits prod.splits
      dest: ok_PushRx [OF p [THEN conjunct1], THEN ok_parts])
  obtain u2 c2 where 2: "UpdateIrq (u1\<lparr>thr_ip := True\<rparr>) = (u2, c2)" by fastforce
  have "uart_ok u2 (line_after (line_after l 0 c1) 0 c2)"
    by (rule ok_UpdateIrq [OF _ _ _ 2]) (use q in \<open>simp_all add: rx_ok_def lsr_ok_def\<close>)
  moreover have "u' = u2" "cs = c1 @ c2" using assms(2) unfolding write_thr_def Let_def 1 [unfolded Let_def] by (simp_all add: 2)
  ultimately show ?thesis by simp
qed

lemma ok_write_fcr: "uart_ok u l \<Longrightarrow> write_fcr u val = (u', cs) \<Longrightarrow> uart_ok u' (line_after l 0 cs)"
  unfolding write_fcr_def Let_def
  by (drule ok_parts, erule ok_refreshed [rotated 2]) (auto simp: rx_ok_def)

lemma ok_write_lcr: "uart_ok u l \<Longrightarrow> write_lcr u val = (u', cs) \<Longrightarrow> uart_ok u' (line_after l 0 cs)"
  unfolding write_lcr_def
  by (drule ok_parts, erule ok_refreshed [rotated 2]) (auto simp: rx_ok_def)

lemma ok_Write:
  assumes "uart_ok u l" "Uart16550Write now u off val = (u', cs, out)"
  shows "uart_ok u' (line_after l 0 cs)"
proof -
  note p = ok_parts [OF assms(1)]
  have 1: "UpdateIrq (u\<lparr>ier := val AND 0x0f\<rparr>) = (u', cs) \<Longrightarrow> ?thesis"
    by (erule ok_UpdateIrq [rotated 3]) (use p in \<open>simp_all add: rx_ok_def lsr_ok_def\<close>)
  have 4: "UpdateMsr (u\<lparr>mcr := val\<rparr>) = (u', cs) \<Longrightarrow> ?thesis"
    by (erule ok_UpdateMsr [rotated 3]) (use p in \<open>simp_all add: rx_ok_def lsr_ok_def\<close>)
  have d: "uart_ok (u\<lparr>divider := d\<rparr>) l" "uart_ok (u\<lparr>scr := d'\<rparr>) l" for d d'
    using assms(1) by (simp_all add: uart_ok_def rx_ok_def lsr_ok_def irq_ok_def uart_source_def)
  show ?thesis using assms(2) 1 4 assms(1) d ok_write_thr [OF assms(1), of now val u' cs out]
      ok_write_fcr [OF assms(1), of val u' cs] ok_write_lcr [OF assms(1), of val u' cs]
    by (auto simp: Uart16550Write_def split: if_split_asm prod.splits)
qed

lemma ok_Receive: "uart_ok u l \<Longrightarrow> Uart16550Receive now u ch = (u', cs) \<Longrightarrow> uart_ok u' (line_after l 0 cs)"
  by (frule ok_parts) (auto simp: Uart16550Receive_def intro: ok_PushRx split: if_splits)

lemma ok_Poll: "uart_ok u l \<Longrightarrow> Uart16550Poll now u = (u', cs) \<Longrightarrow> uart_ok u' (line_after l 0 cs)"
proof -
  assume a: "uart_ok u l" "Uart16550Poll now u = (u', cs)"
  note p = ok_parts [OF a(1)]
  have "UpdateIrq (u\<lparr>rx_timeout_armed := False, rx_timeout_ip := True\<rparr>) = (u', cs) \<Longrightarrow> ?thesis"
    by (erule ok_UpdateIrq [rotated 3]) (use p in \<open>simp_all add: rx_ok_def lsr_ok_def\<close>)
  moreover have "uart_ok (u\<lparr>rx_timeout_armed := False\<rparr>) l"
    using a(1) by (simp add: uart_ok_def rx_ok_def lsr_ok_def irq_ok_def uart_source_def)
  ultimately show ?thesis using a by (auto simp: Uart16550Poll_def Let_def split: if_splits)
qed

section \<open>Runs of the port\<close>

inductive uart_step :: "Uart16550 \<times> bool \<Rightarrow> Uart16550 \<times> bool \<Rightarrow> bool" where
  read: "UartRead u a = (v, u', cs) \<Longrightarrow> uart_step (u, l) (u', line_after l 0 cs)"
| store: "UartWrite now u a v = (u', cs, out) \<Longrightarrow> uart_step (u, l) (u', line_after l 0 cs)"
| receive: "Uart16550Receive now u ch = (u', cs) \<Longrightarrow> uart_step (u, l) (u', line_after l 0 cs)"
| poll: "Uart16550Poll now u = (u', cs) \<Longrightarrow> uart_step (u, l) (u', line_after l 0 cs)"

inductive_cases uart_stepE: "uart_step x y"

lemma uart_step_ok: "uart_step x y \<Longrightarrow> uart_ok (fst x) (snd x) \<Longrightarrow> uart_ok (fst y) (snd y)"
  by (erule uart_stepE)
    (auto simp: UartRead_def UartWrite_def split: prod.splits dest: ok_Read ok_Write ok_Receive ok_Poll)

lemma uart_init_ok: "ua_sink u \<Longrightarrow> Uart16550Init u = (u', cs) \<Longrightarrow> uart_ok u' (line_after l 0 cs)"
proof -
  assume a: "ua_sink u" "Uart16550Init u = (u', cs)"
  define u1 where "u1 = \<lparr>ier = 0, iir = 0, lcr = 0, mcr = 0, msr = 0, scr = 0, fcr = 0, lsr = 0, divider = 0,
     rx_fifo = (\<lambda>_. 0), rx_head = 0, rx_tail = 0, rx_count = 0, rx_trigger = kTriggerLevels 0, rx_timeout_armed = False,
     rx_timeout_at = 0, rx_timeout_ip = False, thr_ip = True, ua_sink = ua_sink u\<rparr>"
  obtain u2 c1 where 1: "UpdateMsr (RefreshLsr u1) = (u2, c1)" by fastforce
  obtain u3 c2 where 2: "UpdateIrq u2 = (u3, c2)" by fastforce
  have "rx_ok u1" "ua_sink u1" using a(1) by (simp_all add: u1_def rx_ok_def)
  then have "uart_ok u2 (line_after l 0 c1)" by (intro ok_UpdateMsr [OF _ _ _ 1]) (simp_all add: lsr_ok_refresh)
  then have "uart_ok u3 (line_after (line_after l 0 c1) 0 c2)" using ok_UpdateIrq [OF _ _ _ 2] ok_parts by blast
  moreover have "u' = u3" "cs = c1 @ c2" using a(2) unfolding Uart16550Init_def Let_def u1_def [symmetric] 1 by (simp_all add: 2)
  ultimately show ?thesis by simp
qed

text \<open>
  C25. In every run of the serial port, register accesses, received bytes and timer polls in any order, the
  interrupt line is high exactly while an enabled source is pending, the identification register names the
  source of the highest priority, the line status register says whether a byte waits, and the receiver
  indices stay inside the FIFO.
\<close>

theorem uart_run:
  assumes "uart_step\<^sup>*\<^sup>* (u, l) (u', l')" "uart_ok u l"
  shows "uart_ok u' l'"
proof -
  have "uart_ok (fst y) (snd y)" if "uart_step\<^sup>*\<^sup>* (u, l) y" for y
    using that by (induction rule: rtranclp_induct) (use assms(2) uart_step_ok in auto)
  then show ?thesis using assms(1) by fastforce
qed

section \<open>The receiver as a queue\<close>

definition rx_content :: "Uart16550 \<Rightarrow> u8 list" where
  "rx_content u = ring 16 (rx_fifo u) (rx_tail u) (rx_count u)"

text \<open>The receiver of a port that is not in loopback and shows the data register at offset 0.\<close>

definition rx_open :: "Uart16550 \<Rightarrow> bool" where
  "rx_open u \<longleftrightarrow> rx_ok u \<and> lcr u AND 0x80 = 0 \<and> mcr u AND 0x10 = 0"

definition uart_receive :: "int \<Rightarrow> u8 \<Rightarrow> Uart16550 \<Rightarrow> Uart16550" where
  "uart_receive now b u = fst (Uart16550Receive now u b)"

definition uart_take :: "Uart16550 \<Rightarrow> u8 \<times> Uart16550" where
  "uart_take u = (let (v, u', cs) = Uart16550Read u 0 in (v, u'))"

lemma receive_fields:
  assumes "mcr u AND 0x10 = 0"
  shows "lcr (uart_receive now b u) = lcr u" "mcr (uart_receive now b u) = mcr u"
    "rx_tail (uart_receive now b u) = rx_tail u"
    "rx_count (uart_receive now b u) = (if 16 \<le> rx_count u then rx_count u else rx_count u + 1)"
    "rx_head (uart_receive now b u) = (if 16 \<le> rx_count u then rx_head u else (rx_head u + 1) mod 16)"
    "rx_fifo (uart_receive now b u) = (if 16 \<le> rx_count u then rx_fifo u else (rx_fifo u)(rx_head u := b))"
  using assms by (simp_all add: uart_receive_def Uart16550Receive_def PushRx_def UpdateIrq_def RefreshLsr_def Let_def)

lemma take_fields:
  assumes "lcr u AND 0x80 = 0" "0 < rx_count u"
  shows "fst (uart_take u) = rx_fifo u (rx_tail u)" "lcr (snd (uart_take u)) = lcr u" "mcr (snd (uart_take u)) = mcr u"
    "rx_tail (snd (uart_take u)) = (rx_tail u + 1) mod 16" "rx_count (snd (uart_take u)) = rx_count u - 1"
    "rx_head (snd (uart_take u)) = rx_head u" "rx_fifo (snd (uart_take u)) = rx_fifo u"
  using assms by (simp_all add: uart_take_def Uart16550Read_def read_rbr_def UpdateIrq_def RefreshLsr_def Let_def)

interpretation rx: byte_fifo rx_open rx_content 16 "uart_receive now" uart_take for now
proof unfold_locales
  fix u b
  assume o: "rx_open u"
  then have r: "rx_ok u" "lcr u AND 0x80 = 0" "mcr u AND 0x10 = 0" by (simp_all add: rx_open_def)
  note f = receive_fields [OF r(3), of now b]
  show "rx_open (uart_receive now b u)" using r by (auto simp: rx_open_def rx_ok_def f mod_simps)
  show "rx_content (uart_receive now b u) = (if length (rx_content u) < 16 then rx_content u @ [b] else rx_content u)"
    using r(1) ring_push [of "rx_count u" 16 "rx_tail u" "rx_fifo u" b] by (auto simp: rx_content_def f rx_ok_def)
  show "length (rx_content u) \<le> 16" using r(1) by (simp add: rx_content_def rx_ok_def)
  assume "rx_content u \<noteq> []"
  then have c: "0 < rx_count u" by (simp add: rx_content_def)
  note t = take_fields [OF r(2) c]
  show "rx_open (snd (uart_take u))" using r c ring_advance [OF c, of "rx_tail u" 16] by (auto simp: rx_open_def rx_ok_def t)
  show "rx_content u = fst (uart_take u) # rx_content (snd (uart_take u))"
    using r(1) ring_pop [OF c, of "rx_tail u" 16 "rx_fifo u"] by (simp add: rx_content_def t rx_ok_def)
qed

text \<open>
  C26. The first sixteen bytes received into an empty FIFO are read back in order, and what arrives while the
  FIFO is full is lost.
\<close>

theorem uart_fifo:
  assumes "rx_open u" "rx_count u = 0"
  shows "fst (pop_n uart_take (min 16 (length bs)) (push_all (uart_receive now) bs u)) = take 16 bs"
  by (rule rx.fifo_order) (use assms in \<open>simp_all add: rx_content_def\<close>)

definition uart0 :: Uart16550 where
  "uart0 = fst (Uart16550Init \<lparr>ier = 0, iir = 0, lcr = 0, mcr = 0, msr = 0, scr = 0, fcr = 0, lsr = 0, divider = 0,
     rx_fifo = (\<lambda>_. 0), rx_head = 0, rx_tail = 0, rx_count = 0, rx_trigger = 0, rx_timeout_armed = False,
     rx_timeout_at = 0, rx_timeout_ip = False, thr_ip = False, ua_sink = True\<rparr>)"

lemma uart0_value: "uart0 = \<lparr>ier = 0, iir = 1, lcr = 0, mcr = 0, msr = 0, scr = 0, fcr = 0, lsr = 0x60, divider = 0,
     rx_fifo = (\<lambda>_. 0), rx_head = 0, rx_tail = 0, rx_count = 0, rx_trigger = 1, rx_timeout_armed = False,
     rx_timeout_at = 0, rx_timeout_ip = False, thr_ip = True, ua_sink = True\<rparr>"
  by (simp add: uart0_def Uart16550Init_def UpdateMsr_def UpdateIrq_def RefreshLsr_def uart_source_def kTriggerLevels_def)

theorem uart_fifo_witness: "fst (pop_n uart_take 3 (push_all (uart_receive 5) [0x41, 0x42, 0x43] uart0)) = [0x41, 0x42, 0x43]"
proof -
  have "rx_open uart0" "rx_count uart0 = 0" by (simp_all add: uart0_value rx_open_def rx_ok_def)
  from uart_fifo [OF this, of "[0x41, 0x42, 0x43]" 5] show ?thesis by (simp add: numeral_3_eq_3 del: pop_n.simps)
qed

theorem uart_run_witness:
  "\<exists>u1. uart_step (uart0, False) (u1, True) \<and> uart_ok u1 True \<and> iir u1 = 0x02"
proof -
  define u1 where "u1 = fst (UartWrite 0 uart0 1 0x02)"
  have w: "UartWrite 0 uart0 1 0x02 = (u1, [(0, True)], [])"
    unfolding u1_def by (simp add: uart0_value UartWrite_def Uart16550Write_def UpdateIrq_def uart_source_def drive_def)
  have s: "uart_step (uart0, False) (u1, True)" using uart_step.store [OF w, of False] by simp
  have "uart_ok uart0 False"
    by (simp add: uart0_value uart_ok_def rx_ok_def lsr_ok_def irq_ok_def uart_source_def)
  then have "uart_ok u1 True" by (rule uart_run [OF r_into_rtranclp [where r = uart_step, OF s]])
  moreover have "iir u1 = 0x02"
    unfolding u1_def by (simp add: uart0_value UartWrite_def Uart16550Write_def UpdateIrq_def uart_source_def)
  ultimately show ?thesis using s by blast
qed

text \<open>
  With the FIFO and the receive interrupt enabled, a byte that arrives is reported: if the receiver stays
  below its trigger level, a poll four character times later raises the line.
\<close>

theorem uart_timeout_fires:
  assumes "rx_open u" "fcr u AND 0x01 \<noteq> 0" "ier u AND 0x01 \<noteq> 0" "ua_sink u"
    "Uart16550Receive now u b = (u1, cs)" "now + CharTimeUs u * 4 \<le> t" "Uart16550Poll t u1 = (u2, cs')"
  shows "cs' = [(0, True)] \<and> uart_source u2 \<noteq> 0x01"
proof -
  have u1: "u1 = uart_receive now b u" using assms(5) by (simp add: uart_receive_def)
  have f: "fcr u1 = fcr u" "ier u1 = ier u" "ua_sink u1 = ua_sink u" "rx_timeout_armed u1" "rx_timeout_at u1 = now + CharTimeUs u * 4"
    "0 < rx_count u1"
    using assms(1,2) unfolding u1
    by (simp_all add: rx_open_def uart_receive_def Uart16550Receive_def PushRx_def UpdateIrq_def RefreshLsr_def CharTimeUs_def Let_def)
  define u3 where "u3 = u1\<lparr>rx_timeout_armed := False, rx_timeout_ip := True\<rparr>"
  have p: "(u2, cs') = UpdateIrq u3"
    using assms(6,7) f by (simp add: Uart16550Poll_def u3_def Let_def)
  have s: "uart_source u3 \<noteq> 0x01" using assms(3) f by (simp add: uart_source_def u3_def)
  then show ?thesis using p assms(4) f by (auto simp: UpdateIrq_def drive_def u3_def)
qed

definition uart1 :: Uart16550 where
  "uart1 = uart0\<lparr>ier := 0x01, iir := 0xc1, fcr := 0x81, rx_trigger := 8\<rparr>"

theorem uart_timeout_fires_witness:
  "\<exists>u1 u2. Uart16550Receive 100 uart1 0x41 = (u1, [(0, False)]) \<and> Uart16550Poll 444 u1 = (u2, [(0, True)]) \<and>
     uart_source u2 \<noteq> 0x01"
proof -
  obtain u1 cs where 1: "Uart16550Receive 100 uart1 0x41 = (u1, cs)" by fastforce
  obtain u2 cs' where 2: "Uart16550Poll 444 u1 = (u2, cs')" by fastforce
  have "cs = [(0, False)]"
    using 1 by (auto simp: uart1_def uart0_value Uart16550Receive_def PushRx_def RefreshLsr_def UpdateIrq_def uart_source_def drive_def)
  moreover have "cs' = [(0, True)] \<and> uart_source u2 \<noteq> 0x01"
    by (rule uart_timeout_fires [OF _ _ _ _ 1 _ 2])
      (simp_all add: uart1_def uart0_value rx_open_def rx_ok_def CharTimeUs_def)
  ultimately show ?thesis using 1 2 by blast
qed


end
