(* ===== verification/Finisher.thy ===== *)
theory Finisher
  imports Device
begin

text \<open>
  The two devices through which a test program ends the emulation: the SiFive
  test finisher (src/src/device/misc/sifive_test.c) and the host-target
  interface (src/src/device/misc/htif.c).  A write returns the effects on the
  processor and the bytes written to the host console.
\<close>

unbundle bit_operations_syntax

section \<open>Test finisher\<close>

definition TestRead :: "u64 \<Rightarrow> nat \<Rightarrow> u64" where
  "TestRead addr sz = 0"

definition TestWrite :: "u64 \<Rightarrow> nat \<Rightarrow> u64 \<Rightarrow> cpu_event list" where
  "TestWrite addr sz val =
     (let code = (ucast val :: u32) AND 0xffff in
      if code = 0x5555 then [Halt 0]
      else if code = 0x3333 then [Halt (uint (drop_bit 16 val AND 0xffff))]
      else [])"

section \<open>Host-target interface\<close>

record HtifDevice =
  tohost :: u64
  fromhost :: u64
  tohost_addr :: u64
  fromhost_addr :: u64

definition IsTohost :: "HtifDevice \<Rightarrow> u64 \<Rightarrow> bool" where
  "IsTohost h addr \<longleftrightarrow> addr - tohost_addr h < 8"

text \<open>
  \<open>memcpy\<close> between \<open>sz\<close> bytes at offset \<open>o\<close> of an 8-byte object and an
  integer.  The copy leaves the object when \<open>o + sz\<close> exceeds 8.
\<close>

definition bytes_get :: "u64 \<Rightarrow> nat \<Rightarrow> nat \<Rightarrow> u64 option" where
  "bytes_get v off sz = (if off + sz \<le> 8 then Some (take_bit (8 * sz) (drop_bit (8 * off) v)) else None)"

definition bytes_put :: "u64 \<Rightarrow> nat \<Rightarrow> nat \<Rightarrow> u64 \<Rightarrow> u64 option" where
  "bytes_put v off sz val =
     (if off + sz \<le> 8
      then Some ((v AND NOT (push_bit (8 * off) (mask (8 * sz)))) OR push_bit (8 * off) (take_bit (8 * sz) val))
      else None)"

definition HtifRead :: "HtifDevice \<Rightarrow> u64 \<Rightarrow> nat \<Rightarrow> u64 option" where
  "HtifRead h addr sz = bytes_get (if IsTohost h addr then tohost h else fromhost h) (unat (addr AND 7)) sz"

definition HtifProcess :: "u64 \<Rightarrow> cpu_event list \<times> u8 list" where
  "HtifProcess val =
     (let dev = ucast (drop_bit 56 val) :: u32; cmd = ucast (drop_bit 48 val AND 0xff) :: u32;
          payload = val AND 0xffffffffffff in
      if dev = 0 \<and> cmd = 0 then
        (if payload AND 1 \<noteq> 0 then ([Halt (sint (ucast (drop_bit 1 payload) :: u32))], []) else ([Halt 1], []))
      else if dev = 1 \<and> cmd = 1 then ([], [ucast (payload AND 0xff)])
      else ([Halt 1], []))"

text \<open>The flag \<open>stopped\<close> says whether the processor was halted before the write.\<close>

definition HtifWrite :: "bool \<Rightarrow> HtifDevice \<Rightarrow> u64 \<Rightarrow> nat \<Rightarrow> u64 \<Rightarrow> (HtifDevice \<times> cpu_event list \<times> u8 list) option" where
  "HtifWrite stopped h addr sz val =
     (if \<not> IsTohost h addr then
        map_option (\<lambda>v. (h\<lparr>fromhost := v\<rparr>, [], [])) (bytes_put (fromhost h) (unat (addr AND 7)) sz val)
      else map_option (\<lambda>v.
        if v = 0 then (h\<lparr>tohost := v\<rparr>, [], [])
        else let (es, out) = HtifProcess v; h1 = h\<lparr>tohost := 0\<rparr> in
             (if stopped \<or> es \<noteq> [] then h1
              else h1\<lparr>fromhost := push_bit 56 (drop_bit 56 v) OR push_bit 48 (drop_bit 48 v AND 0xff)\<rparr>, es, out))
        (bytes_put (tohost h) (unat (addr AND 7)) sz val))"

definition HtifRegister :: "Bus \<Rightarrow> HtifDevice \<Rightarrow> u64 \<Rightarrow> u64 \<Rightarrow> nat \<Rightarrow> nat \<Rightarrow> (Bus \<times> HtifDevice) option" where
  "HtifRegister b h t f ops dev =
     Option.bind (BusAddRegion b t 8 ops dev) (\<lambda>b1. with_window b1 f 8 ops dev (h\<lparr>tohost_addr := t, fromhost_addr := f\<rparr>))"

definition SifiveTestRegister :: "Bus \<Rightarrow> u64 \<Rightarrow> u64 \<Rightarrow> nat \<Rightarrow> nat \<Rightarrow> Bus option" where
  "SifiveTestRegister b base sz ops dev = BusAddRegion b base sz ops dev"

section \<open>Commands\<close>

lemma bytes_put_full: "bytes_put v 0 8 val = Some val"
proof -
  have "mask 64 = (- 1 :: u64)" by (simp add: mask_eq_exp_minus_1)
  then show ?thesis by (simp add: bytes_put_def take_bit_word_eq_self)
qed

lemma exit_command:
  assumes "code < 2 ^ 31"
  shows "HtifProcess (2 * of_nat code + 1) = ([Halt (int code)], [])" "2 * of_nat code + 1 \<noteq> (0 :: u64)"
proof -
  define v :: u64 where "v = 2 * of_nat code + 1"
  have u: "unat v = 2 * code + 1" using assms by (simp add: v_def unat_word_ariths unat_of_nat)
  show "2 * of_nat code + 1 \<noteq> (0 :: u64)" using u unfolding v_def [symmetric] by auto
  have d: "drop_bit 56 v = 0" "drop_bit 48 v = 0" using u assms
    by (simp_all add: unat_eq_0 [symmetric] unsigned_drop_bit_eq drop_bit_eq_div unat_div_distrib)
  have p: "v AND 0xffffffffffff = v"
  proof -
    have "v AND 0xffffffffffff = take_bit 48 v" by (simp add: take_bit_eq_mask mask_eq_exp_minus_1)
    moreover have "unat (take_bit 48 v) = unat v" using u assms by (simp add: take_bit_eq_mod unat_mod_distrib)
    ultimately show ?thesis by (simp add: word_unat_eq_iff)
  qed
  have "odd v" by (simp add: v_def)
  then have o: "v AND 1 \<noteq> 0" by (simp add: and_one_eq odd_iff_mod_2_eq_one)
  have "drop_bit 1 v = of_nat code"
    by (rule unsigned_word_eqI [where 'a = nat])
      (use u assms in \<open>simp add: drop_bit_eq_div unat_div_distrib unat_of_nat\<close>)
  then have "sint (ucast (drop_bit 1 v) :: u32) = int code"
    using assms by (simp add: unsigned_of_nat signed_of_nat signed_take_bit_int_eq_self take_bit_nat_eq_self)
  then show "HtifProcess (2 * of_nat code + 1) = ([Halt (int code)], [])"
    using d p o unfolding v_def [symmetric] by (simp add: HtifProcess_def)
qed

lemma console_command:
  fixes b :: u8
  defines "v \<equiv> 0x0101000000000000 OR (ucast b :: u64)"
  shows "HtifProcess v = ([], [b])" "v \<noteq> 0" "push_bit 56 (drop_bit 56 v) OR push_bit 48 (drop_bit 48 v AND 0xff) = 0x0101000000000000"
proof -
  have z: "drop_bit n (ucast b :: u64) = 0" if "8 \<le> n" for n
    using that by (auto simp: u64_eq_iff bit_drop_bit_eq bit_ucast_iff dest: bit_imp_le_length)
  have d: "drop_bit 56 v = 1" "drop_bit 48 v = 0x101" by (simp_all add: v_def drop_bit_or z)
  have "ucast ((v AND 0xffffffffffff) AND 0xff) = b"
  proof -
    have "(v AND 0xffffffffffff) AND 0xff = take_bit 8 v" by (simp add: take_bit_eq_mask mask_eq_exp_minus_1 and.assoc)
    also have "\<dots> = take_bit 8 (ucast b)" by (simp add: v_def)
    finally show ?thesis by (simp add: u8_eq_iff bit_ucast_iff bit_take_bit_iff)
  qed
  then show "HtifProcess v = ([], [b])" by (simp add: HtifProcess_def d)
  show "v \<noteq> 0" using d(1) by auto
  show "push_bit 56 (drop_bit 56 v) OR push_bit 48 (drop_bit 48 v AND 0xff) = 0x0101000000000000" by (simp add: d)
qed

text \<open>
  On an interface whose mailbox is aligned, a 64-bit store of an exit command halts the processor with
  the exit code, and one of a console command writes its byte to the host, leaves the processor running,
  empties the mailbox and acknowledges with the device and command fields.
\<close>

theorem htif_commands:
  assumes "tohost_addr h AND 7 = 0"
  shows "(\<forall>code < 2 ^ 31. HtifWrite False h (tohost_addr h) 8 (2 * of_nat code + 1) =
       Some (h\<lparr>tohost := 0\<rparr>, [Halt (int code)], [])) \<and>
    (\<forall>b :: u8. HtifWrite False h (tohost_addr h) 8 (0x0101000000000000 OR ucast b) =
       Some (h\<lparr>tohost := 0, fromhost := 0x0101000000000000\<rparr>, [], [b]))"
proof (intro conjI allI impI)
  have t: "IsTohost h (tohost_addr h)" by (simp add: IsTohost_def)
  note w = HtifWrite_def t assms bytes_put_full
  show "HtifWrite False h (tohost_addr h) 8 (2 * of_nat code + 1) = Some (h\<lparr>tohost := 0\<rparr>, [Halt (int code)], [])"
    if "code < 2 ^ 31" for code using exit_command [OF that] by (simp add: w)
  show "HtifWrite False h (tohost_addr h) 8 (0x0101000000000000 OR ucast b) =
       Some (h\<lparr>tohost := 0, fromhost := 0x0101000000000000\<rparr>, [], [b])" for b :: u8
    using console_command [of b] by (simp add: w)
qed

theorem htif_commands_witness:
  "HtifWrite False \<lparr>tohost = 0, fromhost = 0, tohost_addr = 0x80001000, fromhost_addr = 0x80001040\<rparr> 0x80001000 8 0x0101000000000041 =
     Some (\<lparr>tohost = 0, fromhost = 0x0101000000000000, tohost_addr = 0x80001000, fromhost_addr = 0x80001040\<rparr>, [], [0x41])"
  using htif_commands [of "\<lparr>tohost = 0, fromhost = 0, tohost_addr = 0x80001000, fromhost_addr = 0x80001040\<rparr>",
    THEN conjunct2, rule_format, of "0x41"] by simp

end
