(* ===== verification/Ram.thy ===== *)
theory Ram
  imports Bus
begin

text \<open>
  Guest RAM (src/src/mem/ram.h and ram.c): a zeroed host block behind a bus
  window, read and written with \<open>memcpy\<close>.  An access outside the block is
  \<open>None\<close>.  The theory shows that RAM is a memory in the sense of the locale
  \<open>memory\<close> and that the bus never dispatches an access outside the block.
\<close>

section \<open>The device\<close>

record RamDevice =
  ram_mem :: "u64 \<Rightarrow> u8"
  ram_base :: u64
  ram_size :: u64

definition in_block :: "u64 \<Rightarrow> u64 \<Rightarrow> nat \<Rightarrow> bool" where
  "in_block sz off n \<longleftrightarrow> unat off + n \<le> unat sz"

definition RamRead :: "RamDevice \<Rightarrow> u64 \<Rightarrow> nat \<Rightarrow> u64 option" where
  "RamRead ram addr sz = (let off = addr - ram_base ram in
     if in_block (ram_size ram) off sz then Some (load_le (ram_mem ram) off sz) else None)"

definition RamWrite :: "RamDevice \<Rightarrow> u64 \<Rightarrow> nat \<Rightarrow> u64 \<Rightarrow> RamDevice option" where
  "RamWrite ram addr sz val = (let off = addr - ram_base ram in
     if in_block (ram_size ram) off sz
     then Some (ram\<lparr>ram_mem := store_le (ram_mem ram) off sz val\<rparr>) else None)"

text \<open>
  The two flags say whether the two host allocations succeed; the block of
  \<open>calloc\<close> starts zeroed.
\<close>

definition RamCreate :: "bool \<Rightarrow> bool \<Rightarrow> u64 \<Rightarrow> u64 \<Rightarrow> RamDevice option" where
  "RamCreate malloc_ok calloc_ok base sz =
     (if \<not> malloc_ok then None else if \<not> calloc_ok then None
      else Some \<lparr>ram_mem = (\<lambda>_. 0), ram_base = base, ram_size = sz\<rparr>)"

section \<open>The memory interface\<close>

text \<open>
  What the loader and the processor rely on: a store is seen by a load of the
  same cell, and by no load of a disjoint one.
\<close>

definition disjoint_acc :: "u64 \<Rightarrow> nat \<Rightarrow> u64 \<Rightarrow> nat \<Rightarrow> bool" where
  "disjoint_acc a n b k \<longleftrightarrow> unat a + n \<le> unat b \<or> unat b + k \<le> unat a"

locale memory =
  fixes load :: "'m \<Rightarrow> u64 \<Rightarrow> nat \<Rightarrow> u64 option"
    and store :: "'m \<Rightarrow> u64 \<Rightarrow> nat \<Rightarrow> u64 \<Rightarrow> 'm option"
    and rel :: "'m \<Rightarrow> u64 \<Rightarrow> u64"
  assumes store_same: "n \<le> 8 \<Longrightarrow> store m a n v = Some m' \<Longrightarrow> load m' a n = Some (take_bit (8 * n) v)"
    and store_other: "n \<le> 8 \<Longrightarrow> store m a n v = Some m' \<Longrightarrow> disjoint_acc (rel m a) n (rel m b) k \<Longrightarrow>
      load m' b k = load m b k"
    and store_rel: "store m a n v = Some m' \<Longrightarrow> rel m' = rel m"
begin

text \<open>A run of stores that misses a cell leaves it alone.\<close>

lemma stores_other:
  assumes "fold (\<lambda>(a, n, v) om. Option.bind om (\<lambda>m. store m a n v)) ws (Some m) = Some m'"
    and "\<forall>(a, n, v) \<in> set ws. n \<le> 8 \<and> disjoint_acc (rel m a) n (rel m b) k"
  shows "load m' b k = load m b k"
  using assms
proof (induction ws arbitrary: m)
  case Nil
  then show ?case by simp
next
  case (Cons w ws)
  obtain a n v where w: "w = (a, n, v)" by (cases w)
  have none: "fold (\<lambda>(a, n, v) om. Option.bind om (\<lambda>m. store m a n v)) xs None = None" for xs
    by (induction xs) auto
  obtain m1 where m1: "store m a n v = Some m1"
    using Cons.prems(1) w none by (cases "store m a n v") auto
  have "load m' b k = load m1 b k"
    using Cons.IH [of m1] Cons.prems w m1 store_rel [OF m1] by auto
  also have "\<dots> = load m b k"
    using store_other [OF _ m1] Cons.prems(2) w by auto
  finally show ?case .
qed

end

lemma disjoint_offsets:
  assumes "disjoint_acc a n b k" "unat a + n \<le> 18446744073709551615"
    "unat b + k \<le> 18446744073709551615" "j < k"
  shows "n \<le> unat (b + of_nat j - a)"
proof -
  have j: "unat (of_nat j :: u64) = j" using assms(3,4) by (simp add: unat_of_nat)
  have bj: "unat (b + of_nat j) = unat b + j"
    using assms(3,4) by (simp add: unat_u64_add j)
  show ?thesis
  proof (cases "unat a \<le> unat b + j")
    case True
    then have "unat (b + of_nat j - a) = unat b + j - unat a"
      using unat_sub [of a "b + of_nat j"] by (simp add: bj word_le_nat_alt)
    then show ?thesis using True assms(1,4) by (auto simp: disjoint_acc_def)
  next
    case False
    then have "unat (a - (b + of_nat j)) = unat a - (unat b + j)"
      using unat_sub [of "b + of_nat j" a] by (simp add: bj word_le_nat_alt)
    moreover have "a - (b + of_nat j) \<noteq> 0" using False bj by auto
    ultimately have "unat (b + of_nat j - a) = 18446744073709551616 - (unat a - (unat b + j))"
      using unat_u64_minus [of "a - (b + of_nat j)"] by simp
    then show ?thesis using False assms(1,2) by (auto simp: disjoint_acc_def)
  qed
qed


lemma RamWrite_Some:
  "RamWrite ram a n v = Some ram' \<longleftrightarrow> in_block (ram_size ram) (a - ram_base ram) n \<and>
     ram' = ram\<lparr>ram_mem := store_le (ram_mem ram) (a - ram_base ram) n v\<rparr>"
  by (auto simp: RamWrite_def Let_def)

interpretation ram: memory RamRead RamWrite "\<lambda>ram a. a - ram_base ram"
proof unfold_locales
  fix n m a v m'
  assume "n \<le> 8" "RamWrite m a n v = Some m'"
  then show "RamRead m' a n = Some (take_bit (8 * n) v)"
    by (auto simp: RamWrite_Some RamRead_def Let_def load_store_same)
next
  fix n m a v m' b k
  assume n: "n \<le> 8" and w: "RamWrite m a n v = Some m'"
    and d: "disjoint_acc (a - ram_base m) n (b - ram_base m) k"
  show "RamRead m' b k = RamRead m b k"
  proof (cases "in_block (ram_size m) (b - ram_base m) k")
    case True
    have "load_le (store_le (ram_mem m) (a - ram_base m) n v) (b - ram_base m) k =
        load_le (ram_mem m) (b - ram_base m) k"
      using disjoint_offsets [OF d] w True unat_u64_less [of "ram_size m"]
      by (intro load_store_disjoint [OF n]) (auto simp: RamWrite_Some in_block_def)
    then show ?thesis using w by (auto simp: RamWrite_Some RamRead_def Let_def)
  next
    case False
    then show ?thesis using w by (auto simp: RamWrite_Some RamRead_def Let_def)
  qed
next
  show "RamWrite m a n v = Some m' \<Longrightarrow> (\<lambda>a. a - ram_base m') = (\<lambda>a. a - ram_base m)" for m a n v m'
    by (auto simp: RamWrite_Some)
qed

section \<open>The bus dispatches inside the block\<close>

lemma window_in_block:
  assumes "in_window r addr (of_nat n)" "\<not> NOT addr < of_nat n" "n \<le> 8"
    and "unat (r_base r) + unat (r_size r) < 18446744073709551616"
  shows "in_block (r_size r) (addr - r_base r) n"
proof -
  have n: "unat (of_nat n :: u64) = n" using assms(3) by (simp add: unat_of_nat)
  have "unat (addr + of_nat n) = unat addr + n"
    using assms(2) unfolding no_wrap_iff by (simp add: unat_u64_add n)
  moreover have "unat (r_base r + r_size r) = unat (r_base r) + unat (r_size r)"
    using assms(4) by (rule unat_u64_add)
  moreover have "unat (addr - r_base r) = unat addr - unat (r_base r)"
    using assms(1) by (intro unat_sub) (simp add: in_window_def)
  ultimately show ?thesis
    using assms(1) by (auto simp: in_window_def in_block_def word_le_nat_alt)
qed

lemma load_le_zero [simp]: "load_le (\<lambda>_. 0) a n = 0"
  by (induction n arbitrary: a) simp_all

text \<open>
  A store to RAM is seen by a load of the same cell, truncated to the width of the access,
  and by no load of a disjoint cell.
\<close>

theorem ram_store_load:
  assumes "RamWrite ram a n v = Some ram'" "n \<le> 8"
  shows "RamRead ram' a n = Some (take_bit (8 * n) v) \<and>
    (\<forall>b k. disjoint_acc (a - ram_base ram) n (b - ram_base ram) k \<longrightarrow> RamRead ram' b k = RamRead ram b k)"
  using ram.store_same [OF assms(2,1)] ram.store_other [OF assms(2,1)] by blast

theorem ram_store_load_witness:
  "\<exists>ram ram'. RamCreate True True 0x80000000 0x1000 = Some ram \<and>
    RamWrite ram 0x80000010 4 0x123456789 = Some ram' \<and>
    RamRead ram' 0x80000010 4 = Some 0x23456789 \<and> RamRead ram' 0x80000014 4 = Some 0"
proof -
  define ram where "ram = \<lparr>ram_mem = (\<lambda>_. 0), ram_base = 0x80000000, ram_size = 0x1000\<rparr>"
  have c: "RamCreate True True 0x80000000 0x1000 = Some ram" by (simp add: RamCreate_def ram_def)
  have "RamWrite ram 0x80000010 4 0x123456789 \<noteq> None"
    by (simp add: RamWrite_def ram_def in_block_def)
  then obtain ram' where w: "RamWrite ram 0x80000010 4 0x123456789 = Some ram'" by blast
  have "disjoint_acc (0x80000010 - ram_base ram) 4 (0x80000014 - ram_base ram) 4"
    by (simp add: disjoint_acc_def ram_def)
  then have "RamRead ram' 0x80000014 4 = RamRead ram 0x80000014 4"
    using ram_store_load [OF w] by simp
  moreover have "RamRead ram 0x80000014 4 = Some 0"
    by (simp add: RamRead_def ram_def in_block_def)
  moreover have "RamRead ram' 0x80000010 4 = Some 0x23456789"
    using ram_store_load [OF w] by simp
  ultimately show ?thesis using c w by auto
qed

end
