(* ===== verification/Virtio.thy ===== *)
theory Virtio
  imports Device Ram
begin

text \<open>
  The virtio transport (src/src/device/virtio/virtio.c): access to guest RAM,
  descriptor chains, the used and available rings, and the register file.
  A backend struct that embeds \<open>VirtioDevice\<close> as its first member is a record
  extension, and the transport works on any extension.

  The descriptor table is in guest memory, so the loops that follow a chain
  need not end.  They are \<open>partial_function (option)\<close>: the outer \<open>None\<close> is a
  loop that never returns.  C integers that the guest can drive out of range
  are 32-bit words compared as signed numbers.
\<close>

unbundle bit_operations_syntax

section \<open>Guest RAM\<close>

text \<open>Host memory: the bytes of each host block.\<close>

type_synonym hmem = "nat \<Rightarrow> u64 \<Rightarrow> u8"

definition RamPtr :: "Bus \<Rightarrow> u64 \<Rightarrow> u64 \<Rightarrow> (nat \<times> u64) option" where
  "RamPtr b addr len = BusRamRange b addr len"

text \<open>The bytes of an access that lie in the page of its address.\<close>

definition page_part :: "u64 \<Rightarrow> nat \<Rightarrow> nat" where
  "page_part addr len = min len (unat (0x1000 - (addr AND 0xfff)))"

lemma page_part_pos [simp]: "0 < len \<Longrightarrow> 0 < page_part addr len"
proof -
  have "(addr AND 0xfff :: u64) < 0x1000"
    by (rule le_less_trans [of _ "0xfff"]) (simp_all add: word_and_le1)
  then have "0x1000 - (addr AND 0xfff) \<noteq> (0 :: u64)" by auto
  then show "0 < len \<Longrightarrow> 0 < page_part addr len" by (simp add: page_part_def unat_gt_0)
qed

function ReadPhys :: "Bus \<Rightarrow> hmem \<Rightarrow> u64 \<Rightarrow> nat \<Rightarrow> u8 list option" where
  "ReadPhys b m addr len =
     (if len = 0 then Some []
      else let l = page_part addr len in
        case RamPtr b addr (of_nat l) of None \<Rightarrow> None
        | Some (h, off) \<Rightarrow> map_option (\<lambda>r. map (\<lambda>i. m h (off + of_nat i)) [0..<l] @ r)
            (ReadPhys b m (addr + of_nat l) (len - l)))"
  by pat_completeness auto
termination
  by (relation "measure (\<lambda>(b, m, addr, len). len)") auto

definition put_bytes :: "(u64 \<Rightarrow> u8) \<Rightarrow> u64 \<Rightarrow> u8 list \<Rightarrow> u64 \<Rightarrow> u8" where
  "put_bytes f off bs = foldl (\<lambda>g i. g(off + of_nat i := bs ! i)) f [0..<length bs]"

text \<open>The pages before a failing one are written.\<close>

function WritePhys :: "Bus \<Rightarrow> hmem \<Rightarrow> u64 \<Rightarrow> u8 list \<Rightarrow> bool \<times> hmem" where
  "WritePhys b m addr bs =
     (if bs = [] then (True, m)
      else let l = page_part addr (length bs) in
        case RamPtr b addr (of_nat l) of None \<Rightarrow> (False, m)
        | Some (h, off) \<Rightarrow>
            WritePhys b (m(h := put_bytes (m h) off (take l bs))) (addr + of_nat l) (drop l bs))"
  by pat_completeness auto
termination
  by (relation "measure (\<lambda>(b, m, addr, bs). length bs)") auto

declare ReadPhys.simps [simp del] WritePhys.simps [simp del]

fun le_value :: "u8 list \<Rightarrow> u64" where
  "le_value [] = 0"
| "le_value (b # bs) = ucast b OR push_bit 8 (le_value bs)"

definition le_bytes :: "nat \<Rightarrow> u64 \<Rightarrow> u8 list" where
  "le_bytes n v = map (\<lambda>i. ucast (drop_bit (8 * i) v)) [0..<n]"

definition ReadPhys16 :: "Bus \<Rightarrow> hmem \<Rightarrow> u64 \<Rightarrow> u16" where
  "ReadPhys16 b m addr = (case ReadPhys b m addr 2 of None \<Rightarrow> 0 | Some bs \<Rightarrow> ucast (le_value bs))"

definition WritePhys16 :: "Bus \<Rightarrow> hmem \<Rightarrow> u64 \<Rightarrow> u16 \<Rightarrow> hmem" where
  "WritePhys16 b m addr v = snd (WritePhys b m addr (le_bytes 2 (ucast v)))"

definition WritePhys32 :: "Bus \<Rightarrow> hmem \<Rightarrow> u64 \<Rightarrow> u32 \<Rightarrow> hmem" where
  "WritePhys32 b m addr v = snd (WritePhys b m addr (le_bytes 4 (ucast v)))"

section \<open>The device\<close>

record VringDesc =
  d_addr :: u64
  d_len :: u32
  d_flags :: u16
  d_next :: u16

record VirtioQueue =
  q_num :: u32
  q_pfn :: u32
  desc_addr :: u64
  avail_addr :: u64
  used_addr :: u64
  last_avail_idx :: u16
  q_ready :: bool
  q_manual :: bool

record VirtioDevice =
  device_id :: u32
  vendor_id :: u32
  v_version :: u32
  device_features :: u64
  guest_features :: u64
  v_status :: u32
  device_features_sel :: u32
  driver_features_sel :: u32
  queue_sel :: u32
  int_status :: u32
  page_shift :: u32
  v_align :: u32
  v_queue :: "nat \<Rightarrow> VirtioQueue"
  v_config :: "nat \<Rightarrow> u8"
  config_size :: nat
  irq_src :: int
  v_sink :: bool

text \<open>
  What an operation of a device works on: host memory, the device, the calls
  of its interrupt sink and the bytes written to the host console so far.
\<close>

record 'v world =
  w_mem :: hmem
  w_dev :: 'v
  w_calls :: "line_call list"
  w_out :: "u8 list"

definition upd_queue :: "nat \<Rightarrow> (VirtioQueue \<Rightarrow> VirtioQueue) \<Rightarrow> 'b VirtioDevice_scheme \<Rightarrow> 'b VirtioDevice_scheme" where
  "upd_queue q f v = v\<lparr>v_queue := (v_queue v)(q := f (v_queue v q))\<rparr>"

section \<open>Descriptor chains\<close>

definition GetDesc :: "Bus \<Rightarrow> hmem \<Rightarrow> 'b VirtioDevice_scheme \<Rightarrow> nat \<Rightarrow> u16 \<Rightarrow> VringDesc option" where
  "GetDesc b m v q idx =
     map_option (\<lambda>bs. \<lparr>d_addr = le_value (take 8 bs), d_len = ucast (le_value (take 4 (drop 8 bs))),
         d_flags = ucast (le_value (take 2 (drop 12 bs))), d_next = ucast (le_value (drop 14 bs))\<rparr>)
       (ReadPhys b m (desc_addr (v_queue v q) + ucast idx * 16) 16)"

definition is_write :: "VringDesc \<Rightarrow> bool" where
  "is_write d \<longleftrightarrow> d_flags d AND 2 \<noteq> 0"

definition has_next :: "VringDesc \<Rightarrow> bool" where
  "has_next d \<longleftrightarrow> d_flags d AND 1 \<noteq> 0"

text \<open>The two loops of \<open>ChainSizes\<close>, over the lookup of a descriptor.\<close>

partial_function (option) chain_wr :: "(u16 \<Rightarrow> VringDesc option) \<Rightarrow> VringDesc \<Rightarrow> u32 \<Rightarrow> u32 option option" where
  "chain_wr G d nwr =
     (if \<not> is_write d then Some None
      else if \<not> has_next d then Some (Some (nwr + d_len d))
      else case G (d_next d) of None \<Rightarrow> Some None | Some d' \<Rightarrow> chain_wr G d' (nwr + d_len d))"

partial_function (option) chain_rd :: "(u16 \<Rightarrow> VringDesc option) \<Rightarrow> VringDesc \<Rightarrow> u32 \<Rightarrow> (u32 \<times> u32) option option" where
  "chain_rd G d nrd =
     (if is_write d then map_option (map_option (Pair nrd)) (chain_wr G d 0)
      else if \<not> has_next d then Some (Some (nrd + d_len d, 0))
      else case G (d_next d) of None \<Rightarrow> Some None | Some d' \<Rightarrow> chain_rd G d' (nrd + d_len d))"

definition ChainSizes :: "Bus \<Rightarrow> hmem \<Rightarrow> 'b VirtioDevice_scheme \<Rightarrow> nat \<Rightarrow> u16 \<Rightarrow> (u32 \<times> u32) option option" where
  "ChainSizes b m v q idx =
     (case GetDesc b m v q idx of None \<Rightarrow> Some None | Some d \<Rightarrow> chain_rd (GetDesc b m v q) d 0)"

text \<open>The loops of \<open>CopyChain\<close>: to the first writable descriptor, to the offset, and the copy.\<close>

partial_function (option) skip_readable :: "(u16 \<Rightarrow> VringDesc option) \<Rightarrow> VringDesc \<Rightarrow> VringDesc option option" where
  "skip_readable G d =
     (if is_write d then Some (Some d)
      else if \<not> has_next d then Some None
      else case G (d_next d) of None \<Rightarrow> Some None | Some d' \<Rightarrow> skip_readable G d')"

partial_function (option) seek_offset ::
  "(u16 \<Rightarrow> VringDesc option) \<Rightarrow> bool \<Rightarrow> VringDesc \<Rightarrow> u32 \<Rightarrow> (VringDesc \<times> u32) option option" where
  "seek_offset G want d off =
     (if is_write d \<noteq> want then Some None
      else if sint off < sint (d_len d) then Some (Some (d, off))
      else if \<not> has_next d then Some None
      else case G (d_next d) of None \<Rightarrow> Some None | Some d' \<Rightarrow> seek_offset G want d' (off - d_len d))"

text \<open>
  The copy itself.  A store to the guest can change the descriptor table, so
  the lookup takes the memory.  The result is the success of the copy, the
  memory and the bytes read.
\<close>

partial_function (option) copy_loop ::
  "Bus \<Rightarrow> (hmem \<Rightarrow> u16 \<Rightarrow> VringDesc option) \<Rightarrow> bool \<Rightarrow> hmem \<Rightarrow> VringDesc \<Rightarrow> u32 \<Rightarrow> u8 list \<Rightarrow> u32 \<Rightarrow>
     u8 list \<Rightarrow> (bool \<times> hmem \<times> u8 list) option" where
  "copy_loop b G to_guest m d off buf len acc =
     (let room = d_len d - off; l = (if sint len < sint room then len else room); n = nat (sint l);
          (ok, m1, got) = (if to_guest then (let (ok, m1) = WritePhys b m (d_addr d + scast off) (take n buf) in (ok, m1, acc))
             else case ReadPhys b m (d_addr d + scast off) n of None \<Rightarrow> (False, m, acc) | Some bs \<Rightarrow> (True, m, acc @ bs)) in
      if \<not> ok then Some (False, m1, got)
      else if len - l = 0 then Some (True, m1, got)
      else if off + l = d_len d then
        (if \<not> has_next d then Some (False, m1, got)
         else case G m1 (d_next d) of None \<Rightarrow> Some (False, m1, got)
         | Some d' \<Rightarrow> if is_write d' \<noteq> to_guest then Some (False, m1, got)
             else copy_loop b G to_guest m1 d' 0 (drop n buf) (len - l) got)
      else copy_loop b G to_guest m1 d (off + l) (drop n buf) (len - l) got)"

definition CopyChain ::
  "Bus \<Rightarrow> hmem \<Rightarrow> 'b VirtioDevice_scheme \<Rightarrow> nat \<Rightarrow> u16 \<Rightarrow> u32 \<Rightarrow> u8 list \<Rightarrow> u32 \<Rightarrow> bool \<Rightarrow> (bool \<times> hmem \<times> u8 list) option" where
  "CopyChain b m v q idx off buf len to_guest =
     (if len = 0 then Some (True, m, [])
      else case GetDesc b m v q idx of None \<Rightarrow> Some (False, m, [])
      | Some d \<Rightarrow>
          Option.bind (if to_guest then skip_readable (GetDesc b m v q) d else Some (Some d)) (\<lambda>r.
          case r of None \<Rightarrow> Some (False, m, [])
          | Some d1 \<Rightarrow> Option.bind (seek_offset (GetDesc b m v q) to_guest d1 off) (\<lambda>r2.
              case r2 of None \<Rightarrow> Some (False, m, [])
              | Some (d2, off2) \<Rightarrow> copy_loop b (\<lambda>m. GetDesc b m v q) to_guest m d2 off2 buf len [])))"

definition VirtioCopyFromChain ::
  "Bus \<Rightarrow> hmem \<Rightarrow> 'b VirtioDevice_scheme \<Rightarrow> nat \<Rightarrow> u16 \<Rightarrow> u32 \<Rightarrow> u32 \<Rightarrow> (bool \<times> u8 list) option" where
  "VirtioCopyFromChain b m v q idx off len = map_option (\<lambda>(ok, m', got). (ok, got)) (CopyChain b m v q idx off [] len False)"

definition VirtioCopyToChain ::
  "Bus \<Rightarrow> hmem \<Rightarrow> 'b VirtioDevice_scheme \<Rightarrow> nat \<Rightarrow> u16 \<Rightarrow> u32 \<Rightarrow> u8 list \<Rightarrow> (bool \<times> hmem) option" where
  "VirtioCopyToChain b m v q idx off buf =
     map_option (\<lambda>(ok, m', got). (ok, m')) (CopyChain b m v q idx off buf (of_nat (length buf)) True)"

section \<open>Rings\<close>

definition VirtioConsumeChain ::
  "Bus \<Rightarrow> nat \<Rightarrow> u16 \<Rightarrow> u32 \<Rightarrow> 'b VirtioDevice_scheme world \<Rightarrow> 'b VirtioDevice_scheme world" where
  "VirtioConsumeChain b q idx written w =
     (let v = w_dev w; qs = v_queue v q; used_idx_addr = used_addr qs + 2;
          used_idx = ReadPhys16 b (w_mem w) used_idx_addr;
          slot = used_addr qs + 4 + ucast ((ucast used_idx :: u32) AND (q_num qs - 1)) * 8;
          m1 = WritePhys32 b (w_mem w) slot (ucast idx); m2 = WritePhys32 b m1 (slot + 4) written;
          m3 = WritePhys16 b m2 used_idx_addr (used_idx + 1) in
      w\<lparr>w_mem := m3, w_dev := v\<lparr>int_status := int_status v OR 1\<rparr>,
        w_calls := w_calls w @ drive (v_sink v) [(irq_src v, True)]\<rparr>)"

text \<open>
  The hooks of a backend: the handler of an available chain, whose answer
  \<open>True\<close> leaves the chain for later, and the two notifications.
\<close>

record 'v backend =
  recv_fn :: "nat \<Rightarrow> u16 \<Rightarrow> u32 \<Rightarrow> u32 \<Rightarrow> 'v world \<Rightarrow> (bool \<times> 'v world) option"
  reset_hook :: "'v \<Rightarrow> 'v"
  config_hook :: "'v \<Rightarrow> 'v"

definition avail_idx :: "Bus \<Rightarrow> nat \<Rightarrow> 'b VirtioDevice_scheme world \<Rightarrow> u16" where
  "avail_idx b q w = ReadPhys16 b (w_mem w) (avail_addr (v_queue (w_dev w) q) + 2)"

definition avail_head :: "Bus \<Rightarrow> nat \<Rightarrow> 'b VirtioDevice_scheme world \<Rightarrow> u16" where
  "avail_head b q w =
     (let qs = v_queue (w_dev w) q in
      ReadPhys16 b (w_mem w) (avail_addr qs + 4 + ucast ((ucast (last_avail_idx qs) :: u32) AND (q_num qs - 1)) * 2))"

definition next_avail :: "nat \<Rightarrow> 'b VirtioDevice_scheme world \<Rightarrow> 'b VirtioDevice_scheme world" where
  "next_avail q w = w\<lparr>w_dev := upd_queue q (\<lambda>qs. qs\<lparr>last_avail_idx := last_avail_idx qs + 1\<rparr>) (w_dev w)\<rparr>"

partial_function (option) drain_queue ::
  "'b VirtioDevice_scheme backend \<Rightarrow> Bus \<Rightarrow> nat \<Rightarrow> u16 \<Rightarrow> 'b VirtioDevice_scheme world \<Rightarrow> 'b VirtioDevice_scheme world option" where
  "drain_queue K b q avail w =
     (if last_avail_idx (v_queue (w_dev w) q) = avail then Some w
      else Option.bind (ChainSizes b (w_mem w) (w_dev w) q (avail_head b q w)) (\<lambda>r.
        case r of None \<Rightarrow> drain_queue K b q avail (next_avail q w)
        | Some (nrd, nwr) \<Rightarrow> Option.bind (recv_fn K q (avail_head b q w) nrd nwr w) (\<lambda>(busy, w1).
            if busy then Some w1 else drain_queue K b q (avail_idx b q w1) (next_avail q w1))))"

definition VirtioNotifyQueue ::
  "'b VirtioDevice_scheme backend \<Rightarrow> Bus \<Rightarrow> nat \<Rightarrow> 'b VirtioDevice_scheme world \<Rightarrow> 'b VirtioDevice_scheme world option" where
  "VirtioNotifyQueue K b q w =
     (let qs = v_queue (w_dev w) q in
      if q_manual qs then Some w else if q_num qs = 0 then Some w
      else drain_queue K b q (avail_idx b q w) w)"

definition VirtioQueueAvail :: "Bus \<Rightarrow> nat \<Rightarrow> 'b VirtioDevice_scheme world \<Rightarrow> u16" where
  "VirtioQueueAvail b q w = (if q_num (v_queue (w_dev w) q) = 0 then 0 else avail_idx b q w)"

definition VirtioManualChain :: "Bus \<Rightarrow> nat \<Rightarrow> 'b VirtioDevice_scheme world \<Rightarrow> u16 option" where
  "VirtioManualChain b q w =
     (let qs = v_queue (w_dev w) q in
      if q_num qs = 0 then None
      else if last_avail_idx qs = avail_idx b q w then None
      else Some (avail_head b q w))"

text \<open>The result is the number of bytes delivered; 0 leaves the chain in place.\<close>

definition VirtioManualFill ::
  "Bus \<Rightarrow> nat \<Rightarrow> u8 list \<Rightarrow> 'b VirtioDevice_scheme world \<Rightarrow> (nat \<times> 'b VirtioDevice_scheme world) option" where
  "VirtioManualFill b q buf w =
     (case VirtioManualChain b q w of None \<Rightarrow> Some (0, w)
      | Some idx \<Rightarrow> map_option (\<lambda>(ok, m).
          let w1 = w\<lparr>w_mem := m\<rparr> in
          if \<not> ok then (0, w1)
          else (length buf, next_avail q (VirtioConsumeChain b q idx (of_nat (length buf)) w1)))
          (VirtioCopyToChain b (w_mem w) (w_dev w) q idx 0 buf))"

section \<open>Reset and registers\<close>

definition TransportReset :: "('b VirtioDevice_scheme \<Rightarrow> 'b VirtioDevice_scheme) \<Rightarrow> 'b VirtioDevice_scheme \<Rightarrow> 'b VirtioDevice_scheme" where
  "TransportReset hook v = hook (v\<lparr>guest_features := 0, device_features_sel := 0, driver_features_sel := 0, queue_sel := 0,
     int_status := 0, page_shift := 12, v_align := 0x1000,
     v_queue := (\<lambda>i. if i < 64 then (v_queue v i)\<lparr>q_num := 0, q_pfn := 0, desc_addr := 0, avail_addr := 0, used_addr := 0,
        last_avail_idx := 0, q_ready := False\<rparr> else v_queue v i)\<rparr>)"

definition VirtioInit :: "u32 \<Rightarrow> u32 \<Rightarrow> u64 \<Rightarrow> u32 \<Rightarrow> nat \<Rightarrow> 'b \<Rightarrow> 'b VirtioDevice_scheme" where
  "VirtioInit dev vendor features ver size_config ext =
     TransportReset (\<lambda>v. v)
       \<lparr>device_id = dev, vendor_id = vendor, v_version = ver, device_features = features, guest_features = 0, v_status = 0,
        device_features_sel = 0, driver_features_sel = 0, queue_sel = 0, int_status = 0, page_shift = 0, v_align = 0,
        v_queue = (\<lambda>_. \<lparr>q_num = 0, q_pfn = 0, desc_addr = 0, avail_addr = 0, used_addr = 0, last_avail_idx = 0,
          q_ready = False, q_manual = False\<rparr>),
        v_config = (\<lambda>_. 0), config_size = size_config, irq_src = 0, v_sink = False, \<dots> = ext\<rparr>"

definition FeatureWord :: "u64 \<Rightarrow> u32 \<Rightarrow> u32" where
  "FeatureWord features sel = (if sel < 2 then ucast (drop_bit (32 * unat sel) features) else 0)"

definition MmioRead :: "'b VirtioDevice_scheme \<Rightarrow> u64 \<Rightarrow> nat \<Rightarrow> u64" where
  "MmioRead v a sz =
     (let addr = a AND 0xfff; qs = v_queue v (unat (queue_sel v)) in
      if 0x100 \<le> addr then
        (let off = unat addr - 0x100 in
         if config_size v < off + sz then 0 else le_value (map (\<lambda>i. v_config v (off + i)) [0..<sz]))
      else if sz \<noteq> 4 then 0
      else if addr = 0x000 then 0x74726976
      else if addr = 0x004 then ucast (v_version v)
      else if addr = 0x008 then ucast (device_id v)
      else if addr = 0x00c then ucast (vendor_id v)
      else if addr = 0x010 then ucast (FeatureWord (device_features v) (device_features_sel v))
      else if addr = 0x014 then ucast (device_features_sel v)
      else if addr = 0x020 then ucast (FeatureWord (guest_features v) (driver_features_sel v))
      else if addr = 0x024 then ucast (driver_features_sel v)
      else if addr = 0x030 then ucast (queue_sel v)
      else if addr = 0x034 then 1024
      else if addr = 0x038 then ucast (q_num qs)
      else if addr = 0x040 then ucast (q_pfn qs)
      else if addr = 0x044 then (if q_ready qs then 1 else 0)
      else if addr = 0x080 then take_bit 32 (desc_addr qs)
      else if addr = 0x084 then drop_bit 32 (desc_addr qs)
      else if addr = 0x090 then take_bit 32 (avail_addr qs)
      else if addr = 0x094 then drop_bit 32 (avail_addr qs)
      else if addr = 0x0a0 then take_bit 32 (used_addr qs)
      else if addr = 0x0a4 then drop_bit 32 (used_addr qs)
      else if addr = 0x060 then ucast (int_status v)
      else if addr = 0x070 then ucast (v_status v)
      else 0)"

definition SetAddrWord :: "u64 \<Rightarrow> u32 \<Rightarrow> bool \<Rightarrow> u64" where
  "SetAddrWord a val high =
     (if high then (a AND 0xffffffff) OR push_bit 32 (ucast val) else (a AND NOT 0xffffffff) OR ucast val)"

text \<open>The loop that turns the page size of the guest into a shift; 33 rounds are enough for a 32-bit size.\<close>

fun shift_from :: "nat \<Rightarrow> u64 \<Rightarrow> nat \<Rightarrow> nat" where
  "shift_from 0 sz shift = shift"
| "shift_from (Suc n) sz shift = (if push_bit shift 1 < sz then shift_from n sz (shift + 1) else shift)"

definition set_pfn :: "u32 \<Rightarrow> 'b VirtioDevice_scheme \<Rightarrow> 'b VirtioDevice_scheme" where
  "set_pfn val v = upd_queue (unat (queue_sel v)) (\<lambda>qs.
     let desc = push_bit (unat (page_shift v)) (ucast val); avail = desc + ucast (q_num qs) * 16;
         used = (avail + 6 + ucast (q_num qs) * 2 + ucast (v_align v) - 1) AND NOT (ucast (v_align v - 1)) in
     qs\<lparr>q_pfn := val, desc_addr := desc, avail_addr := avail, used_addr := used, last_avail_idx := 0\<rparr>) v"

definition set_ready :: "u32 \<Rightarrow> VirtioQueue \<Rightarrow> VirtioQueue" where
  "set_ready val qs =
     (let r = val AND 1 \<noteq> 0; qs1 = qs\<lparr>q_ready := r\<rparr> in
      if \<not> q_ready qs \<and> r then qs1\<lparr>last_avail_idx := 0\<rparr> else qs1)"

text \<open>The registers that only change the device.\<close>

definition reg_write :: "'b VirtioDevice_scheme \<Rightarrow> u64 \<Rightarrow> u32 \<Rightarrow> 'b VirtioDevice_scheme" where
  "reg_write v addr val =
     (let sel = unat (queue_sel v); upd = (\<lambda>f. upd_queue sel f v) in
      if addr = 0x014 then v\<lparr>device_features_sel := val\<rparr>
      else if addr = 0x020 then
        (if driver_features_sel v < 2
         then (let sh = 32 * unat (driver_features_sel v) in
           v\<lparr>guest_features := (guest_features v AND NOT (push_bit sh 0xffffffff)) OR push_bit sh (ucast val)\<rparr>)
         else v)
      else if addr = 0x024 then v\<lparr>driver_features_sel := val\<rparr>
      else if addr = 0x028 then (if v_version v = 1 then v\<lparr>page_shift := of_nat (shift_from 33 (ucast val) 12)\<rparr> else v)
      else if addr = 0x030 then (if val < 64 then v\<lparr>queue_sel := val\<rparr> else v)
      else if addr = 0x038 then
        (if 0 < val \<and> val AND (val - 1) = 0 \<and> val \<le> 1024 then upd (\<lambda>qs. qs\<lparr>q_num := val\<rparr>) else v)
      else if addr = 0x03c then (if v_version v = 1 then v\<lparr>v_align := (if val < 0x1000 then 0x1000 else val)\<rparr> else v)
      else if addr = 0x040 then (if v_version v = 1 then set_pfn val v else v)
      else if addr = 0x044 then (if v_version v = 2 then upd (set_ready val) else v)
      else if v_version v = 2 then
        (if addr = 0x080 then upd (\<lambda>qs. qs\<lparr>desc_addr := SetAddrWord (desc_addr qs) val False\<rparr>)
         else if addr = 0x084 then upd (\<lambda>qs. qs\<lparr>desc_addr := SetAddrWord (desc_addr qs) val True\<rparr>)
         else if addr = 0x090 then upd (\<lambda>qs. qs\<lparr>avail_addr := SetAddrWord (avail_addr qs) val False\<rparr>)
         else if addr = 0x094 then upd (\<lambda>qs. qs\<lparr>avail_addr := SetAddrWord (avail_addr qs) val True\<rparr>)
         else if addr = 0x0a0 then upd (\<lambda>qs. qs\<lparr>used_addr := SetAddrWord (used_addr qs) val False\<rparr>)
         else if addr = 0x0a4 then upd (\<lambda>qs. qs\<lparr>used_addr := SetAddrWord (used_addr qs) val True\<rparr>)
         else v)
      else v)"

text \<open>
  The inner \<open>None\<close> is a configuration write wider than its 32-bit source
  variable, which copies bytes past it.
\<close>

definition MmioWrite ::
  "'b VirtioDevice_scheme backend \<Rightarrow> Bus \<Rightarrow> u64 \<Rightarrow> nat \<Rightarrow> u64 \<Rightarrow> 'b VirtioDevice_scheme world \<Rightarrow>
     'b VirtioDevice_scheme world option option" where
  "MmioWrite K b a sz val64 w =
     (let v = w_dev w; val = ucast val64 :: u32; addr = a AND 0xfff; low = drive (v_sink v) [(irq_src v, False)] in
      if 0x100 \<le> addr then
        (let off = unat addr - 0x100 in
         if off + sz \<le> config_size v then
           (if 4 < sz then Some None
            else Some (Some (w\<lparr>w_dev := config_hook K (v\<lparr>v_config :=
                   (\<lambda>i. if off \<le> i \<and> i < off + sz then le_bytes sz (ucast val) ! (i - off) else v_config v i)\<rparr>)\<rparr>)))
         else Some (Some w))
      else if sz \<noteq> 4 then Some (Some w)
      else if addr = 0x050 then
        (if val < 64 then map_option Some (VirtioNotifyQueue K b (unat val) w) else Some (Some w))
      else if addr = 0x064 then
        (let st = int_status v AND NOT val in
         Some (Some (w\<lparr>w_dev := v\<lparr>int_status := st\<rparr>, w_calls := w_calls w @ (if st = 0 then low else [])\<rparr>)))
      else if addr = 0x070 then
        (let v1 = v\<lparr>v_status := val\<rparr> in
         Some (Some (if val = 0 then w\<lparr>w_dev := TransportReset (reset_hook K) v1, w_calls := w_calls w @ low\<rparr>
                     else w\<lparr>w_dev := v1\<rparr>)))
      else Some (Some (w\<lparr>w_dev := reg_write v addr val\<rparr>)))"

definition MmioEmptyRead :: "u64 \<Rightarrow> nat \<Rightarrow> u64" where
  "MmioEmptyRead a sz =
     (let addr = a AND 0xfff in
      if addr = 0x000 then 0x74726976 else if addr = 0x004 then 1 else if addr = 0x00c then 0x4345554d else 0)"

section \<open>Following a chain\<close>

fun linked :: "(u16 \<Rightarrow> VringDesc option) \<Rightarrow> VringDesc list \<Rightarrow> bool" where
  "linked G [] = False"
| "linked G [d] = (\<not> has_next d)"
| "linked G (d # d' # ds) = (has_next d \<and> G (d_next d) = Some d' \<and> linked G (d' # ds))"

lemma chain_wr_linked:
  "linked G ws \<Longrightarrow> list_all is_write ws \<Longrightarrow> chain_wr G (hd ws) n = Some (Some (n + sum_list (map d_len ws)))"
proof (induction G ws arbitrary: n rule: linked.induct)
  case (2 G d)
  then show ?case by (subst chain_wr.simps) simp
next
  case (3 G d d' ds)
  then show ?case by (subst chain_wr.simps) (simp add: add.assoc)
qed simp

lemma chain_rd_linked:
  "linked G (rs @ ws) \<Longrightarrow> list_all (\<lambda>d. \<not> is_write d) rs \<Longrightarrow> list_all is_write ws \<Longrightarrow>
     chain_rd G (hd (rs @ ws)) n = Some (Some (n + sum_list (map d_len rs), sum_list (map d_len ws)))"
proof (induction rs arbitrary: n)
  case Nil
  then have "is_write (hd ws)" by (cases ws) auto
  then show ?case using chain_wr_linked [of G ws 0] Nil by (subst chain_rd.simps) simp
next
  case (Cons d rs)
  show ?case
  proof (cases "rs @ ws")
    case Nil
    then show ?thesis using Cons.prems by (subst chain_rd.simps) simp
  next
    case (Cons d' ds)
    with Cons.prems have "has_next d" "G (d_next d) = Some d'" "linked G (rs @ ws)" by auto
    then show ?thesis using Cons.IH [of "n + d_len d"] Cons.prems Cons
      by (subst chain_rd.simps) (simp add: add.assoc)
  qed
qed

text \<open>
  C27. On a well-formed chain, readable descriptors followed by writable ones with the last one ending the
  chain, the walk returns, with the sums of the two runs of lengths.
\<close>

theorem virtio_chain_sizes:
  assumes "linked (GetDesc b m v q) (rs @ ws)" "GetDesc b m v q idx = Some (hd (rs @ ws))"
    "list_all (\<lambda>d. \<not> is_write d) rs" "list_all is_write ws"
  shows "ChainSizes b m v q idx = Some (Some (sum_list (map d_len rs), sum_list (map d_len ws)))"
  using assms(2) chain_rd_linked [OF assms(1,3,4), of 0] by (simp add: ChainSizes_def)

definition self_linked :: "(u16 \<Rightarrow> VringDesc option) \<Rightarrow> VringDesc \<Rightarrow> bool" where
  "self_linked G d \<longleftrightarrow> G (d_next d) = Some d \<and> has_next d"

lemma chain_wr_loop: "is_write d \<Longrightarrow> self_linked G d \<Longrightarrow> chain_wr G d n = None"
proof (rule ccontr)
  assume a: "is_write d" "self_linked G d" "chain_wr G d n \<noteq> None"
  then obtain y where "chain_wr G d n = Some y" by blast
  then have "is_write d \<longrightarrow> \<not> self_linked G d"
    by (rule chain_wr.raw_induct [where P = "\<lambda>G d n y. is_write d \<longrightarrow> \<not> self_linked G d", rotated])
      (auto simp: self_linked_def split: if_splits)
  then show False using a by blast
qed

lemma chain_rd_loop: "self_linked G d \<Longrightarrow> chain_rd G d n = None"
proof (rule ccontr)
  assume a: "self_linked G d" "chain_rd G d n \<noteq> None"
  then obtain y where "chain_rd G d n = Some y" by blast
  then have "\<not> self_linked G d"
  proof (rule chain_rd.raw_induct [where P = "\<lambda>G d n y. \<not> self_linked G d", rotated])
    fix f :: "(u16 \<Rightarrow> VringDesc option) \<Rightarrow> VringDesc \<Rightarrow> u32 \<Rightarrow> (u32 \<times> u32) option option" and G d n y
    assume 1: "\<And>G d n y. f G d n = Some y \<Longrightarrow> \<not> self_linked G d"
      "(if is_write d then map_option (map_option (Pair n)) (chain_wr G d 0)
        else if \<not> has_next d then Some (Some (n + d_len d, 0))
        else case G (d_next d) of None \<Rightarrow> Some None | Some d' \<Rightarrow> f G d' (n + d_len d)) = Some y"
    show "\<not> self_linked G d"
      using 1(2) 1(1) [of G d "n + d_len d" y] chain_wr_loop [of d G 0]
      by (cases "is_write d") (auto simp: self_linked_def)
  qed
  then show False using a by blast
qed

text \<open>
  C32. A descriptor that links to itself makes the walk loop forever: nothing bounds the number of
  descriptors a guest can chain.
\<close>

theorem virtio_cycle_hangs:
  assumes "GetDesc b m v q idx = Some d" "has_next d" "d_next d = idx"
  shows "ChainSizes b m v q idx = None"
  using chain_rd_loop [of "GetDesc b m v q" d 0] assms by (simp add: ChainSizes_def self_linked_def)

definition vq0 :: VirtioDevice where
  "vq0 = (VirtioInit 3 0x4345554d 1 1 4 ())\<lparr>v_queue := (\<lambda>_. \<lparr>q_num = 8, q_pfn = 0x80000, desc_addr = 0x80000000, avail_addr = 0x80000080,
     used_addr = 0x80001000, last_avail_idx = 0, q_ready = False, q_manual = False\<rparr>)\<rparr>"

text \<open>A descriptor table in the RAM of \<open>ram_bus\<close>: 0 is a readable descriptor that links to 1, 1 is writable, 2 links to itself.\<close>

definition desc_mem :: hmem where
  "desc_mem = (\<lambda>h. if h = 0 then (\<lambda>_. 0)(8 := 16, 12 := 1, 14 := 1, 24 := 5, 28 := 2, 44 := 1, 46 := 2) else (\<lambda>_. 0))"

lemma ram_bus_range: "unat off + unat n \<le> 0x10000 \<Longrightarrow> RamPtr ram_bus (0x80000000 + off) n = Some (0, off)"
proof -
  assume a: "unat off + unat n \<le> 0x10000"
  have u: "unat (0x80000000 + off) = 0x80000000 + unat off" using a by (subst unat_u64_add) auto
  have "unat (0x80000000 + off + n) = 0x80000000 + unat off + unat n" using a u by (subst unat_u64_add) auto
  then show ?thesis using a u
    by (simp add: RamPtr_def BusRamRange_def ram_bus_def smallest_match_def better_def in_window_def word_le_nat_alt)
qed

lemma desc_read: "idx < 3 \<Longrightarrow> ReadPhys ram_bus m (0x80000000 + of_nat idx * 16) 16 = Some (map (\<lambda>i. m 0 (of_nat (idx * 16 + i))) [0..<16])"
proof -
  assume i: "idx < 3"
  define a :: u64 where "a = of_nat idx * 16"
  have u: "unat a = idx * 16" using i by (simp add: a_def unat_word_ariths unat_of_nat)
  have "(0x80000000 + a) AND 0xfff = a"
    using i by (auto simp: a_def less_Suc_eq numeral_3_eq_3)
  then have p: "page_part (0x80000000 + a) 16 = 16" using u i
    by (simp add: page_part_def unat_sub word_le_nat_alt)
  have "RamPtr ram_bus (0x80000000 + a) 16 = Some (0, a)" by (rule ram_bus_range) (use u i in simp)
  then have "ReadPhys ram_bus m (0x80000000 + a) 16 = Some (map (\<lambda>i. m 0 (a + of_nat i)) [0..<16])" using p
    by (subst ReadPhys.simps) (simp add: ReadPhys.simps [of _ _ _ 0])
  then show ?thesis by (simp add: a_def)
qed

lemma desc_mem_descs:
  "GetDesc ram_bus desc_mem vq0 1 0 = Some \<lparr>d_addr = 0, d_len = 16, d_flags = 1, d_next = 1\<rparr>"
  "GetDesc ram_bus desc_mem vq0 1 1 = Some \<lparr>d_addr = 0, d_len = 5, d_flags = 2, d_next = 0\<rparr>"
  "GetDesc ram_bus desc_mem vq0 1 2 = Some \<lparr>d_addr = 0, d_len = 0, d_flags = 1, d_next = 2\<rparr>"
  using desc_read [of 0 desc_mem] desc_read [of 1 desc_mem] desc_read [of 2 desc_mem]
  by (simp_all add: GetDesc_def vq0_def desc_mem_def upt_rec)

theorem virtio_chain_sizes_witness: "ChainSizes ram_bus desc_mem vq0 1 0 = Some (Some (16, 5))"
  using virtio_chain_sizes [of ram_bus desc_mem vq0 1 "[\<lparr>d_addr = 0, d_len = 16, d_flags = 1, d_next = 1\<rparr>]"
    "[\<lparr>d_addr = 0, d_len = 5, d_flags = 2, d_next = 0\<rparr>]" 0] desc_mem_descs
  by (simp add: is_write_def has_next_def)

theorem virtio_cycle_hangs_witness: "ChainSizes ram_bus desc_mem vq0 1 2 = None"
  by (rule virtio_cycle_hangs [OF desc_mem_descs(3)]) (simp_all add: has_next_def)

section \<open>The register file stays legal\<close>

definition queue_ok :: "VirtioQueue \<Rightarrow> bool" where
  "queue_ok qs \<longleftrightarrow> q_num qs = 0 \<or> q_num qs AND (q_num qs - 1) = 0 \<and> q_num qs \<le> 1024"

definition virtio_ok :: "'b VirtioDevice_scheme \<Rightarrow> bool" where
  "virtio_ok v \<longleftrightarrow> queue_sel v < 64 \<and> config_size v \<le> 256 \<and> page_shift v \<le> 32 \<and> 0x1000 \<le> v_align v \<and>
     (\<forall>q<64. queue_ok (v_queue v q))"

lemma virtio_ok_upd: "virtio_ok v \<Longrightarrow> (\<And>qs. queue_ok qs \<Longrightarrow> queue_ok (f qs)) \<Longrightarrow> virtio_ok (upd_queue q f v)"
  by (simp add: virtio_ok_def upd_queue_def)

lemma virtio_ok_next: "virtio_ok (w_dev w) \<Longrightarrow> virtio_ok (w_dev (next_avail q w))"
  unfolding next_avail_def by (auto intro!: virtio_ok_upd simp: queue_ok_def)

lemma shift_from_le: "unat sz \<le> 2 ^ 32 \<Longrightarrow> shift \<le> 32 \<Longrightarrow> shift_from n sz shift \<le> 32"
proof (induction n arbitrary: shift)
  case (Suc n)
  have "\<not> push_bit 32 1 < sz" using Suc.prems(1) by (simp add: word_less_nat_alt push_bit_of_1)
  then have "push_bit shift 1 < sz \<Longrightarrow> shift < 32" using Suc.prems(2) by (metis order_le_less)
  then show ?case using Suc.IH [of "shift + 1"] Suc.prems by auto
qed simp

lemma virtio_ok_if: "(c \<Longrightarrow> virtio_ok x) \<Longrightarrow> (\<not> c \<Longrightarrow> virtio_ok y) \<Longrightarrow> virtio_ok (if c then x else y)"
  by simp

lemma virtio_ok_reg_write: "virtio_ok v \<Longrightarrow> virtio_ok (reg_write v addr val)"
proof -
  assume a: "virtio_ok v"
  have s: "unat (of_nat (shift_from 33 (ucast val) 12) :: u32) \<le> 32"
  proof -
    have v: "unat val < 2 ^ 32" using unsigned_less [of val, where 'a = nat] by simp
    then have "unat (ucast val :: u64) \<le> 2 ^ 32" by (simp add: unsigned_ucast_eq take_bit_nat_eq_self)
    then show ?thesis using shift_from_le [of "ucast val" 12 33] by (simp add: unat_of_nat)
  qed
  have q: "queue_ok qs \<Longrightarrow> queue_ok (set_ready val qs)" for qs by (simp add: queue_ok_def set_ready_def Let_def)
  have p: "virtio_ok (set_pfn val v)" unfolding set_pfn_def by (rule virtio_ok_upd [OF a]) (simp add: queue_ok_def Let_def)
  have u: "virtio_ok (upd_queue k f v)" if "\<And>qs. q_num (f qs) = q_num qs" for k f
    by (rule virtio_ok_upd [OF a]) (simp add: queue_ok_def that)
  have n: "0 < val \<and> val AND (val - 1) = 0 \<and> val \<le> 1024 \<Longrightarrow> virtio_ok (upd_queue k (\<lambda>qs. qs\<lparr>q_num := val\<rparr>) v)" for k
    by (rule virtio_ok_upd [OF a]) (simp add: queue_ok_def)
  have f: "virtio_ok (v\<lparr>device_features_sel := x\<rparr>)" "virtio_ok (v\<lparr>guest_features := y\<rparr>)"
    "virtio_ok (v\<lparr>driver_features_sel := x\<rparr>)" "virtio_ok (v\<lparr>page_shift := of_nat (shift_from 33 (ucast val) 12)\<rparr>)"
    "x < 64 \<Longrightarrow> virtio_ok (v\<lparr>queue_sel := x\<rparr>)" "virtio_ok (v\<lparr>v_align := (if x < 0x1000 then 0x1000 else x)\<rparr>)" for x y
    using a s by (simp_all add: virtio_ok_def word_le_nat_alt word_less_nat_alt)
  have r: "virtio_ok (upd_queue k (set_ready val) v)" for k by (rule virtio_ok_upd [OF a q])
  show ?thesis unfolding reg_write_def Let_def
    by (rule virtio_ok_if a p r f n u | assumption | simp)+
qed

lemma virtio_ok_consume: "virtio_ok (w_dev w) \<Longrightarrow> virtio_ok (w_dev (VirtioConsumeChain b q idx n w))"
  by (simp add: VirtioConsumeChain_def virtio_ok_def Let_def)

lemma virtio_ok_reset: "virtio_ok v \<Longrightarrow> (\<And>v. virtio_ok v \<Longrightarrow> virtio_ok (f v)) \<Longrightarrow> virtio_ok (TransportReset f v)"
proof -
  assume a: "virtio_ok v" "\<And>v. virtio_ok v \<Longrightarrow> virtio_ok (f v)"
  show ?thesis unfolding TransportReset_def by (rule a(2)) (use a(1) in \<open>simp add: virtio_ok_def queue_ok_def\<close>)
qed

lemma virtio_ok_init: "n \<le> 256 \<Longrightarrow> virtio_ok (VirtioInit dev vendor features ver n ext)"
  by (simp add: VirtioInit_def TransportReset_def virtio_ok_def queue_ok_def)

text \<open>
  What the transport needs of a backend: its hooks keep the registers legal.
  Every guest access then does.
\<close>

locale virtio_backend =
  fixes K :: "'b VirtioDevice_scheme backend"
  assumes recv_ok: "recv_fn K q idx nrd nwr w = Some (busy, w') \<Longrightarrow> virtio_ok (w_dev w) \<Longrightarrow> virtio_ok (w_dev w')"
    and reset_ok: "virtio_ok v \<Longrightarrow> virtio_ok (reset_hook K v)"
    and config_ok: "virtio_ok v \<Longrightarrow> virtio_ok (config_hook K v)"
begin

lemma drain_ok: "drain_queue K b q avail w = Some w' \<Longrightarrow> virtio_ok (w_dev w) \<Longrightarrow> virtio_ok (w_dev w')"
proof -
  assume d: "drain_queue K b q avail w = Some w'" and o: "virtio_ok (w_dev w)"
  from d have "K = K \<longrightarrow> virtio_ok (w_dev w) \<longrightarrow> virtio_ok (w_dev w')"
  proof (rule drain_queue.raw_induct [where P = "\<lambda>L b q avail w w'. L = K \<longrightarrow> virtio_ok (w_dev w) \<longrightarrow> virtio_ok (w_dev w')", rotated])
    fix f b q avail w w' and L :: "'b VirtioDevice_scheme backend"
    assume 1: "\<And>L b q avail w w'. f L b q avail w = Some w' \<Longrightarrow> L = K \<longrightarrow> virtio_ok (w_dev w) \<longrightarrow> virtio_ok (w_dev w')"
      and 2: "(if last_avail_idx (v_queue (w_dev w) q) = avail then Some w
        else Option.bind (ChainSizes b (w_mem w) (w_dev w) q (avail_head b q w)) (\<lambda>r.
        case r of None \<Rightarrow> f L b q avail (next_avail q w)
        | Some (nrd, nwr) \<Rightarrow> Option.bind (recv_fn L q (avail_head b q w) nrd nwr w) (\<lambda>(busy, w1).
            if busy then Some w1 else f L b q (avail_idx b q w1) (next_avail q w1)))) = Some w'"
    have "virtio_ok (w_dev w')" if 3: "L = K" "virtio_ok (w_dev w)"
    proof (cases "last_avail_idx (v_queue (w_dev w) q) = avail")
      case True
      then show ?thesis using 2 3 by simp
    next
      case False
      then obtain r where r: "ChainSizes b (w_mem w) (w_dev w) q (avail_head b q w) = Some r" using 2 by (auto simp: bind_eq_Some_conv)
      show ?thesis
      proof (cases r)
        case None
        then show ?thesis using 1 [of K b q avail "next_avail q w" w'] 2 3 virtio_ok_next [OF 3(2), of q] False r by simp
      next
        case (Some p)
        obtain nrd nwr where p: "p = (nrd, nwr)" by (cases p)
        obtain busy w1 where w1: "recv_fn K q (avail_head b q w) nrd nwr w = Some (busy, w1)"
          using 2 3(1) False r Some p by (auto simp: bind_eq_Some_conv)
        then have o: "virtio_ok (w_dev w1)" using recv_ok 3(2) by blast
        show ?thesis using 1 [of K b q _ "next_avail q w1" w'] 2 3 False r Some p w1 o virtio_ok_next [OF o, of q]
          by (cases busy) auto
      qed
    qed
    then show "L = K \<longrightarrow> virtio_ok (w_dev w) \<longrightarrow> virtio_ok (w_dev w')" by blast
  qed
  then show ?thesis using o by blast
qed

lemma notify_ok: "VirtioNotifyQueue K b q w = Some w' \<Longrightarrow> virtio_ok (w_dev w) \<Longrightarrow> virtio_ok (w_dev w')"
  by (auto simp: VirtioNotifyQueue_def Let_def intro: drain_ok split: if_splits)

lemma write_ok:
  assumes "MmioWrite K b a sz val w = Some (Some w')" "virtio_ok (w_dev w)"
  shows "virtio_ok (w_dev w')"
proof -
  have c: "virtio_ok (config_hook K ((w_dev w)\<lparr>v_config := f\<rparr>))" for f
    by (rule config_ok) (use assms(2) in \<open>simp add: virtio_ok_def\<close>)
  have r: "virtio_ok (TransportReset (reset_hook K) ((w_dev w)\<lparr>v_status := x\<rparr>))" for x
    by (rule virtio_ok_reset [OF _ reset_ok]) (use assms(2) in \<open>simp_all add: virtio_ok_def\<close>)
  have i: "virtio_ok ((w_dev w)\<lparr>int_status := x\<rparr>)" "virtio_ok ((w_dev w)\<lparr>v_status := x\<rparr>)" for x
    using assms(2) by (simp_all add: virtio_ok_def)
  show ?thesis using assms c r i notify_ok virtio_ok_reg_write [OF assms(2)]
    unfolding MmioWrite_def Let_def by (simp split: if_splits) (auto split: if_splits)
qed

end

end
