(* ===== verification/VirtioDev.thy ===== *)
theory VirtioDev
  imports Virtio
begin

text \<open>
  The virtio backends: disk (virtio_blk.c), console (virtio_console.c) and
  keyboard and tablet (virtio_input.c) of src/src/device/virtio.  Each is a
  record that extends \<open>VirtioDevice\<close>, with its receive handler, its hooks and
  its polling.  The disk image is behind the two operating-system calls that
  the host layer makes, which are arguments.
\<close>

unbundle bit_operations_syntax

section \<open>Disk\<close>

record 'f VirtioBlk = VirtioDevice +
  blk_file :: "'f option"
  blk_sectors :: u64

text \<open>What reading and writing a file of the operating system at a position does.\<close>

record 'f file_ops =
  os_read :: "'f \<Rightarrow> int \<Rightarrow> nat \<Rightarrow> u8 list"
  os_write :: "'f \<Rightarrow> int \<Rightarrow> u8 list \<Rightarrow> nat \<times> 'f"

definition HostFileReadAt :: "'f file_ops \<Rightarrow> 'f \<Rightarrow> int \<Rightarrow> nat \<Rightarrow> u8 list" where
  "HostFileReadAt F f off n = (if n = 0 \<or> off < 0 then [] else take n (os_read F f off n))"

definition HostFileWriteAt :: "'f file_ops \<Rightarrow> 'f \<Rightarrow> int \<Rightarrow> u8 list \<Rightarrow> nat \<times> 'f" where
  "HostFileWriteAt F f off bs = (if bs = [] \<or> off < 0 then (0, f) else os_write F f off bs)"

type_synonym 'f blk_world = "'f VirtioBlk world"

text \<open>A read request: the bytes for the guest, or \<open>None\<close> for an I/O error.\<close>

definition blk_in :: "'f file_ops \<Rightarrow> 'f VirtioBlk \<Rightarrow> u64 \<Rightarrow> u32 \<Rightarrow> u8 list option" where
  "blk_in F v sector data_len =
     (case blk_file v of None \<Rightarrow> None
      | Some f \<Rightarrow> if sint data_len < 0 then None
          else let n = nat (sint data_len); bs = HostFileReadAt F f (sint (sector * 512)) n in
               if length bs \<noteq> n then None else Some bs)"

definition blk_out :: "'f file_ops \<Rightarrow> 'f VirtioBlk \<Rightarrow> u64 \<Rightarrow> bool \<Rightarrow> u8 list \<Rightarrow> bool \<times> 'f VirtioBlk" where
  "blk_out F v sector ok bs =
     (case blk_file v of None \<Rightarrow> (False, v)
      | Some f \<Rightarrow> if \<not> ok then (False, v)
          else let (n, f') = HostFileWriteAt F f (sint (sector * 512)) bs in
               (n = length bs, v\<lparr>blk_file := Some f'\<rparr>))"

definition blk_finish :: "Bus \<Rightarrow> nat \<Rightarrow> u16 \<Rightarrow> u32 \<Rightarrow> u8 \<Rightarrow> 'f blk_world \<Rightarrow> (bool \<times> 'f blk_world) option" where
  "blk_finish b q desc nwr status w =
     map_option (\<lambda>(ok, m). (False, VirtioConsumeChain b q desc nwr (w\<lparr>w_mem := m\<rparr>)))
       (VirtioCopyToChain b (w_mem w) (w_dev w) q desc (nwr - 1) [status])"

definition BlkRecv :: "'f file_ops \<Rightarrow> Bus \<Rightarrow> nat \<Rightarrow> u16 \<Rightarrow> u32 \<Rightarrow> u32 \<Rightarrow> 'f blk_world \<Rightarrow> (bool \<times> 'f blk_world) option" where
  "BlkRecv F b q desc nrd nwr w =
     (if sint nrd < 16 then Some (False, w)
      else Option.bind (VirtioCopyFromChain b (w_mem w) (w_dev w) q desc 0 16) (\<lambda>(ok, h).
        if \<not> ok then Some (False, w)
        else let typ = ucast (le_value (take 4 h)) :: u32; sector = le_value (drop 8 h) in
          if typ = 0 then
            (case blk_in F (w_dev w) sector (nwr - 1) of
               None \<Rightarrow> blk_finish b q desc nwr 1 w
             | Some bs \<Rightarrow>
                 if bs = [] then blk_finish b q desc nwr 0 w
                 else Option.bind (VirtioCopyToChain b (w_mem w) (w_dev w) q desc 0 bs) (\<lambda>(ok2, m).
                   blk_finish b q desc nwr 0 (w\<lparr>w_mem := m\<rparr>)))
          else if typ = 1 then
            Option.bind (VirtioCopyFromChain b (w_mem w) (w_dev w) q desc 16 (nrd - 16)) (\<lambda>(ok2, bs).
              let (done, v1) = blk_out F (w_dev w) sector ok2 bs in
              blk_finish b q desc nwr (if done then 0 else 1) (w\<lparr>w_dev := v1\<rparr>))
          else if typ = 4 then blk_finish b q desc nwr 0 w
          else Some (False, w)))"

definition blk_backend :: "'f file_ops \<Rightarrow> Bus \<Rightarrow> 'f VirtioBlk backend" where
  "blk_backend F b = \<lparr>recv_fn = BlkRecv F b, reset_hook = (\<lambda>v. v), config_hook = (\<lambda>v. v)\<rparr>"

definition blk_new :: "'f \<Rightarrow> u64 \<Rightarrow> int \<Rightarrow> 'f VirtioBlk" where
  "blk_new f bytes src =
     (let cap = bytes div 512 in
      (VirtioInit 2 0x4345554d 0 1 8 \<lparr>blk_file = Some f, blk_sectors = cap\<rparr>)
        \<lparr>v_config := (\<lambda>i. if i < 8 then le_bytes 8 cap ! i else 0), irq_src := src, v_sink := True\<rparr>)"

text \<open>The file is what \<open>HostFileOpenReadWrite\<close> returned, with its size; without one there is no device.\<close>

definition VirtioBlkCreate ::
  "Bus \<Rightarrow> u64 \<Rightarrow> u64 \<Rightarrow> ('f \<times> u64) option \<Rightarrow> int \<Rightarrow> nat \<Rightarrow> nat \<Rightarrow> (Bus \<times> 'f VirtioBlk option) option" where
  "VirtioBlkCreate b base sz file src ops dev =
     (case file of None \<Rightarrow> Some (b, None)
      | Some (f, bytes) \<Rightarrow> with_window b base sz ops dev (Some (blk_new f bytes src)))"

section \<open>Console\<close>

record VirtioConsole = VirtioDevice +
  con_rx :: "nat \<Rightarrow> u8"
  con_head :: nat
  con_count :: nat
  last_tx_poll_us :: int

definition ConsoleRecv :: "Bus \<Rightarrow> nat \<Rightarrow> u16 \<Rightarrow> u32 \<Rightarrow> u32 \<Rightarrow> VirtioConsole world \<Rightarrow> (bool \<times> VirtioConsole world) option" where
  "ConsoleRecv b q desc nrd nwr w =
     (if q \<noteq> 1 then Some (False, w)
      else Option.bind (if 0 < sint nrd then VirtioCopyFromChain b (w_mem w) (w_dev w) q desc 0 nrd else Some (False, []))
        (\<lambda>(ok, bs). let w1 = (if ok then w\<lparr>w_out := w_out w @ bs\<rparr> else w) in
           Some (False, VirtioConsumeChain b q desc 0 w1)))"

definition ConsoleReset :: "VirtioConsole \<Rightarrow> VirtioConsole" where
  "ConsoleReset v = v\<lparr>con_head := 0, con_count := 0\<rparr>"

definition con_backend :: "Bus \<Rightarrow> VirtioConsole backend" where
  "con_backend b = \<lparr>recv_fn = ConsoleRecv b, reset_hook = ConsoleReset, config_hook = (\<lambda>v. v)\<rparr>"

definition set_manual :: "nat \<Rightarrow> 'b VirtioDevice_scheme \<Rightarrow> 'b VirtioDevice_scheme" where
  "set_manual q v = upd_queue q (\<lambda>qs. qs\<lparr>q_manual := True\<rparr>) v"

definition con_new :: "int \<Rightarrow> VirtioConsole" where
  "con_new src =
     (set_manual 0 (VirtioInit 3 0x4345554d 1 1 4 \<lparr>con_rx = (\<lambda>_. 0), con_head = 0, con_count = 0, last_tx_poll_us = 0\<rparr>))
       \<lparr>v_config := (\<lambda>_. 0)(0 := 128, 2 := 48), irq_src := src, v_sink := True\<rparr>"

definition VirtioConsoleCreate :: "Bus \<Rightarrow> u64 \<Rightarrow> u64 \<Rightarrow> int \<Rightarrow> nat \<Rightarrow> nat \<Rightarrow> (Bus \<times> VirtioConsole) option" where
  "VirtioConsoleCreate b base sz src ops dev = with_window b base sz ops dev (con_new src)"

definition VirtioConsoleReceive :: "u8 \<Rightarrow> VirtioConsole \<Rightarrow> VirtioConsole" where
  "VirtioConsoleReceive ch con =
     (if con_count con < 256
      then con\<lparr>con_rx := (con_rx con)((con_head con + con_count con) mod 256 := ch), con_count := con_count con + 1\<rparr>
      else con)"

definition con_take :: "VirtioConsole \<Rightarrow> u8 \<times> VirtioConsole" where
  "con_take con = (con_rx con (con_head con), con\<lparr>con_head := (con_head con + 1) mod 256, con_count := con_count con - 1\<rparr>)"

text \<open>The delivery loop takes one byte off the staging ring each round, so its length bounds it.\<close>

fun con_deliver :: "nat \<Rightarrow> Bus \<Rightarrow> VirtioConsole world \<Rightarrow> VirtioConsole world option" where
  "con_deliver 0 b w = Some w"
| "con_deliver (Suc n) b w =
     (if con_count (w_dev w) = 0 then Some w
      else Option.bind (VirtioManualFill b 0 [fst (con_take (w_dev w))] w) (\<lambda>(k, w1).
        if k = 0 then Some w1 else con_deliver n b (w1\<lparr>w_dev := snd (con_take (w_dev w1))\<rparr>)))"

definition VirtioConsolePoll :: "int \<Rightarrow> Bus \<Rightarrow> VirtioConsole world \<Rightarrow> VirtioConsole world option" where
  "VirtioConsolePoll now b w =
     Option.bind (if 1000 \<le> now - last_tx_poll_us (w_dev w)
                  then VirtioNotifyQueue (con_backend b) b 1 (w\<lparr>w_dev := (w_dev w)\<lparr>last_tx_poll_us := now\<rparr>\<rparr>)
                  else Some w)
       (\<lambda>w1. con_deliver (con_count (w_dev w1)) b w1)"

section \<open>Keyboard and tablet\<close>

datatype VirtioInputType = kVirtioInputKeyboard | kVirtioInputTablet

record VirtioInput = VirtioDevice +
  in_type :: VirtioInputType
  in_buttons :: u32
  in_pending :: "nat \<Rightarrow> u16 \<times> u16 \<times> u32"
  pending_head :: nat
  pending_count :: nat

definition put_cfg :: "nat \<Rightarrow> u8 list \<Rightarrow> (nat \<Rightarrow> u8) \<Rightarrow> nat \<Rightarrow> u8" where
  "put_cfg off bs cfg = (\<lambda>i. if off \<le> i \<and> i < off + length bs then bs ! (i - off) else cfg i)"

definition SetBit :: "nat \<Rightarrow> (nat \<Rightarrow> u8) \<Rightarrow> nat \<Rightarrow> u8" where
  "SetBit k cfg = cfg(8 + k div 8 := cfg (8 + k div 8) OR push_bit (k mod 8) 1)"

definition ascii :: "string \<Rightarrow> u8 list" where
  "ascii s = map (\<lambda>c. of_nat (of_char c)) s"

definition input_name :: "VirtioInputType \<Rightarrow> u8 list" where
  "input_name t = (if t = kVirtioInputKeyboard then ascii ''cemu virtio keyboard'' else ascii ''cemu virtio tablet'')"

definition InputConfigSelected :: "VirtioInput \<Rightarrow> VirtioInput" where
  "InputConfigSelected v =
     (let c0 = put_cfg 8 (replicate 128 0) ((v_config v)(2 := 0)); sel = c0 0; sub = c0 1; kbd = in_type v = kVirtioInputKeyboard in
      v\<lparr>v_config :=
        (if sel = 0x01 then
           (let name = input_name (in_type v) in put_cfg 8 name (c0(2 := of_nat (length name))))
         else if sel = 0x11 then
           (if kbd then
              (if sub = 0x01 then put_cfg 8 (replicate 16 0xff) (c0(2 := 16))
               else if sub = 0x14 then c0(2 := 1) else c0)
            else if sub = 0x01 then SetBit 0x112 (SetBit 0x111 (SetBit 0x110 (c0(2 := 64))))
            else if sub = 0x02 then SetBit 0x08 (c0(2 := 2))
            else if sub = 0x03 then SetBit 0x01 (SetBit 0x00 (c0(2 := 1)))
            else c0)
         else if sel = 0x12 then
           (if \<not> kbd \<and> (sub = 0 \<or> sub = 1)
            then put_cfg 8 (le_bytes 4 0 @ le_bytes 4 0x7fff @ le_bytes 4 0 @ le_bytes 4 0 @ le_bytes 4 0) (c0(2 := 20)) else c0)
         else c0)\<rparr>)"

definition InputRecv :: "Bus \<Rightarrow> nat \<Rightarrow> u16 \<Rightarrow> u32 \<Rightarrow> u32 \<Rightarrow> VirtioInput world \<Rightarrow> (bool \<times> VirtioInput world) option" where
  "InputRecv b q desc nrd nwr w = Some (False, if q = 1 then VirtioConsumeChain b q desc 0 w else w)"

definition input_backend :: "Bus \<Rightarrow> VirtioInput backend" where
  "input_backend b = \<lparr>recv_fn = InputRecv b, reset_hook = (\<lambda>v. v), config_hook = InputConfigSelected\<rparr>"

definition Enqueue :: "u16 \<Rightarrow> u16 \<Rightarrow> u32 \<Rightarrow> VirtioInput \<Rightarrow> VirtioInput" where
  "Enqueue typ code value v =
     (if 64 \<le> pending_count v then v
      else v\<lparr>in_pending := (in_pending v)((pending_head v + pending_count v) mod 64 := (typ, code, value)),
             pending_count := pending_count v + 1\<rparr>)"

definition event_bytes :: "u16 \<times> u16 \<times> u32 \<Rightarrow> u8 list" where
  "event_bytes e = (case e of (typ, code, value) \<Rightarrow> le_bytes 2 (ucast typ) @ le_bytes 2 (ucast code) @ le_bytes 4 (ucast value))"

fun input_deliver :: "nat \<Rightarrow> Bus \<Rightarrow> VirtioInput world \<Rightarrow> VirtioInput world option" where
  "input_deliver 0 b w = Some w"
| "input_deliver (Suc n) b w =
     (let v = w_dev w in
      if pending_count v = 0 then Some w
      else Option.bind (VirtioManualFill b 0 (event_bytes (in_pending v (pending_head v))) w) (\<lambda>(k, w1).
        if k = 0 then Some w1
        else input_deliver n b (w1\<lparr>w_dev := (w_dev w1)\<lparr>pending_head := (pending_head (w_dev w1) + 1) mod 64,
               pending_count := pending_count (w_dev w1) - 1\<rparr>\<rparr>)))"

definition VirtioInputPoll :: "Bus \<Rightarrow> VirtioInput world \<Rightarrow> VirtioInput world option" where
  "VirtioInputPoll b w = input_deliver (pending_count (w_dev w)) b w"

definition VirtioInputKey :: "u16 \<Rightarrow> bool \<Rightarrow> VirtioInput \<Rightarrow> VirtioInput" where
  "VirtioInputKey key down v = Enqueue 0 0 0 (Enqueue 1 key (if down then 1 else 0) v)"

definition clamp_abs :: "int \<Rightarrow> int" where
  "clamp_abs x = (if x < 0 then 0 else if 0x8000 \<le> x then 0x7fff else x)"

definition VirtioInputPointer :: "int \<Rightarrow> int \<Rightarrow> VirtioInput \<Rightarrow> VirtioInput" where
  "VirtioInputPointer x y v =
     Enqueue 0 0 0 (Enqueue 3 1 (word_of_int (clamp_abs y)) (Enqueue 3 0 (word_of_int (clamp_abs x)) v))"

definition VirtioInputWheel :: "int \<Rightarrow> VirtioInput \<Rightarrow> VirtioInput" where
  "VirtioInputWheel notches v = Enqueue 0 0 0 (Enqueue 2 8 (word_of_int notches) v)"

definition VirtioInputButton :: "int \<Rightarrow> bool \<Rightarrow> VirtioInput \<Rightarrow> VirtioInput" where
  "VirtioInputButton k down v =
     (if k < 0 \<or> 2 < k then v
      else let m = push_bit (nat k) 1;
               v1 = v\<lparr>in_buttons := (if down then in_buttons v OR m else in_buttons v AND NOT m)\<rparr> in
           Enqueue 0 0 0 (Enqueue 1 (0x110 + of_int k) (if down then 1 else 0) v1))"

definition input_new :: "VirtioInputType \<Rightarrow> int \<Rightarrow> VirtioInput" where
  "input_new t src =
     (set_manual 0 (VirtioInit 18 0x4345554d (push_bit 32 1) 2 256
        \<lparr>in_type = t, in_buttons = 0, in_pending = (\<lambda>_. (0, 0, 0)), pending_head = 0, pending_count = 0\<rparr>))
       \<lparr>irq_src := src, v_sink := True\<rparr>"

definition VirtioInputCreate ::
  "Bus \<Rightarrow> u64 \<Rightarrow> u64 \<Rightarrow> VirtioInputType \<Rightarrow> int \<Rightarrow> nat \<Rightarrow> nat \<Rightarrow> (Bus \<times> VirtioInput) option" where
  "VirtioInputCreate b base sz t src ops dev = with_window b base sz ops dev (input_new t src)"

section \<open>The backends keep the transport legal\<close>

text \<open>A receive handler recv_keeps the register invariant on every path that returns.\<close>

definition recv_keeps :: "(bool \<times> ('a VirtioDevice_scheme) world) option \<Rightarrow> bool" where
  "recv_keeps r \<longleftrightarrow> (\<forall>x. r = Some x \<longrightarrow> virtio_ok (w_dev (snd x)))"

lemma recv_keeps_Some: "virtio_ok (w_dev w) \<Longrightarrow> recv_keeps (Some (busy, w))"
  by (simp add: recv_keeps_def)

lemma recv_keeps_bind: "(\<And>x. r = Some x \<Longrightarrow> recv_keeps (f x)) \<Longrightarrow> recv_keeps (Option.bind r f)"
  by (cases r) (simp_all add: recv_keeps_def)

lemma recv_keeps_finish: "virtio_ok (w_dev w) \<Longrightarrow> recv_keeps (blk_finish b q desc nwr st w)"
  by (auto simp: blk_finish_def recv_keeps_def virtio_ok_consume)

lemma blk_out_ok: "virtio_ok v \<Longrightarrow> virtio_ok (snd (blk_out F v sector ok bs))"
  by (auto simp: blk_out_def virtio_ok_def Let_def split: option.splits if_splits prod.splits)

lemma recv_keeps_if: "(c \<Longrightarrow> recv_keeps x) \<Longrightarrow> (\<not> c \<Longrightarrow> recv_keeps y) \<Longrightarrow> recv_keeps (if c then x else y)"
  by simp

lemma recv_keeps_option: "recv_keeps x \<Longrightarrow> (\<And>a. recv_keeps (f a)) \<Longrightarrow> recv_keeps (case r of None \<Rightarrow> x | Some a \<Rightarrow> f a)"
  by (cases r) simp_all

lemma recv_keeps_prod: "(\<And>a c. r = (a, c) \<Longrightarrow> recv_keeps (f a c)) \<Longrightarrow> recv_keeps (case r of (a, c) \<Rightarrow> f a c)"
  by (cases r) simp

lemmas recv_keeps_intros = recv_keeps_bind recv_keeps_Some recv_keeps_finish recv_keeps_if recv_keeps_option recv_keeps_prod

lemma recv_keeps_BlkRecv:
  assumes v: "virtio_ok (w_dev w)"
  shows "recv_keeps (BlkRecv F b q desc nrd nwr w)"
proof -
  have "virtio_ok v1" if "blk_out F (w_dev w) sector ok bs = (r, v1)" for sector ok bs r v1
    using blk_out_ok [OF v, of F sector ok bs] that by simp
  then show ?thesis
    unfolding BlkRecv_def Let_def by (intro recv_keeps_intros) (use v in simp_all)
qed

interpretation blk: virtio_backend "blk_backend F b" for F b
proof unfold_locales
  fix q idx nrd nwr w busy w'
  assume "recv_fn (blk_backend F b) q idx nrd nwr w = Some (busy, w')" "virtio_ok (w_dev w)"
  then show "virtio_ok (w_dev w')"
    using recv_keeps_BlkRecv [of w F b q idx nrd nwr] by (simp add: blk_backend_def recv_keeps_def)
qed (simp_all add: blk_backend_def)

interpretation con: virtio_backend "con_backend b" for b
proof unfold_locales
  fix q idx nrd nwr w busy w'
  assume "recv_fn (con_backend b) q idx nrd nwr w = Some (busy, w')" "virtio_ok (w_dev w)"
  then show "virtio_ok (w_dev w')"
    by (auto simp: con_backend_def ConsoleRecv_def Let_def bind_eq_Some_conv virtio_ok_consume split: if_splits)
qed (simp_all add: con_backend_def ConsoleReset_def virtio_ok_def)

interpretation input: virtio_backend "input_backend b" for b
proof unfold_locales
  fix q idx nrd nwr w busy w'
  assume "recv_fn (input_backend b) q idx nrd nwr w = Some (busy, w')" "virtio_ok (w_dev w)"
  then show "virtio_ok (w_dev w')"
    by (auto simp: input_backend_def InputRecv_def virtio_ok_consume)
qed (simp_all add: input_backend_def InputConfigSelected_def virtio_ok_def Let_def)


definition con_world :: "VirtioConsole world" where
  "con_world = \<lparr>w_mem = (\<lambda>_ _. 0), w_dev = con_new 2, w_calls = [], w_out = []\<rparr>"


section \<open>Host events and polls keep the transport legal\<close>

lemma virtio_ok_fill:
  assumes "VirtioManualFill b q buf w = Some (k, w')" "virtio_ok (w_dev w)"
  shows "virtio_ok (w_dev w')"
  using assms
  by (auto simp: VirtioManualFill_def Let_def split: option.splits if_splits intro!: virtio_ok_next virtio_ok_consume)

lemma con_deliver_ok: "con_deliver n b w = Some w' \<Longrightarrow> virtio_ok (w_dev w) \<Longrightarrow> virtio_ok (w_dev w')"
proof (induction n arbitrary: w)
  case (Suc n)
  have t: "virtio_ok (snd (con_take v))" if "virtio_ok v" for v
    using that by (simp add: con_take_def virtio_ok_def)
  from Suc show ?case
    by (auto simp: bind_eq_Some_conv t split: if_splits dest!: virtio_ok_fill intro: Suc.IH)
qed simp

lemma input_deliver_ok: "input_deliver n b w = Some w' \<Longrightarrow> virtio_ok (w_dev w) \<Longrightarrow> virtio_ok (w_dev w')"
proof (induction n arbitrary: w)
  case (Suc n)
  have t: "virtio_ok (v\<lparr>pending_head := x, pending_count := y\<rparr>)" if "virtio_ok v" for v :: VirtioInput and x y
    using that by (simp add: virtio_ok_def)
  from Suc show ?case
    by (auto simp: bind_eq_Some_conv Let_def t split: if_splits dest!: virtio_ok_fill intro: Suc.IH)
qed simp

lemma virtio_ok_poll:
  "VirtioConsolePoll now b wc = Some wc' \<Longrightarrow> virtio_ok (w_dev wc) \<Longrightarrow> virtio_ok (w_dev wc')"
  "VirtioInputPoll b wi = Some wi' \<Longrightarrow> virtio_ok (w_dev wi) \<Longrightarrow> virtio_ok (w_dev wi')"
proof -
  have t: "virtio_ok ((w_dev wc)\<lparr>last_tx_poll_us := now\<rparr>) = virtio_ok (w_dev wc)" by (simp add: virtio_ok_def)
  show "VirtioConsolePoll now b wc = Some wc' \<Longrightarrow> virtio_ok (w_dev wc) \<Longrightarrow> virtio_ok (w_dev wc')"
    by (auto simp: VirtioConsolePoll_def bind_eq_Some_conv t split: if_splits intro: con_deliver_ok dest!: con.notify_ok)
  show "VirtioInputPoll b wi = Some wi' \<Longrightarrow> virtio_ok (w_dev wi) \<Longrightarrow> virtio_ok (w_dev wi')"
    by (auto simp: VirtioInputPoll_def intro: input_deliver_ok)
qed

lemma virtio_ok_events [simp]:
  "virtio_ok (VirtioConsoleReceive ch c) = virtio_ok c" "virtio_ok (Enqueue t k x v) = virtio_ok v"
  "virtio_ok (VirtioInputKey key down v) = virtio_ok v" "virtio_ok (VirtioInputPointer px py v) = virtio_ok v"
  "virtio_ok (VirtioInputWheel n v) = virtio_ok v" "virtio_ok (VirtioInputButton bt down v) = virtio_ok v"
proof -
  have e: "virtio_ok (Enqueue t k x v) = virtio_ok v" for t k x v by (simp add: Enqueue_def virtio_ok_def)
  show "virtio_ok (Enqueue t k x v) = virtio_ok v" "virtio_ok (VirtioInputKey key down v) = virtio_ok v"
    "virtio_ok (VirtioInputPointer px py v) = virtio_ok v" "virtio_ok (VirtioInputWheel n v) = virtio_ok v"
    by (simp_all add: e VirtioInputKey_def VirtioInputPointer_def VirtioInputWheel_def)
  show "virtio_ok (VirtioInputButton bt down v) = virtio_ok v"
    by (simp add: VirtioInputButton_def e Let_def virtio_ok_def [of "v\<lparr>in_buttons := _\<rparr>"] virtio_ok_def [of v])
  show "virtio_ok (VirtioConsoleReceive ch c) = virtio_ok c" by (simp add: VirtioConsoleReceive_def virtio_ok_def)
qed

section \<open>The staging ring of the console\<close>

definition con_ok :: "VirtioConsole \<Rightarrow> bool" where
  "con_ok c \<longleftrightarrow> con_head c < 256 \<and> con_count c \<le> 256"

definition con_content :: "VirtioConsole \<Rightarrow> u8 list" where
  "con_content c = ring 256 (con_rx c) (con_head c) (con_count c)"

interpretation staging: byte_fifo con_ok con_content 256 VirtioConsoleReceive con_take
proof unfold_locales
  fix c b
  assume o: "con_ok c"
  then show "con_ok (VirtioConsoleReceive b c)" by (simp add: con_ok_def VirtioConsoleReceive_def)
  show "con_content (VirtioConsoleReceive b c) = (if length (con_content c) < 256 then con_content c @ [b] else con_content c)"
    using o ring_push [of "con_count c" 256 "con_head c" "con_rx c" b]
    by (auto simp: con_content_def VirtioConsoleReceive_def con_ok_def)
  show "length (con_content c) \<le> 256" using o by (simp add: con_content_def con_ok_def)
  assume "con_content c \<noteq> []"
  then have p: "0 < con_count c" by (simp add: con_content_def)
  show "con_ok (snd (con_take c))" using o p by (auto simp: con_ok_def con_take_def)
  show "con_content c = fst (con_take c) # con_content (snd (con_take c))"
    using o ring_pop [OF p, of "con_head c" 256 "con_rx c"] by (simp add: con_content_def con_take_def con_ok_def)
qed

end
