(* ===== verification/Clock.thy ===== *)
theory Clock
  imports Device
begin

text \<open>
  The emulated clock (src/src/host/time_win.c).  The host counter that
  \<open>HostWallUs\<close> reads is a field that the environment moves; the other fields
  are the static variables of the file.  Times are mathematical integers: a
  64-bit count of microseconds does not overflow in any run, and the counts are
  never negative, so the division of C is \<open>div\<close>.
\<close>

section \<open>The clock\<close>

record HostClock =
  wall_us :: int
  g_warp_us :: int
  g_icount_shift :: int
  g_icount_ns :: int

definition HostTimerNow :: "HostClock \<Rightarrow> int" where
  "HostTimerNow c = (if 0 \<le> g_icount_shift c then g_icount_ns c div 1000 + g_warp_us c else wall_us c + g_warp_us c)"

definition HostTimeRealtime :: "HostClock \<Rightarrow> int" where
  "HostTimeRealtime c = wall_us c"

definition HostTimerIcountEnable :: "int \<Rightarrow> HostClock \<Rightarrow> HostClock" where
  "HostTimerIcountEnable sh c = c\<lparr>g_icount_shift := sh, g_icount_ns := 0\<rparr>"

definition HostTimerIcountOn :: "HostClock \<Rightarrow> bool" where
  "HostTimerIcountOn c \<longleftrightarrow> 0 \<le> g_icount_shift c"

definition HostTimerIcountAdvance :: "HostClock \<Rightarrow> HostClock" where
  "HostTimerIcountAdvance c =
     (if 0 \<le> g_icount_shift c then c\<lparr>g_icount_ns := g_icount_ns c + 2 ^ nat (g_icount_shift c)\<rparr> else c)"

definition HostTimerWarp :: "int \<Rightarrow> HostClock \<Rightarrow> HostClock" where
  "HostTimerWarp us c = (if 0 < us then c\<lparr>g_warp_us := g_warp_us c + us\<rparr> else c)"

text \<open>\<open>slept\<close> is how far the host counter moves during the sleep.\<close>

definition HostSleepMs :: "int \<Rightarrow> int \<Rightarrow> HostClock \<Rightarrow> HostClock" where
  "HostSleepMs slept ms c =
     (let c1 = c\<lparr>wall_us := wall_us c + slept\<rparr> in
      if 0 \<le> g_icount_shift c1 then c1\<lparr>g_icount_ns := g_icount_ns c1 + ms * 1000\<rparr> else c1)"

section \<open>Time does not go back\<close>

inductive clock_step :: "HostClock \<Rightarrow> HostClock \<Rightarrow> bool" where
  tick: "0 \<le> d \<Longrightarrow> clock_step c (c\<lparr>wall_us := wall_us c + d\<rparr>)"
| warp: "clock_step c (HostTimerWarp us c)"
| retire: "clock_step c (HostTimerIcountAdvance c)"
| sleep: "0 \<le> d \<Longrightarrow> 0 \<le> ms \<Longrightarrow> clock_step c (HostSleepMs d ms c)"

lemma clock_step_forward: "clock_step c c' \<Longrightarrow> HostTimerNow c \<le> HostTimerNow c'"
  by (induction rule: clock_step.induct)
    (auto simp: HostTimerNow_def HostTimerWarp_def HostTimerIcountAdvance_def HostSleepMs_def Let_def zdiv_mono1)

lemma clock_forward: "clock_step\<^sup>*\<^sup>* c c' \<Longrightarrow> HostTimerNow c \<le> HostTimerNow c'"
  by (induction rule: rtranclp_induct) (use clock_step_forward in force)+

text \<open>
  C40. The emulated clock never goes back, whatever mix of host time, idle jumps, retired instructions and
  sleeps a run has; and with instruction counting on, a sleep of some milliseconds moves it by as many
  microseconds, a thousandth of the length that was asked for.
\<close>

theorem clock_runs_slow:
  "(\<forall>c c'. clock_step\<^sup>*\<^sup>* c c' \<longrightarrow> HostTimerNow c \<le> HostTimerNow c') \<and>
   (\<forall>c d ms. HostTimerIcountOn c \<longrightarrow> HostTimerNow (HostSleepMs d ms c) = HostTimerNow c + ms)"
proof (intro conjI allI impI)
  show "clock_step\<^sup>*\<^sup>* c c' \<Longrightarrow> HostTimerNow c \<le> HostTimerNow c'" for c c' by (rule clock_forward)
  show "HostTimerNow (HostSleepMs d ms c) = HostTimerNow c + ms" if "HostTimerIcountOn c" for c d ms
    using that by (simp add: HostTimerNow_def HostSleepMs_def HostTimerIcountOn_def Let_def)
qed

definition clock0 :: HostClock where
  "clock0 = HostTimerIcountEnable 3 \<lparr>wall_us = 0, g_warp_us = 0, g_icount_shift = -1, g_icount_ns = 0\<rparr>"

theorem clock_runs_slow_witness:
  "HostTimerNow clock0 \<le> HostTimerNow (HostTimerIcountAdvance clock0) \<and> HostTimerNow (HostSleepMs 1000 1 clock0) = 1"
proof -
  have on: "HostTimerIcountOn clock0" and z: "HostTimerNow clock0 = 0"
    by (simp_all add: HostTimerIcountOn_def HostTimerNow_def clock0_def HostTimerIcountEnable_def)
  show ?thesis
    using clock_runs_slow [THEN conjunct1, rule_format, OF r_into_rtranclp, OF clock_step.retire, of clock0]
      clock_runs_slow [THEN conjunct2, rule_format, OF on, of 1000 1] z by simp
qed

end
