(* ===== verification/Ramfb32.thy ===== *)
theory Ramfb32
  imports Virtio
begin

text \<open>
  The linear frame buffer (src/src/device/video/ramfb32.c): a scanout in guest
  RAM that a poll compares with a shadow copy and converts to the picture of
  the host window.  The two buffers are indexed by byte and by pixel.
\<close>

unbundle bit_operations_syntax

record Ramfb32Device =
  fb_base :: u64
  fb_width :: nat
  fb_height :: nat
  fb_stride :: nat
  fb_px :: "nat \<Rightarrow> u32"
  fb_shadow :: "nat \<Rightarrow> u8"
  shadow_size :: nat
  fb_version :: u32
  fb_last_poll_us :: int

text \<open>
  \<open>mem_ok\<close> says whether both allocations succeed; \<open>garbage\<close> is what
  \<open>malloc\<close> leaves in the shadow.  The \<open>bool\<close> is the success of the call.
\<close>

definition Ramfb32Init :: "bool \<Rightarrow> (nat \<Rightarrow> u8) \<Rightarrow> u64 \<Rightarrow> nat \<Rightarrow> nat \<Rightarrow> nat \<Rightarrow> bool \<times> Ramfb32Device" where
  "Ramfb32Init mem_ok garbage base w h stride =
     (mem_ok, \<lparr>fb_base = base, fb_width = w, fb_height = h, fb_stride = stride, fb_px = (\<lambda>_. 0), fb_shadow = garbage,
        shadow_size = stride * h, fb_version = 0, fb_last_poll_us = 0\<rparr>)"

text \<open>
  The scan, page by page; a page that is not RAM ends it with \<open>None\<close> as the
  verdict, and the shadow keeps the pages before it.
\<close>

function fb_scan :: "Bus \<Rightarrow> hmem \<Rightarrow> u64 \<Rightarrow> nat \<Rightarrow> nat \<Rightarrow> bool \<Rightarrow> (nat \<Rightarrow> u8) \<Rightarrow> bool option \<times> (nat \<Rightarrow> u8)" where
  "fb_scan b m base n checked changed sh =
     (if n \<le> checked then (Some changed, sh)
      else let len = page_part (base + of_nat checked) (n - checked) in
        case BusRamRange b (base + of_nat checked) (of_nat len) of None \<Rightarrow> (None, sh)
        | Some (blk, off) \<Rightarrow>
            let host = (\<lambda>i. m blk (off + of_nat (i - checked)));
                differ = list_ex (\<lambda>i. host i \<noteq> sh i) [checked..<checked + len] in
            fb_scan b m base n (checked + len) (changed \<or> differ)
              (if differ then (\<lambda>i. if checked \<le> i \<and> i < checked + len then host i else sh i) else sh))"
  by pat_completeness auto
termination
  by (relation "measure (\<lambda>(b, m, base, n, checked, changed, sh). n - checked)") (use page_part_pos in \<open>auto intro!: diff_less_mono2\<close>)

definition xrgb :: "(nat \<Rightarrow> u8) \<Rightarrow> nat \<Rightarrow> u32" where
  "xrgb src k = 0xff000000 OR push_bit 16 (ucast (src (k + 2))) OR push_bit 8 (ucast (src (k + 1))) OR ucast (src k)"

definition Ramfb32Poll :: "int \<Rightarrow> Bus \<Rightarrow> hmem \<Rightarrow> Ramfb32Device \<Rightarrow> Ramfb32Device" where
  "Ramfb32Poll now b m d =
     (if now - fb_last_poll_us d < 33333 then d
      else case fb_scan b m (fb_base d) (shadow_size d) 0 False (fb_shadow d) of
        (verdict, sh) \<Rightarrow>
          (let d1 = d\<lparr>fb_last_poll_us := now, fb_shadow := sh\<rparr> in
           if verdict \<noteq> Some True then d1
           else d1\<lparr>fb_px := (\<lambda>k. if k < fb_width d * fb_height d
                              then xrgb sh (k div fb_width d * fb_stride d + 4 * (k mod fb_width d)) else fb_px d k),
                   fb_version := fb_version d + 1\<rparr>))"

end
