(* ===== verification/Fdt.thy ===== *)
theory Fdt
  imports Virtio
begin

text \<open>
  The two edits that the virt board makes to the flattened device tree it
  hands to the firmware (src/src/board/virt.c, \<open>PatchDtbMemorySize\<close> and
  \<open>PatchDtbChosenProp\<close>).  The blob is a function from offsets to bytes; the
  loops over its tokens and strings end only on a blob that ends them, so they
  are \<open>partial_function (option)\<close> with \<open>None\<close> for a loop that never returns.
  Offsets are natural numbers: the blob is far below the range of \<open>size_t\<close>.
\<close>

unbundle bit_operations_syntax

type_synonym blob = "nat \<Rightarrow> u8"

section \<open>Big-endian cells and strings\<close>

definition Be32 :: "blob \<Rightarrow> nat \<Rightarrow> u32" where
  "Be32 d p = push_bit 24 (ucast (d p)) OR push_bit 16 (ucast (d (p + 1))) OR push_bit 8 (ucast (d (p + 2))) OR ucast (d (p + 3))"

definition PutBe64 :: "nat \<Rightarrow> u64 \<Rightarrow> blob \<Rightarrow> blob" where
  "PutBe64 p v d = (\<lambda>i. if p \<le> i \<and> i < p + 8 then ucast (drop_bit (56 - 8 * (i - p)) v) else d i)"

definition PutBe32 :: "nat \<Rightarrow> u32 \<Rightarrow> blob \<Rightarrow> blob" where
  "PutBe32 p v d = d(p := ucast (drop_bit 24 v), p + 1 := ucast (drop_bit 16 v), p + 2 := ucast (drop_bit 8 v), p + 3 := ucast v)"

partial_function (option) strlen :: "blob \<Rightarrow> nat \<Rightarrow> nat \<Rightarrow> nat option" where
  "strlen d p n = (if d (p + n) = 0 then Some n else strlen d p (n + 1))"

definition starts :: "blob \<Rightarrow> nat \<Rightarrow> u8 list \<Rightarrow> bool" where
  "starts d p s \<longleftrightarrow> list_all (\<lambda>i. d (p + i) = s ! i) [0..<length s]"

definition same_string :: "blob \<Rightarrow> nat \<Rightarrow> u8 list \<Rightarrow> bool" where
  "same_string d p s \<longleftrightarrow> starts d p (s @ [0])"

definition align4 :: "nat \<Rightarrow> nat" where
  "align4 n = (n + 3) div 4 * 4"

definition memmove :: "nat \<Rightarrow> nat \<Rightarrow> nat \<Rightarrow> blob \<Rightarrow> blob" where
  "memmove dst src n d = (\<lambda>i. if dst \<le> i \<and> i < dst + n then d (src + (i - dst)) else d i)"

definition put_string :: "nat \<Rightarrow> u8 list \<Rightarrow> blob \<Rightarrow> blob" where
  "put_string p s d = (\<lambda>i. if p \<le> i \<and> i < p + length s then s ! (i - p) else d i)"

section \<open>The size of the memory node\<close>

text \<open>The names \<open>memory@\<close> and \<open>reg\<close> as bytes.\<close>

definition s_memory :: "u8 list" where "s_memory = [0x6d, 0x65, 0x6d, 0x6f, 0x72, 0x79, 0x40]"
definition s_reg :: "u8 list" where "s_reg = [0x72, 0x65, 0x67]"
definition s_chosen :: "u8 list" where "s_chosen = [0x63, 0x68, 0x6f, 0x73, 0x65, 0x6e]"

partial_function (option) memory_walk :: "nat \<Rightarrow> u64 \<Rightarrow> blob \<Rightarrow> nat \<Rightarrow> int \<Rightarrow> bool \<Rightarrow> blob option" where
  "memory_walk strings sz d pos depth inm =
     (let tok = Be32 d pos; pos1 = pos + 4 in
      if tok = 1 then
        Option.bind (strlen d pos1 0) (\<lambda>n.
          memory_walk strings sz d (align4 (pos1 + n + 1)) (depth + 1) (inm \<or> depth = 1 \<and> starts d pos1 s_memory))
      else if tok = 2 then memory_walk strings sz d pos1 (depth - 1) (inm \<and> 1 < depth - 1)
      else if tok = 3 then
        (let len = Be32 d pos1; nameoff = Be32 d (pos1 + 4);
             d1 = (if inm \<and> same_string d (strings + unat nameoff) s_reg \<and> 16 \<le> len then PutBe64 (pos1 + 16) sz d else d) in
         memory_walk strings sz d1 (align4 (pos1 + 8 + unat len)) depth inm)
      else if tok \<noteq> 4 then Some d
      else memory_walk strings sz d pos1 depth inm)"

definition PatchDtbMemorySize :: "u64 \<Rightarrow> blob \<Rightarrow> blob option" where
  "PatchDtbMemorySize bytes d =
     memory_walk (unat (Be32 d 12)) (min bytes 0x0C000000) d (unat (Be32 d 8)) 0 False"

section \<open>A property of the chosen node\<close>

text \<open>The walk returns the place to insert at, zero when there is none, and whether the property exists.\<close>

partial_function (option) chosen_walk ::
  "nat \<Rightarrow> u8 list \<Rightarrow> blob \<Rightarrow> nat \<Rightarrow> int \<Rightarrow> bool \<Rightarrow> nat \<Rightarrow> bool \<Rightarrow> (nat \<times> bool) option" where
  "chosen_walk strings name d pos depth inc at have =
     (let tok = Be32 d pos; pos1 = pos + 4 in
      if tok = 1 then
        Option.bind (strlen d pos1 0) (\<lambda>n.
          chosen_walk strings name d (align4 (pos1 + n + 1)) (depth + 1) (inc \<or> depth = 1 \<and> same_string d pos1 s_chosen) at have)
      else if tok = 2 then
        (let at1 = (if inc \<and> depth - 1 = 1 then pos1 - 4 else at) in
         if depth - 1 = 0 then Some (at1, have) else chosen_walk strings name d pos1 (depth - 1) False at1 have)
      else if tok = 3 then
        (let len = Be32 d pos1; nameoff = Be32 d (pos1 + 4) in
         chosen_walk strings name d (align4 (pos1 + 8 + unat len)) depth inc at
           (have \<or> inc \<and> depth = 2 \<and> same_string d (strings + unat nameoff) name))
      else if tok \<noteq> 4 then Some (at, have)
      else chosen_walk strings name d pos1 depth inc at have)"

text \<open>The edit at the place found; the strings are given without their terminators.\<close>

definition insert_prop :: "nat \<Rightarrow> u8 list \<Rightarrow> u8 list \<Rightarrow> blob \<Rightarrow> blob" where
  "insert_prop at name val d =
     (let strings = unat (Be32 d 12); totalsize = unat (Be32 d 4); size_strings = unat (Be32 d 32); size_struct = unat (Be32 d 36);
          vlen = length val + 1; prop_len = 12 + align4 vlen; name_len = length name + 1;
          d1 = memmove (strings + prop_len) strings (totalsize - strings) d;
          d2 = memmove (at + prop_len) at (strings - at) d1;
          d3 = PutBe32 (at + 8) (of_nat size_strings) (PutBe32 (at + 4) (of_nat vlen) (PutBe32 at 3 d2));
          d4 = put_string (strings + prop_len + size_strings) (name @ [0]) (put_string (at + 12) (val @ [0]) d3) in
      PutBe32 36 (of_nat (size_struct + prop_len)) (PutBe32 32 (of_nat (size_strings + name_len))
        (PutBe32 12 (of_nat (strings + prop_len)) (PutBe32 4 (of_nat (totalsize + prop_len + name_len)) d4))))"

definition PatchDtbChosenProp :: "u8 list \<Rightarrow> u8 list \<Rightarrow> blob \<Rightarrow> (bool \<times> blob) option" where
  "PatchDtbChosenProp name val d =
     Option.bind (chosen_walk (unat (Be32 d 12)) name d (unat (Be32 d 8)) 0 False 0 False) (\<lambda>(at, have).
       Some (if at = 0 \<or> have then (False, d) else (True, insert_prop at name val d)))"

end
