(* ===== verification/Fp.thy ===== *)
theory Fp
  imports Cemu_Prelude
begin

text \<open>
  The floating-point back end (src/src/cpu/isa/riscv64/fp.c).  Registers hold
  bit patterns; classification, comparison, sign injection, minimum and
  maximum, overflow results and the step to the next representable number
  are computed on the bits.  The rounding arithmetic of the host processor
  (float and double operations, the 80-bit \<open>long double\<close> and its conversions)
  is the argument \<open>H\<close>, of type \<open>'l host_fp\<close>, where \<open>'l\<close> is the type of
  \<open>long double\<close> values.  Every operation takes the accrued flags \<open>fflags\<close>
  last and returns the result with the new flags; \<open>None\<close> is the \<open>Fatal\<close> of
  a bad operation selector.
\<close>

section \<open>Selectors, flags and rounding modes\<close>

datatype fp_kind = kFpAdd | kFpSub | kFpMul | kFpDiv | kFpEq | kFpLt | kFpLe

abbreviation (input) kFflagNX :: u8 where "kFflagNX \<equiv> 1"
abbreviation (input) kFflagUF :: u8 where "kFflagUF \<equiv> 2"
abbreviation (input) kFflagOF :: u8 where "kFflagOF \<equiv> 4"
abbreviation (input) kFflagDZ :: u8 where "kFflagDZ \<equiv> 8"
abbreviation (input) kFflagNV :: u8 where "kFflagNV \<equiv> 16"

abbreviation (input) kRmRne :: nat where "kRmRne \<equiv> 0"
abbreviation (input) kRmRtz :: nat where "kRmRtz \<equiv> 1"
abbreviation (input) kRmRdn :: nat where "kRmRdn \<equiv> 2"
abbreviation (input) kRmRup :: nat where "kRmRup \<equiv> 3"
abbreviation (input) kRmRmm :: nat where "kRmRmm \<equiv> 4"
abbreviation (input) kRmDyn :: nat where "kRmDyn \<equiv> 7"

abbreviation (input) kBoxMask :: u64 where "kBoxMask \<equiv> 0xffffffff00000000"
abbreviation (input) kQnan64 :: u64 where "kQnan64 \<equiv> 0x7ff8000000000000"
abbreviation (input) kQnan32 :: u32 where "kQnan32 \<equiv> 0x7fc00000"

section \<open>The host's arithmetic\<close>

record 'l host_fp =
  h32_add :: "u32 \<Rightarrow> u32 \<Rightarrow> u32"
  h32_sub :: "u32 \<Rightarrow> u32 \<Rightarrow> u32"
  h32_mul :: "u32 \<Rightarrow> u32 \<Rightarrow> u32"
  h32_div :: "u32 \<Rightarrow> u32 \<Rightarrow> u32"
  h32_sqrt :: "u32 \<Rightarrow> u32"
  h32_fma :: "u32 \<Rightarrow> u32 \<Rightarrow> u32 \<Rightarrow> u32"
  h64_add :: "u64 \<Rightarrow> u64 \<Rightarrow> u64"
  h64_sub :: "u64 \<Rightarrow> u64 \<Rightarrow> u64"
  h64_mul :: "u64 \<Rightarrow> u64 \<Rightarrow> u64"
  h64_div :: "u64 \<Rightarrow> u64 \<Rightarrow> u64"
  h64_sqrt :: "u64 \<Rightarrow> u64"
  h64_fma :: "u64 \<Rightarrow> u64 \<Rightarrow> u64 \<Rightarrow> u64"
  ld_of32 :: "u32 \<Rightarrow> 'l"
  ld_of64 :: "u64 \<Rightarrow> 'l"
  ld_of_int :: "int \<Rightarrow> 'l"
  ld_to32 :: "'l \<Rightarrow> u32"
  ld_to64 :: "'l \<Rightarrow> u64"
  ld_to_int :: "'l \<Rightarrow> int"
  ld_add :: "'l \<Rightarrow> 'l \<Rightarrow> 'l"
  ld_sub :: "'l \<Rightarrow> 'l \<Rightarrow> 'l"
  ld_mul :: "'l \<Rightarrow> 'l \<Rightarrow> 'l"
  ld_div :: "'l \<Rightarrow> 'l \<Rightarrow> 'l"
  ld_sqrt :: "'l \<Rightarrow> 'l"
  ld_abs :: "'l \<Rightarrow> 'l"
  ld_eq :: "'l \<Rightarrow> 'l \<Rightarrow> bool"
  ld_lt :: "'l \<Rightarrow> 'l \<Rightarrow> bool"
  ld_isnan :: "'l \<Rightarrow> bool"
  ld_isinf :: "'l \<Rightarrow> bool"
  ld_trunc :: "'l \<Rightarrow> 'l"
  ld_floor :: "'l \<Rightarrow> 'l"
  ld_ceil :: "'l \<Rightarrow> 'l"
  ld_round :: "'l \<Rightarrow> 'l"
  ld_nearbyint :: "'l \<Rightarrow> 'l"
  ld_dbl_min :: 'l

section \<open>Bit patterns\<close>

definition Box32 :: "u32 \<Rightarrow> u64" where
  "Box32 v = kBoxMask OR ucast v"

definition IsBoxed :: "u64 \<Rightarrow> bool" where
  "IsBoxed v \<longleftrightarrow> drop_bit 32 v = 0xffffffff"

definition Float32 :: "u64 \<Rightarrow> u32" where
  "Float32 v = ucast v"

definition IsSnanF :: "u32 \<Rightarrow> bool" where
  "IsSnanF v \<longleftrightarrow> drop_bit 23 v AND 0xff = 0xff \<and> v AND 0x7fffff \<noteq> 0 \<and> v AND 0x400000 = 0"

definition IsSnanD :: "u64 \<Rightarrow> bool" where
  "IsSnanD v \<longleftrightarrow> drop_bit 52 v AND 0x7ff = 0x7ff \<and> v AND 0xfffffffffffff \<noteq> 0 \<and>
     v AND 0x8000000000000 = 0"

definition MinNormalF :: u32 where
  "MinNormalF = 0x00800000"

text \<open>
  The C library's view of a pattern: \<open>isnan\<close>, \<open>isinf\<close>, \<open>isfinite\<close>, the
  comparisons, and \<open>nextafter\<close>.  A number that is not a NaN is ordered by its
  sign and magnitude, with the two zeros equal.
\<close>

definition isnan32 :: "u32 \<Rightarrow> bool" where
  "isnan32 v \<longleftrightarrow> 0x7f800000 < v AND 0x7fffffff"

definition isinf32 :: "u32 \<Rightarrow> bool" where
  "isinf32 v \<longleftrightarrow> v AND 0x7fffffff = 0x7f800000"

definition key32 :: "u32 \<Rightarrow> int" where
  "key32 v = (if bit v 31 then - uint (v AND 0x7fffffff) else uint (v AND 0x7fffffff))"

definition lt32 :: "u32 \<Rightarrow> u32 \<Rightarrow> bool" where
  "lt32 a b \<longleftrightarrow> \<not> isnan32 a \<and> \<not> isnan32 b \<and> key32 a < key32 b"

definition eq32 :: "u32 \<Rightarrow> u32 \<Rightarrow> bool" where
  "eq32 a b \<longleftrightarrow> \<not> isnan32 a \<and> \<not> isnan32 b \<and> key32 a = key32 b"

definition isnan64 :: "u64 \<Rightarrow> bool" where
  "isnan64 v \<longleftrightarrow> 0x7ff0000000000000 < v AND 0x7fffffffffffffff"

definition isinf64 :: "u64 \<Rightarrow> bool" where
  "isinf64 v \<longleftrightarrow> v AND 0x7fffffffffffffff = 0x7ff0000000000000"

definition key64 :: "u64 \<Rightarrow> int" where
  "key64 v = (if bit v 63 then - uint (v AND 0x7fffffffffffffff)
     else uint (v AND 0x7fffffffffffffff))"

definition lt64 :: "u64 \<Rightarrow> u64 \<Rightarrow> bool" where
  "lt64 a b \<longleftrightarrow> \<not> isnan64 a \<and> \<not> isnan64 b \<and> key64 a < key64 b"

definition eq64 :: "u64 \<Rightarrow> u64 \<Rightarrow> bool" where
  "eq64 a b \<longleftrightarrow> \<not> isnan64 a \<and> \<not> isnan64 b \<and> key64 a = key64 b"

definition nextafterf :: "'l host_fp \<Rightarrow> u32 \<Rightarrow> u32 \<Rightarrow> u32" where
  "nextafterf H a b =
     (if isnan32 a \<or> isnan32 b then h32_add H a b
      else if eq32 a b then b
      else if key32 a = 0 then (if 0 < key32 b then 1 else 0x80000001)
      else if lt32 a b = (0 < key32 a) then a + 1 else a - 1)"

definition nextafter :: "'l host_fp \<Rightarrow> u64 \<Rightarrow> u64 \<Rightarrow> u64" where
  "nextafter H a b =
     (if isnan64 a \<or> isnan64 b then h64_add H a b
      else if eq64 a b then b
      else if key64 a = 0 then (if 0 < key64 b then 1 else 0x8000000000000001)
      else if lt64 a b = (0 < key64 a) then a + 1 else a - 1)"

abbreviation (input) kInf32 :: u32 where "kInf32 \<equiv> 0x7f800000"
abbreviation (input) kNegInf32 :: u32 where "kNegInf32 \<equiv> 0xff800000"
abbreviation (input) kInf64 :: u64 where "kInf64 \<equiv> 0x7ff0000000000000"
abbreviation (input) kNegInf64 :: u64 where "kNegInf64 \<equiv> 0xfff0000000000000"

section \<open>Rounding\<close>

definition RoundSAdjust :: "'l host_fp \<Rightarrow> u32 \<Rightarrow> 'l \<Rightarrow> nat \<Rightarrow> u8 \<Rightarrow> u32 \<times> u8" where
  "RoundSAdjust H r e rm fl =
     (if ld_eq H (ld_of32 H r) e then (r, fl)
      else let fl' = fl OR kFflagNX in
       (if rm = kRmRne then (r, fl')
        else if rm = kRmRup then
          (if ld_lt H (ld_of32 H r) e then nextafterf H r kInf32 else r, fl')
        else if rm = kRmRdn then
          (if ld_lt H e (ld_of32 H r) then nextafterf H r kNegInf32 else r, fl')
        else if rm = kRmRtz then
          (if lt32 0 r \<and> ld_lt H e (ld_of32 H r) \<or> lt32 r 0 \<and> ld_lt H (ld_of32 H r) e
           then nextafterf H r (if lt32 0 r then kNegInf32 else kInf32) else r, fl')
        else if rm = kRmRmm then
          (let toward = nextafterf H r (ld_to32 H e) in
           if ld_eq H (ld_abs H (ld_sub H e (ld_of32 H toward)))
                (ld_abs H (ld_sub H e (ld_of32 H r))) \<and>
              ld_lt H (ld_abs H (ld_of32 H r)) (ld_abs H (ld_of32 H toward))
           then (toward, fl') else (r, fl'))
        else (r, fl')))"

definition RoundDAdjust :: "'l host_fp \<Rightarrow> u64 \<Rightarrow> 'l \<Rightarrow> nat \<Rightarrow> u8 \<Rightarrow> u64 \<times> u8" where
  "RoundDAdjust H r e rm fl =
     (if ld_eq H (ld_of64 H r) e then (r, fl)
      else let fl' = fl OR kFflagNX in
       (if rm = kRmRne then (r, fl')
        else if rm = kRmRup then
          (if ld_lt H (ld_of64 H r) e then nextafter H r kInf64 else r, fl')
        else if rm = kRmRdn then
          (if ld_lt H e (ld_of64 H r) then nextafter H r kNegInf64 else r, fl')
        else if rm = kRmRtz then
          (if lt64 0 r \<and> ld_lt H e (ld_of64 H r) \<or> lt64 r 0 \<and> ld_lt H (ld_of64 H r) e
           then nextafter H r (if lt64 0 r then kNegInf64 else kInf64) else r, fl')
        else if rm = kRmRmm then
          (let toward = nextafter H r (ld_to64 H e) in
           if ld_eq H (ld_abs H (ld_sub H e (ld_of64 H toward)))
                (ld_abs H (ld_sub H e (ld_of64 H r))) \<and>
              ld_lt H (ld_abs H (ld_of64 H r)) (ld_abs H (ld_of64 H toward))
           then (toward, fl') else (r, fl'))
        else (r, fl')))"

definition OverflowResult32 :: "bool \<Rightarrow> nat \<Rightarrow> u32" where
  "OverflowResult32 negative rm =
     (let inf = (if negative then 0xff800000 else 0x7f800000);
          mx = (if negative then 0xff7fffff else 0x7f7fffff) in
      if rm = kRmRne \<or> rm = kRmRmm then inf
      else if rm = kRmRtz then mx
      else if rm = kRmRup then (if negative then mx else inf)
      else if rm = kRmRdn then (if negative then inf else mx)
      else inf)"

definition OverflowResult64 :: "bool \<Rightarrow> nat \<Rightarrow> u64" where
  "OverflowResult64 negative rm =
     (let inf = (if negative then 0xfff0000000000000 else 0x7ff0000000000000);
          mx = (if negative then 0xffefffffffffffff else 0x7fefffffffffffff) in
      if rm = kRmRne \<or> rm = kRmRmm then inf
      else if rm = kRmRtz then mx
      else if rm = kRmRup then (if negative then mx else inf)
      else if rm = kRmRdn then (if negative then inf else mx)
      else inf)"

definition FinishS :: "'l host_fp \<Rightarrow> u32 \<Rightarrow> 'l \<Rightarrow> nat \<Rightarrow> u8 \<Rightarrow> u64 \<times> u8" where
  "FinishS H r e rm fl =
     (if isnan32 r then (Box32 kQnan32, fl OR kFflagNV)
      else if isinf32 r \<and> \<not> isinf64 (ld_to64 H e)
      then (Box32 (OverflowResult32 (lt32 r 0) rm), fl OR (kFflagOF OR kFflagNX))
      else let fl1 = (if \<not> ld_eq H e (ld_of_int H 0) \<and>
                         ld_lt H (ld_abs H e) (ld_of32 H MinNormalF) \<and> \<not> ld_eq H (ld_of32 H r) e
                      then fl OR (kFflagUF OR kFflagNX) else fl);
               (r', fl2) = RoundSAdjust H r e rm fl1 in (Box32 r', fl2))"

definition FinishD :: "'l host_fp \<Rightarrow> u64 \<Rightarrow> 'l \<Rightarrow> nat \<Rightarrow> u8 \<Rightarrow> u64 \<times> u8" where
  "FinishD H r e rm fl =
     (if isnan64 r then (kQnan64, fl OR kFflagNV)
      else if isinf64 r \<and> \<not> ld_isinf H e
      then (OverflowResult64 (lt64 r 0) rm, fl OR (kFflagOF OR kFflagNX))
      else let fl1 = (if \<not> ld_eq H e (ld_of_int H 0) \<and>
                         ld_lt H (ld_abs H e) (ld_dbl_min H) \<and> \<not> ld_eq H (ld_of64 H r) e
                      then fl OR (kFflagUF OR kFflagNX) else fl)
           in RoundDAdjust H r e rm fl1)"

section \<open>Arithmetic\<close>

definition RiscvFpBinaryS ::
  "'l host_fp \<Rightarrow> u64 \<Rightarrow> u64 \<Rightarrow> fp_kind \<Rightarrow> nat \<Rightarrow> u8 \<Rightarrow> (u64 \<times> u8) option" where
  "RiscvFpBinaryS H ra rb kind rm fl =
     (if \<not> IsBoxed ra \<or> \<not> IsBoxed rb then Some (Box32 kQnan32, fl OR kFflagNV)
      else let a = Float32 ra; b = Float32 rb; la = ld_of32 H a; lb = ld_of32 H b;
               fl1 = (if IsSnanF a \<or> IsSnanF b then fl OR kFflagNV else fl) in
       (case kind of
          kFpAdd \<Rightarrow> Some (FinishS H (h32_add H a b) (ld_add H la lb) rm fl1)
        | kFpSub \<Rightarrow> Some (FinishS H (h32_sub H a b) (ld_sub H la lb) rm fl1)
        | kFpMul \<Rightarrow> Some (FinishS H (h32_mul H a b) (ld_mul H la lb) rm fl1)
        | kFpDiv \<Rightarrow>
            (if eq32 b 0 \<and> \<not> isnan32 a \<and> \<not> isinf32 a \<and> \<not> eq32 a 0
             then Some (Box32 (h32_div H a b), fl1 OR kFflagDZ)
             else Some (FinishS H (h32_div H a b) (ld_div H la lb) rm fl1))
        | _ \<Rightarrow> None))"

definition RiscvFpBinaryD ::
  "'l host_fp \<Rightarrow> u64 \<Rightarrow> u64 \<Rightarrow> fp_kind \<Rightarrow> nat \<Rightarrow> u8 \<Rightarrow> (u64 \<times> u8) option" where
  "RiscvFpBinaryD H a b kind rm fl =
     (let la = ld_of64 H a; lb = ld_of64 H b;
          fl1 = (if IsSnanD a \<or> IsSnanD b then fl OR kFflagNV else fl) in
       (case kind of
          kFpAdd \<Rightarrow> Some (FinishD H (h64_add H a b) (ld_add H la lb) rm fl1)
        | kFpSub \<Rightarrow> Some (FinishD H (h64_sub H a b) (ld_sub H la lb) rm fl1)
        | kFpMul \<Rightarrow> Some (FinishD H (h64_mul H a b) (ld_mul H la lb) rm fl1)
        | kFpDiv \<Rightarrow>
            (if eq64 b 0 \<and> \<not> isnan64 a \<and> \<not> isinf64 a \<and> \<not> eq64 a 0
             then Some (h64_div H a b, fl1 OR kFflagDZ)
             else Some (FinishD H (h64_div H a b) (ld_div H la lb) rm fl1))
        | _ \<Rightarrow> None))"

definition RiscvFpSqrtS :: "'l host_fp \<Rightarrow> u64 \<Rightarrow> nat \<Rightarrow> u8 \<Rightarrow> u64 \<times> u8" where
  "RiscvFpSqrtS H ra rm fl =
     (if \<not> IsBoxed ra then (Box32 kQnan32, fl OR kFflagNV)
      else let a = Float32 ra; fl1 = (if IsSnanF a then fl OR kFflagNV else fl) in
       if lt32 a 0 \<and> \<not> isnan32 a then (Box32 kQnan32, fl1 OR kFflagNV)
       else FinishS H (h32_sqrt H a) (ld_sqrt H (ld_of32 H a)) rm fl1)"

definition RiscvFpSqrtD :: "'l host_fp \<Rightarrow> u64 \<Rightarrow> nat \<Rightarrow> u8 \<Rightarrow> u64 \<times> u8" where
  "RiscvFpSqrtD H a rm fl =
     (let fl1 = (if IsSnanD a then fl OR kFflagNV else fl) in
      if lt64 a 0 \<and> \<not> isnan64 a then (kQnan64, fl1 OR kFflagNV)
      else FinishD H (h64_sqrt H a) (ld_sqrt H (ld_of64 H a)) rm fl1)"

definition RiscvFpFmaS :: "'l host_fp \<Rightarrow> u64 \<Rightarrow> u64 \<Rightarrow> u64 \<Rightarrow> nat \<Rightarrow> u8 \<Rightarrow> u64 \<times> u8" where
  "RiscvFpFmaS H ra rb rc rm fl =
     (if \<not> IsBoxed ra \<or> \<not> IsBoxed rb \<or> \<not> IsBoxed rc then (Box32 kQnan32, fl OR kFflagNV)
      else let a = Float32 ra; b = Float32 rb; c = Float32 rc;
               fl1 = (if IsSnanF a \<or> IsSnanF b \<or> IsSnanF c then fl OR kFflagNV else fl) in
       FinishS H (h32_fma H a b c)
         (ld_add H (ld_mul H (ld_of32 H a) (ld_of32 H b)) (ld_of32 H c)) rm fl1)"

definition RiscvFpFmaD :: "'l host_fp \<Rightarrow> u64 \<Rightarrow> u64 \<Rightarrow> u64 \<Rightarrow> nat \<Rightarrow> u8 \<Rightarrow> u64 \<times> u8" where
  "RiscvFpFmaD H a b c rm fl =
     (let fl1 = (if IsSnanD a \<or> IsSnanD b \<or> IsSnanD c then fl OR kFflagNV else fl) in
      FinishD H (h64_fma H a b c)
        (ld_add H (ld_mul H (ld_of64 H a) (ld_of64 H b)) (ld_of64 H c)) rm fl1)"

section \<open>Minimum, maximum and comparison\<close>

definition MinMaxS :: "u64 \<Rightarrow> u64 \<Rightarrow> bool \<Rightarrow> u8 \<Rightarrow> u64 \<times> u8" where
  "MinMaxS ra rb is_max fl =
     (let a = (if IsBoxed ra then Float32 ra else Float32 (Box32 kQnan32));
          b = (if IsBoxed rb then Float32 rb else Float32 (Box32 kQnan32));
          fl1 = (if IsSnanF (Float32 ra) \<or> IsSnanF (Float32 rb) then fl OR kFflagNV else fl) in
      if isnan32 a \<and> \<not> isnan32 b then (Box32 b, fl1)
      else if \<not> isnan32 a \<and> isnan32 b then (Box32 a, fl1)
      else if isnan32 a \<and> isnan32 b then (Box32 kQnan32, fl1)
      else if eq32 a 0 \<and> eq32 b 0 then (Box32 (if is_max then 0 else 0x80000000), fl1)
      else (Box32 (if is_max then (if lt32 b a then a else b) else (if lt32 a b then a else b)), fl1))"

definition MinMaxD :: "u64 \<Rightarrow> u64 \<Rightarrow> bool \<Rightarrow> u8 \<Rightarrow> u64 \<times> u8" where
  "MinMaxD a b is_max fl =
     (let fl1 = (if IsSnanD a \<or> IsSnanD b then fl OR kFflagNV else fl) in
      if isnan64 a \<and> \<not> isnan64 b then (b, fl1)
      else if \<not> isnan64 a \<and> isnan64 b then (a, fl1)
      else if isnan64 a \<and> isnan64 b then (kQnan64, fl1)
      else if eq64 a 0 \<and> eq64 b 0 then (if is_max then 0 else 0x8000000000000000, fl1)
      else (if is_max then (if lt64 b a then a else b) else (if lt64 a b then a else b), fl1))"

definition RiscvFpMinMaxS :: "u64 \<Rightarrow> u64 \<Rightarrow> bool \<Rightarrow> u8 \<Rightarrow> u64 \<times> u8" where
  "RiscvFpMinMaxS ra rb is_max fl = MinMaxS ra rb is_max fl"

definition RiscvFpMinMaxD :: "u64 \<Rightarrow> u64 \<Rightarrow> bool \<Rightarrow> u8 \<Rightarrow> u64 \<times> u8" where
  "RiscvFpMinMaxD ra rb is_max fl = MinMaxD ra rb is_max fl"

definition RiscvFpCmpS :: "u64 \<Rightarrow> u64 \<Rightarrow> fp_kind \<Rightarrow> u8 \<Rightarrow> (u64 \<times> u8) option" where
  "RiscvFpCmpS ra rb kind fl =
     (if \<not> IsBoxed ra \<or> \<not> IsBoxed rb then Some (0, fl OR kFflagNV)
      else let a = Float32 ra; b = Float32 rb in
       if isnan32 a \<or> isnan32 b
       then Some (0, if kind \<noteq> kFpEq \<or> IsSnanF a \<or> IsSnanF b then fl OR kFflagNV else fl)
       else (case kind of
          kFpEq \<Rightarrow> Some (of_bool (eq32 a b), fl)
        | kFpLt \<Rightarrow> Some (of_bool (lt32 a b), fl)
        | kFpLe \<Rightarrow> Some (of_bool (lt32 a b \<or> eq32 a b), fl)
        | _ \<Rightarrow> None))"

definition RiscvFpCmpD :: "u64 \<Rightarrow> u64 \<Rightarrow> fp_kind \<Rightarrow> u8 \<Rightarrow> (u64 \<times> u8) option" where
  "RiscvFpCmpD a b kind fl =
     (if isnan64 a \<or> isnan64 b
      then Some (0, if kind \<noteq> kFpEq \<or> IsSnanD a \<or> IsSnanD b then fl OR kFflagNV else fl)
      else (case kind of
          kFpEq \<Rightarrow> Some (of_bool (eq64 a b), fl)
        | kFpLt \<Rightarrow> Some (of_bool (lt64 a b), fl)
        | kFpLe \<Rightarrow> Some (of_bool (lt64 a b \<or> eq64 a b), fl)
        | _ \<Rightarrow> None))"

section \<open>Classification and sign injection\<close>

definition Classify32 :: "u32 \<Rightarrow> nat" where
  "Classify32 v =
     (let e = drop_bit 23 v AND 0xff; frac = v AND 0x7fffff; sign = drop_bit 31 v \<noteq> 0 in
      if e = 0xff then
        (if frac = 0 then (if sign then 0 else 7) else if v AND 0x400000 \<noteq> 0 then 9 else 8)
      else if e = 0 then
        (if frac = 0 then (if sign then 3 else 4) else if sign then 2 else 5)
      else if sign then 1 else 6)"

definition RiscvFpClassS :: "u64 \<Rightarrow> u64" where
  "RiscvFpClassS ra = push_bit (Classify32 (ucast ra)) 1"

definition Classify64 :: "u64 \<Rightarrow> nat" where
  "Classify64 v =
     (let e = drop_bit 52 v AND 0x7ff; frac = v AND 0xfffffffffffff; sign = drop_bit 63 v \<noteq> 0 in
      if e = 0x7ff then
        (if frac = 0 then (if sign then 0 else 7)
         else if v AND 0x8000000000000 \<noteq> 0 then 9 else 8)
      else if e = 0 then
        (if frac = 0 then (if sign then 3 else 4) else if sign then 2 else 5)
      else if sign then 1 else 6)"

definition RiscvFpClassD :: "u64 \<Rightarrow> u64" where
  "RiscvFpClassD ra = push_bit (Classify64 ra) 1"

definition Sgnj64 :: "u64 \<Rightarrow> u64 \<Rightarrow> nat \<Rightarrow> u64" where
  "Sgnj64 a b kind =
     (let sa = a AND 0x8000000000000000; sb = b AND 0x8000000000000000;
          sgn = (if kind = 0 then sb else if kind = 1 then sb XOR 0x8000000000000000
                 else sa XOR sb) in
      (a AND NOT 0x8000000000000000) OR sgn)"

definition RiscvFpSgnjS :: "u64 \<Rightarrow> u64 \<Rightarrow> nat \<Rightarrow> u64" where
  "RiscvFpSgnjS ra rb kind =
     (let a = (if IsBoxed ra then ucast ra else kQnan32);
          sb = (if IsBoxed rb \<and> drop_bit 31 (ucast rb :: u32) \<noteq> 0 then 1 else 0);
          sa = drop_bit 31 a;
          sgn = (if kind = 0 then (if sb \<noteq> 0 then 0x80000000 else 0)
                 else if kind = 1 then (if sb \<noteq> 0 then 0 else 0x80000000)
                 else (if sa XOR sb \<noteq> 0 then 0x80000000 else 0)) in
      Box32 ((a AND NOT 0x80000000) OR sgn))"

definition RiscvFpSgnjD :: "u64 \<Rightarrow> u64 \<Rightarrow> nat \<Rightarrow> u64" where
  "RiscvFpSgnjD ra rb kind = Sgnj64 ra rb kind"

section \<open>Conversions\<close>

text \<open>\<open>F2IExact\<close> returns the clamped value and whether the input was in range.\<close>

definition F2IExact :: "'l host_fp \<Rightarrow> 'l \<Rightarrow> bool \<Rightarrow> nat \<Rightarrow> 'l \<times> bool" where
  "F2IExact H e to_signed dbits =
     (let mx = ld_of_int H (if to_signed then (if dbits = 32 then 2147483647 else 9223372036854775807)
                 else (if dbits = 32 then 4294967295 else 18446744073709551615));
          mn = ld_of_int H (if to_signed then (if dbits = 32 then - 2147483648
                 else - 9223372036854775808) else 0) in
      if ld_lt H mx e then (mx, False)
      else if ld_lt H e mn then
        (if \<not> to_signed \<and> ld_lt H (ld_of_int H (- 1)) e then (ld_of_int H 0, True) else (mn, False))
      else (e, True))"

definition F2IResult :: "'l host_fp \<Rightarrow> 'l \<Rightarrow> bool \<Rightarrow> nat \<Rightarrow> nat \<Rightarrow> u8 \<Rightarrow> u64 \<times> u8" where
  "F2IResult H e to_signed dbits rm fl =
     (if ld_isnan H e then
        (if to_signed then (if dbits = 32 then 0x7fffffff else 0x7fffffffffffffff)
         else 0xffffffffffffffff, fl OR kFflagNV)
      else let cand = (if rm = kRmRtz then ld_trunc H e else if rm = kRmRdn then ld_floor H e
                       else if rm = kRmRup then ld_ceil H e else if rm = kRmRmm then ld_round H e
                       else ld_nearbyint H e);
               neg = ld_lt H cand (ld_of_int H 0);
               (clamped, ok) = F2IExact H cand to_signed dbits in
       if \<not> ok then
         (if to_signed then
            (if neg then (if dbits = 32 then 0xffffffff80000000 else 0x8000000000000000)
             else (if dbits = 32 then 0x7fffffff else 0x7fffffffffffffff))
          else (if neg then 0 else 0xffffffffffffffff), fl OR kFflagNV)
       else
         (if to_signed then
            (if dbits = 32 then scast (word_of_int (ld_to_int H clamped) :: u32)
             else word_of_int (ld_to_int H clamped))
          else
            (if dbits = 32 then scast (word_of_int (ld_to_int H clamped) :: u32)
             else word_of_int (ld_to_int H clamped)),
          if \<not> ld_eq H clamped e then fl OR kFflagNX else fl))"

definition RiscvFpF2IS :: "'l host_fp \<Rightarrow> u64 \<Rightarrow> bool \<Rightarrow> nat \<Rightarrow> nat \<Rightarrow> u8 \<Rightarrow> u64 \<times> u8" where
  "RiscvFpF2IS H ra to_signed dbits rm fl =
     (if \<not> IsBoxed ra
      then (if to_signed then 0x8000000000000000 else 0xffffffffffffffff, fl OR kFflagNV)
      else F2IResult H (ld_of32 H (Float32 ra)) to_signed dbits rm fl)"

definition RiscvFpF2ID :: "'l host_fp \<Rightarrow> u64 \<Rightarrow> bool \<Rightarrow> nat \<Rightarrow> nat \<Rightarrow> u8 \<Rightarrow> u64 \<times> u8" where
  "RiscvFpF2ID H ra to_signed dbits rm fl = F2IResult H (ld_of64 H ra) to_signed dbits rm fl"

definition I2FCommonS :: "'l host_fp \<Rightarrow> 'l \<Rightarrow> nat \<Rightarrow> u8 \<Rightarrow> u64 \<times> u8" where
  "I2FCommonS H e rm fl = FinishS H (ld_to32 H e) e rm fl"

definition I2FCommonD :: "'l host_fp \<Rightarrow> 'l \<Rightarrow> nat \<Rightarrow> u8 \<Rightarrow> u64 \<times> u8" where
  "I2FCommonD H e rm fl = FinishD H (ld_to64 H e) e rm fl"

definition i2f_value :: "u64 \<Rightarrow> bool \<Rightarrow> nat \<Rightarrow> int" where
  "i2f_value val val_signed bits =
     (if val_signed then (if bits = 32 then sint (ucast val :: u32) else sint val)
      else (if bits = 32 then uint (ucast val :: u32) else uint val))"

definition RiscvFpI2FS :: "'l host_fp \<Rightarrow> u64 \<Rightarrow> bool \<Rightarrow> nat \<Rightarrow> nat \<Rightarrow> u8 \<Rightarrow> u64 \<times> u8" where
  "RiscvFpI2FS H val val_signed bits rm fl =
     I2FCommonS H (ld_of_int H (i2f_value val val_signed bits)) rm fl"

definition RiscvFpI2FD :: "'l host_fp \<Rightarrow> u64 \<Rightarrow> bool \<Rightarrow> nat \<Rightarrow> nat \<Rightarrow> u8 \<Rightarrow> u64 \<times> u8" where
  "RiscvFpI2FD H val val_signed bits rm fl =
     I2FCommonD H (ld_of_int H (i2f_value val val_signed bits)) rm fl"

definition RiscvFpCvtSD :: "'l host_fp \<Rightarrow> u64 \<Rightarrow> nat \<Rightarrow> u8 \<Rightarrow> u64 \<times> u8" where
  "RiscvFpCvtSD H ra rm fl = (let e = ld_of64 H ra in FinishS H (ld_to32 H e) e rm fl)"

definition RiscvFpCvtDS :: "'l host_fp \<Rightarrow> u64 \<Rightarrow> nat \<Rightarrow> u8 \<Rightarrow> u64 \<times> u8" where
  "RiscvFpCvtDS H ra rm fl =
     (if \<not> IsBoxed ra then (kQnan64, fl OR kFflagNV)
      else let e = ld_of32 H (Float32 ra) in FinishD H (ld_to64 H e) e rm fl)"

section \<open>Flags\<close>

text \<open>Every operation only adds flags, and only the five defined ones.\<close>

definition adds_flags :: "u8 \<Rightarrow> u8 \<Rightarrow> bool" where
  "adds_flags fl fl' \<longleftrightarrow> (\<exists>k. k AND 0xE0 = 0 \<and> fl' = fl OR k)"

lemma adds_flags_refl [simp]: "adds_flags fl fl"
  unfolding adds_flags_def by (rule exI [of _ 0]) simp

lemma adds_flags_trans:
  assumes "adds_flags a b" "adds_flags b c"
  shows "adds_flags a c"
proof -
  obtain j k where "j AND 0xE0 = 0" "b = a OR j" "k AND 0xE0 = 0" "c = b OR k"
    using assms by (auto simp: adds_flags_def)
  then have "(j OR k) AND 0xE0 = 0" "c = a OR (j OR k)" by (simp_all add: word_ao_dist or.assoc)
  then show ?thesis unfolding adds_flags_def by blast
qed

lemma adds_flags_or:
  assumes "k AND 0xE0 = 0" "adds_flags fl fl'"
  shows "adds_flags fl (fl' OR k)"
  by (rule adds_flags_trans [OF assms(2)]) (use assms(1) in \<open>auto simp: adds_flags_def\<close>)

lemma adds_flags_if: "adds_flags fl a \<Longrightarrow> adds_flags fl b \<Longrightarrow> adds_flags fl (if c then a else b)"
  by simp

lemmas flag_intros = adds_flags_refl adds_flags_or adds_flags_if

lemma adds_flags_RoundSAdjust: "adds_flags fl (snd (RoundSAdjust H r e rm fl))"
  and adds_flags_RoundDAdjust: "adds_flags fl (snd (RoundDAdjust H r' e rm fl))"
  using adds_flags_or [of kFflagNX fl fl]
  by (simp_all add: RoundSAdjust_def RoundDAdjust_def Let_def)

lemma adds_flags_FinishS: "adds_flags fl (snd (FinishS H r e rm fl))"
  using adds_flags_or [of kFflagNV fl fl] adds_flags_or [of "kFflagOF OR kFflagNX" fl fl]
    adds_flags_or [of "kFflagUF OR kFflagNX" fl fl]
  by (simp add: FinishS_def Let_def case_prod_unfold adds_flags_trans [OF _ adds_flags_RoundSAdjust])

lemma adds_flags_FinishD: "adds_flags fl (snd (FinishD H r e rm fl))"
  using adds_flags_or [of kFflagNV fl fl] adds_flags_or [of "kFflagOF OR kFflagNX" fl fl]
    adds_flags_or [of "kFflagUF OR kFflagNX" fl fl]
  by (simp add: FinishD_def Let_def adds_flags_trans [OF _ adds_flags_RoundDAdjust])

lemmas adds_flags_finish = adds_flags_FinishS adds_flags_FinishD
  adds_flags_trans [OF _ adds_flags_FinishS] adds_flags_trans [OF _ adds_flags_FinishD]

lemma adds_flags_binary:
  "RiscvFpBinaryS H a b k rm fl = Some r \<Longrightarrow> adds_flags fl (snd r)"
  "RiscvFpBinaryD H a b k rm fl = Some r \<Longrightarrow> adds_flags fl (snd r)"
  using adds_flags_or [of kFflagNV fl fl] adds_flags_or [of kFflagDZ fl fl]
    adds_flags_or [of kFflagDZ fl "fl OR kFflagNV"]
  by (auto simp: RiscvFpBinaryS_def RiscvFpBinaryD_def Let_def adds_flags_finish
      split: if_splits fp_kind.splits)

lemma adds_flags_cmp:
  "RiscvFpCmpS a b k fl = Some r \<Longrightarrow> adds_flags fl (snd r)"
  "RiscvFpCmpD a b k fl = Some r \<Longrightarrow> adds_flags fl (snd r)"
  using adds_flags_or [of kFflagNV fl fl]
  by (auto simp: RiscvFpCmpS_def RiscvFpCmpD_def Let_def split: if_splits fp_kind.splits)

lemma adds_flags_unary:
  "adds_flags fl (snd (RiscvFpSqrtS H a rm fl))" "adds_flags fl (snd (RiscvFpSqrtD H a rm fl))"
  "adds_flags fl (snd (RiscvFpFmaS H a b c rm fl))" "adds_flags fl (snd (RiscvFpFmaD H a b c rm fl))"
  "adds_flags fl (snd (RiscvFpMinMaxS a b mx fl))" "adds_flags fl (snd (RiscvFpMinMaxD a b mx fl))"
  using adds_flags_or [of kFflagNV fl fl] adds_flags_or [of kFflagNV fl "fl OR kFflagNV"]
  by (simp_all add: RiscvFpSqrtS_def RiscvFpSqrtD_def RiscvFpFmaS_def RiscvFpFmaD_def
      RiscvFpMinMaxS_def RiscvFpMinMaxD_def MinMaxS_def MinMaxD_def Let_def adds_flags_finish)

lemma adds_flags_convert:
  "adds_flags fl (snd (RiscvFpF2IS H a sg db rm fl))" "adds_flags fl (snd (RiscvFpF2ID H a sg db rm fl))"
  "adds_flags fl (snd (RiscvFpI2FS H a sg db rm fl))" "adds_flags fl (snd (RiscvFpI2FD H a sg db rm fl))"
  "adds_flags fl (snd (RiscvFpCvtSD H a rm fl))" "adds_flags fl (snd (RiscvFpCvtDS H a rm fl))"
  using adds_flags_or [of kFflagNV fl fl] adds_flags_or [of kFflagNX fl fl]
  by (simp_all add: RiscvFpF2IS_def RiscvFpF2ID_def F2IResult_def RiscvFpI2FS_def RiscvFpI2FD_def
      I2FCommonS_def I2FCommonD_def RiscvFpCvtSD_def RiscvFpCvtDS_def Let_def case_prod_unfold
      adds_flags_finish)

lemma adds_flags_less: "adds_flags fl fl' \<Longrightarrow> fl < 32 \<Longrightarrow> fl' < 32"
proof -
  assume "adds_flags fl fl'" and fl: "fl < 32"
  then obtain k where k: "k AND 0xE0 = 0" "fl' = fl OR k" by (auto simp: adds_flags_def)
  have iff: "x < 32 \<longleftrightarrow> x AND 0xE0 = 0" for x :: u8
  proof -
    have "x < 32 \<longleftrightarrow> unat (take_bit 5 x) = unat x"
      by (simp add: word_less_nat_alt unsigned_take_bit_eq take_bit_nat_eq_self_iff)
    also have "\<dots> \<longleftrightarrow> take_bit 5 x = x" by (rule word_unat_eq_iff [symmetric])
    also have "\<dots> \<longleftrightarrow> x AND 0xE0 = 0" by (auto simp: u8_eq_iff all_less_8 bit_simps)
    finally show ?thesis .
  qed
  show ?thesis using fl k by (simp add: iff word_ao_dist)
qed

end
