(* ===== verification/Hart.thy ===== *)
theory Hart
  imports Ram Fp
begin

text \<open>
  The state of the riscv64 processor: \<open>CpuState\<close> (src/src/cpu/cpu.h),
  \<open>RiscvState\<close> with its translation cache and the constants of
  src/src/cpu/isa/riscv64/riscv.h and platform.h, the processor joined to its
  bus and devices (\<open>hart\<close>), and the environment \<open>env\<close> that stands for the
  function pointers a board installs.  Arrays are functions from indices;
  an index that C does not keep in range is checked where it is used.
\<close>

section \<open>Constants of riscv.h and platform.h\<close>

datatype acc = acc_ifetch | acc_read | acc_write | acc_amo

abbreviation (input) kCounterNone :: u8 where "kCounterNone \<equiv> 0"
abbreviation (input) kCounterMcycle :: u8 where "kCounterMcycle \<equiv> 1"
abbreviation (input) kCounterMinstret :: u8 where "kCounterMinstret \<equiv> 2"

abbreviation (input) kPrivUser :: u8 where "kPrivUser \<equiv> 0"
abbreviation (input) kPrivSupervisor :: u8 where "kPrivSupervisor \<equiv> 1"
abbreviation (input) kPrivHypervisor :: u8 where "kPrivHypervisor \<equiv> 2"
abbreviation (input) kPrivMachine :: u8 where "kPrivMachine \<equiv> 3"

abbreviation (input) kMstatusSie :: u64 where "kMstatusSie \<equiv> 0x2"
abbreviation (input) kMstatusMie :: u64 where "kMstatusMie \<equiv> 0x8"
abbreviation (input) kMstatusSpie :: u64 where "kMstatusSpie \<equiv> 0x20"
abbreviation (input) kMstatusMpie :: u64 where "kMstatusMpie \<equiv> 0x80"
abbreviation (input) kMstatusSpp :: u64 where "kMstatusSpp \<equiv> 0x100"
abbreviation (input) kMstatusMppMask :: u64 where "kMstatusMppMask \<equiv> 0x1800"
abbreviation (input) kMstatusFs :: u64 where "kMstatusFs \<equiv> 0x6000"
abbreviation (input) kMstatusMprv :: u64 where "kMstatusMprv \<equiv> 0x20000"
abbreviation (input) kMstatusSum :: u64 where "kMstatusSum \<equiv> 0x40000"
abbreviation (input) kMstatusMxr :: u64 where "kMstatusMxr \<equiv> 0x80000"
abbreviation (input) kMstatusTvm :: u64 where "kMstatusTvm \<equiv> 0x100000"
abbreviation (input) kMstatusTw :: u64 where "kMstatusTw \<equiv> 0x200000"
abbreviation (input) kMstatusTsr :: u64 where "kMstatusTsr \<equiv> 0x400000"
abbreviation (input) kMstatusUxlMask :: u64 where "kMstatusUxlMask \<equiv> 0x300000000"
abbreviation (input) kMstatusUxlValue :: u64 where "kMstatusUxlValue \<equiv> 0x200000000"
abbreviation (input) kMstatusWmask :: u64 where "kMstatusWmask \<equiv> 0x7E79AA"
abbreviation (input) kSstatusRmask :: u64 where "kSstatusRmask \<equiv> 0x80000003000C6122"
abbreviation (input) kSstatusWmask :: u64 where "kSstatusWmask \<equiv> 0xC6122"

abbreviation (input) kMcountinhibitCy :: u64 where "kMcountinhibitCy \<equiv> 0x1"
abbreviation (input) kMcountinhibitIr :: u64 where "kMcountinhibitIr \<equiv> 0x4"

abbreviation (input) kMisaMxl64 :: u64 where "kMisaMxl64 \<equiv> 0x8000000000000000"
abbreviation (input) kMisaC :: u64 where "kMisaC \<equiv> 0x4"
abbreviation (input) kMisaI :: u64 where "kMisaI \<equiv> 0x100"
abbreviation (input) kMisaSupported :: u64 where "kMisaSupported \<equiv> 0x800000000014112D"

abbreviation (input) kTcontrolMte :: u64 where "kTcontrolMte \<equiv> 0x80"
abbreviation (input) kTcontrolMpte :: u64 where "kTcontrolMpte \<equiv> 0x40"

abbreviation (input) kMenvcfgWmask :: u64 where "kMenvcfgWmask \<equiv> 0xA0000000000000FF"
abbreviation (input) kMenvcfgAdue :: u64 where "kMenvcfgAdue \<equiv> 0x2000000000000000"
abbreviation (input) kSenvcfgWmask :: u64 where "kSenvcfgWmask \<equiv> 0xFF"

abbreviation (input) kMhpmCount :: nat where "kMhpmCount \<equiv> 16"

abbreviation (input) kTrigCount :: nat where "kTrigCount \<equiv> 2"
abbreviation (input) kTrigTypeMcontrol6 :: u64 where "kTrigTypeMcontrol6 \<equiv> 0x6000000000000000"
abbreviation (input) kMc6Load :: u64 where "kMc6Load \<equiv> 0x1"
abbreviation (input) kMc6Store :: u64 where "kMc6Store \<equiv> 0x2"
abbreviation (input) kMc6Execute :: u64 where "kMc6Execute \<equiv> 0x4"
abbreviation (input) kMc6U :: u64 where "kMc6U \<equiv> 0x8"
abbreviation (input) kMc6S :: u64 where "kMc6S \<equiv> 0x10"
abbreviation (input) kMc6M :: u64 where "kMc6M \<equiv> 0x40"
abbreviation (input) kMc6Chain :: u64 where "kMc6Chain \<equiv> 0x800"
abbreviation (input) kMc6Dmode :: u64 where "kMc6Dmode \<equiv> 0x800000000000000"
abbreviation (input) kMc6MatchEq :: u64 where "kMc6MatchEq \<equiv> 0"
abbreviation (input) kMc6MatchGe :: u64 where "kMc6MatchGe \<equiv> 2"
abbreviation (input) kMc6MatchLt :: u64 where "kMc6MatchLt \<equiv> 3"
abbreviation (input) kTd3SselectMask :: u64 where "kTd3SselectMask \<equiv> 3"
abbreviation (input) kTd3MhMask :: u64 where "kTd3MhMask \<equiv> 0xFFFF000000000000"
abbreviation (input) kTrigOpExecute :: u8 where "kTrigOpExecute \<equiv> 1"
abbreviation (input) kTrigOpStore :: u8 where "kTrigOpStore \<equiv> 2"
abbreviation (input) kTrigOpLoad :: u8 where "kTrigOpLoad \<equiv> 4"

abbreviation (input) kCacheBlockSize :: u64 where "kCacheBlockSize \<equiv> 64"

abbreviation (input) kIrqSsip :: u64 where "kIrqSsip \<equiv> 0x2"
abbreviation (input) kIrqMsip :: u64 where "kIrqMsip \<equiv> 0x8"
abbreviation (input) kIrqStip :: u64 where "kIrqStip \<equiv> 0x20"
abbreviation (input) kIrqMtip :: u64 where "kIrqMtip \<equiv> 0x80"
abbreviation (input) kIrqSeip :: u64 where "kIrqSeip \<equiv> 0x200"
abbreviation (input) kIrqMeip :: u64 where "kIrqMeip \<equiv> 0x800"

abbreviation (input) kMidelegWmask :: u64 where "kMidelegWmask \<equiv> 0x222"
abbreviation (input) kIrqSLevelMask :: u64 where "kIrqSLevelMask \<equiv> 0x222"
abbreviation (input) kMedelegWmask :: u64 where "kMedelegWmask \<equiv> 0xF7FF"

abbreviation (input) kSatpModeBare :: u64 where "kSatpModeBare \<equiv> 0"
abbreviation (input) kSatpModeSv39 :: u64 where "kSatpModeSv39 \<equiv> 8"
abbreviation (input) kSatpModeSv48 :: u64 where "kSatpModeSv48 \<equiv> 9"
abbreviation (input) kSatpWmask :: u64 where "kSatpWmask \<equiv> 0xFFFFFFFFFFFFFFFF"

abbreviation (input) kPmpCount :: nat where "kPmpCount \<equiv> 16"
abbreviation (input) kPmpAddrBits :: nat where "kPmpAddrBits \<equiv> 54"
abbreviation (input) kPmpR :: u8 where "kPmpR \<equiv> 1"
abbreviation (input) kPmpW :: u8 where "kPmpW \<equiv> 2"
abbreviation (input) kPmpX :: u8 where "kPmpX \<equiv> 4"
abbreviation (input) kPmpAMask :: u8 where "kPmpAMask \<equiv> 0x18"
abbreviation (input) kPmpATor :: u8 where "kPmpATor \<equiv> 0x08"
abbreviation (input) kPmpANa4 :: u8 where "kPmpANa4 \<equiv> 0x10"
abbreviation (input) kPmpANapot :: u8 where "kPmpANapot \<equiv> 0x18"
abbreviation (input) kPmpL :: u8 where "kPmpL \<equiv> 0x80"

abbreviation (input) kIntBit :: u64 where "kIntBit \<equiv> 0x8000000000000000"

abbreviation (input) kExFetchMisaligned :: u64 where "kExFetchMisaligned \<equiv> 0"
abbreviation (input) kExFetchFault :: u64 where "kExFetchFault \<equiv> 1"
abbreviation (input) kExIllegal :: u64 where "kExIllegal \<equiv> 2"
abbreviation (input) kExBreakpoint :: u64 where "kExBreakpoint \<equiv> 3"
abbreviation (input) kExLoadMisaligned :: u64 where "kExLoadMisaligned \<equiv> 4"
abbreviation (input) kExLoadFault :: u64 where "kExLoadFault \<equiv> 5"
abbreviation (input) kExStoreMisaligned :: u64 where "kExStoreMisaligned \<equiv> 6"
abbreviation (input) kExStoreFault :: u64 where "kExStoreFault \<equiv> 7"
abbreviation (input) kExUserEcall :: u64 where "kExUserEcall \<equiv> 8"
abbreviation (input) kExSupervisorEcall :: u64 where "kExSupervisorEcall \<equiv> 9"
abbreviation (input) kExMachineEcall :: u64 where "kExMachineEcall \<equiv> 11"
abbreviation (input) kExFetchPageFault :: u64 where "kExFetchPageFault \<equiv> 12"
abbreviation (input) kExLoadPageFault :: u64 where "kExLoadPageFault \<equiv> 13"
abbreviation (input) kExStorePageFault :: u64 where "kExStorePageFault \<equiv> 15"

abbreviation (input) kTlbSets :: nat where "kTlbSets \<equiv> 256"
abbreviation (input) kTlbWays :: nat where "kTlbWays \<equiv> 2"

section \<open>State\<close>

text \<open>
  A host pointer is a block and an offset.  \<open>te_acc\<close> holds the number of the
  access class.
\<close>

record RiscvTlbEntry =
  te_vpn :: u64
  te_pbase :: u64
  te_host :: "(nat \<times> u64) option"
  te_gen :: u64
  te_satp :: u64
  te_mstatus :: u64
  te_menvcfg :: u64
  te_pmp_gen :: u32
  te_priv :: u8
  te_eff :: u8
  te_acc :: u8

record RiscvState =
  misa :: u64
  mstatus :: u64
  mie :: u64
  mip :: u64
  mtvec :: u64
  mscratch :: u64
  mepc :: u64
  mcause :: u64
  mtval :: u64
  medeleg :: u64
  mideleg :: u64
  mcounteren :: u64
  scounteren :: u64
  mcycle :: u64
  minstret :: u64
  mcountinhibit :: u64
  stvec :: u64
  sscratch :: u64
  sepc :: u64
  scause :: u64
  stval :: u64
  satp :: u64
  tselect :: u64
  tcontrol :: u64
  tdata1 :: "nat \<Rightarrow> u64"
  tdata2 :: "nat \<Rightarrow> u64"
  tdata3 :: "nat \<Rightarrow> u64"
  scontext :: u64
  menvcfg :: u64
  senvcfg :: u64
  stimecmp :: u64
  mnstatus :: u64
  mhpmcounter :: "nat \<Rightarrow> u64"
  mhpmevent :: "nat \<Rightarrow> u64"
  pmpcfg :: "nat \<Rightarrow> u64"
  pmpaddr :: "nat \<Rightarrow> u64"
  tlb :: "nat \<Rightarrow> RiscvTlbEntry"
  tlb_gen :: u64
  tlb_clock :: u32
  pmp_gen :: u32
  priv :: u8
  frm :: u8
  fflags :: u8
  counter_written :: u8
  ext_irq :: u64
  res_valid :: bool
  res_addr :: u64
  trap_seq :: u64
  trap_signal :: u8

text \<open>
  \<open>CpuState\<close> without the hooks only the x86 models use.  The bus pointer is
  the \<open>bus\<close> field of the hart, \<open>timer_read\<close> and \<open>set_irq\<close> are in the
  environment.
\<close>

record CpuState =
  gpr :: "nat \<Rightarrow> u64"
  fpr :: "nat \<Rightarrow> u64"
  pc :: u64
  image_base :: u64
  halted :: bool
  wait :: bool
  exit_code :: int
  inst_count :: u64

record 'd hart =
  cpu :: CpuState
  rs :: RiscvState
  bus :: Bus
  devs :: 'd

text \<open>
  What the hart calls and does not own.  \<open>e_read\<close> and \<open>e_write\<close> dispatch
  through the operations table of a bus window.  \<open>e_host_load\<close> and
  \<open>e_host_store\<close> are \<open>memcpy\<close> from and to a host pointer; \<open>None\<close> is an access
  outside the block.  \<open>e_timer\<close> is \<open>cpu->timer_read\<close>, \<open>None\<close> the null pointer.
  \<open>e_dbg_mem\<close> is \<open>DebugOn(kDbgMem)\<close>, \<open>e_fp\<close> the host's floating point.
\<close>

record ('d, 'l) env =
  e_read :: "'d dev_read"
  e_write :: "'d dev_write"
  e_host_load :: "nat \<Rightarrow> u64 \<Rightarrow> nat \<Rightarrow> 'd \<Rightarrow> u64 option"
  e_host_store :: "nat \<Rightarrow> u64 \<Rightarrow> nat \<Rightarrow> u64 \<Rightarrow> 'd \<Rightarrow> 'd option"
  e_timer :: "('d \<Rightarrow> u64) option"
  e_dbg_mem :: bool
  e_fp :: "'l host_fp"

type_synonym ('d, 'a) hprog = "('d hart, 'a) prog"

section \<open>Access to the parts of the state\<close>

definition upd_rs :: "(RiscvState \<Rightarrow> RiscvState) \<Rightarrow> 'd hart \<Rightarrow> 'd hart" where
  "upd_rs f h = h\<lparr>rs := f (rs h)\<rparr>"

definition upd_cpu :: "(CpuState \<Rightarrow> CpuState) \<Rightarrow> 'd hart \<Rightarrow> 'd hart" where
  "upd_cpu f h = h\<lparr>cpu := f (cpu h)\<rparr>"

lemma upd_rs_simps [simp]:
  "rs (upd_rs f h) = f (rs h)" "cpu (upd_rs f h) = cpu h" "bus (upd_rs f h) = bus h"
  "devs (upd_rs f h) = devs h"
  by (simp_all add: upd_rs_def)

lemma upd_cpu_simps [simp]:
  "cpu (upd_cpu f h) = f (cpu h)" "rs (upd_cpu f h) = rs h" "bus (upd_cpu f h) = bus h"
  "devs (upd_cpu f h) = devs h"
  by (simp_all add: upd_cpu_def)

definition set_rs :: "(RiscvState \<Rightarrow> RiscvState) \<Rightarrow> ('d, unit) hprog" where
  "set_rs f = updates (upd_rs f)"

definition set_cpu :: "(CpuState \<Rightarrow> CpuState) \<Rightarrow> ('d, unit) hprog" where
  "set_cpu f = updates (upd_cpu f)"

text \<open>The register banks in the notation of exec.h: \<open>x[i] = v\<close> and \<open>f[i] = v\<close>.\<close>

definition set_x :: "nat \<Rightarrow> u64 \<Rightarrow> ('d, unit) hprog" where
  "set_x i v = set_cpu (\<lambda>c. c\<lparr>gpr := (gpr c)(i := v)\<rparr>)"

definition set_f :: "nat \<Rightarrow> u64 \<Rightarrow> ('d, unit) hprog" where
  "set_f i v = set_cpu (\<lambda>c. c\<lparr>fpr := (fpr c)(i := v)\<rparr>)"

definition get_x :: "nat \<Rightarrow> ('d, u64) hprog" where
  "get_x i = reads (\<lambda>h. gpr (cpu h) i)"

definition get_f :: "nat \<Rightarrow> ('d, u64) hprog" where
  "get_f i = reads (\<lambda>h. fpr (cpu h) i)"

definition get_rs :: "('d, RiscvState) hprog" where
  "get_rs = reads rs"

definition get_pc :: "('d, u64) hprog" where
  "get_pc = reads (\<lambda>h. pc (cpu h))"

lemmas hprog_defs = set_rs_def set_cpu_def set_x_def set_f_def get_x_def get_f_def get_rs_def
  get_pc_def

end
