(* ===== verification/Pmp.thy ===== *)
theory Pmp
  imports Hart
begin

text \<open>
  Physical memory protection: the decoding and checking of entries
  (src/src/cpu/isa/riscv64/mmu.c) and the write paths of the configuration
  registers (csr.c).  The lemmas show that decoding is the inverse of the
  naturally-aligned encoding, that a check of a range answers for every part
  of it, and that locked entries do not change.
\<close>

section \<open>Decoding\<close>

definition PmpCfg :: "RiscvState \<Rightarrow> nat \<Rightarrow> u8" where
  "PmpCfg s i = ucast (drop_bit (8 * (i mod 8)) (pmpcfg s (i div 8)))"

text \<open>
  The loop that counts trailing ones.  The guard on the counter stops the
  recursion where the C shift would leave the width of the word; the loop
  never gets there, because some bit of \<open>nv\<close> is set (\<open>napot_ones_bit\<close>).
\<close>

function napot_ones :: "u64 \<Rightarrow> nat \<Rightarrow> nat" where
  "napot_ones nv n = (if 64 \<le> n \<or> drop_bit n nv AND 1 \<noteq> 0 then n else napot_ones nv (Suc n))"
  by auto
termination by (relation "measure (\<lambda>(nv, n). 64 - n)") auto

declare napot_ones.simps [simp del]

definition PmpRegion :: "RiscvState \<Rightarrow> nat \<Rightarrow> (u64 \<times> u64) option" where
  "PmpRegion s i =
     (let a = PmpCfg s i AND kPmpAMask; addr = pmpaddr s i in
      if a = kPmpATor then
        (let lo = (if 0 < i then pmpaddr s (i - 1) AND NOT 3 else 0); hi = addr AND NOT 3 in
         if hi \<le> lo then None else Some (push_bit 2 lo, push_bit 2 (hi - lo)))
      else if a = kPmpANa4 then Some (push_bit 2 addr, 4)
      else if a = kPmpANapot then
        (let nv = NOT addr in
         if nv = 0 then Some (0, NOT 0)
         else let n = napot_ones nv 0 in
           Some (push_bit (n + 2) (drop_bit n addr), push_bit (n + 3) 1))
      else None)"

section \<open>Checking\<close>

definition pmp_any :: "u64 \<Rightarrow> u64 \<Rightarrow> u64 \<times> u64 \<Rightarrow> bool" where
  "pmp_any addr len r \<longleftrightarrow> addr < fst r + snd r \<and> fst r < addr + len"

definition pmp_all :: "u64 \<Rightarrow> u64 \<Rightarrow> u64 \<times> u64 \<Rightarrow> bool" where
  "pmp_all addr len r \<longleftrightarrow> fst r \<le> addr \<and> addr + len \<le> fst r + snd r"

definition pmp_perm :: "u8 \<Rightarrow> acc \<Rightarrow> bool" where
  "pmp_perm cfg acc \<longleftrightarrow>
     \<not> ((acc = acc_read \<or> acc = acc_amo) \<and> cfg AND kPmpR = 0 \<or>
        (acc = acc_write \<or> acc = acc_amo) \<and> cfg AND kPmpW = 0 \<or>
        acc = acc_ifetch \<and> cfg AND kPmpX = 0)"

text \<open>The scan over the entries; \<open>active\<close> is the flag of the loop.\<close>

fun pmp_scan :: "RiscvState \<Rightarrow> u64 \<Rightarrow> u64 \<Rightarrow> acc \<Rightarrow> u8 \<Rightarrow> nat list \<Rightarrow> bool \<Rightarrow> bool" where
  "pmp_scan s addr len acc mode [] active = (\<not> active \<or> mode = kPrivMachine)"
| "pmp_scan s addr len acc mode (i # is) active =
     (case PmpRegion s i of
        None \<Rightarrow> pmp_scan s addr len acc mode is active
      | Some r \<Rightarrow>
          if \<not> pmp_any addr len r then pmp_scan s addr len acc mode is True
          else if \<not> pmp_all addr len r then False
          else if mode = kPrivMachine \<and> PmpCfg s i AND kPmpL = 0 then True
          else pmp_perm (PmpCfg s i) acc)"

definition RiscvPmpAllowed :: "RiscvState \<Rightarrow> u64 \<Rightarrow> u64 \<Rightarrow> acc \<Rightarrow> u8 \<Rightarrow> bool" where
  "RiscvPmpAllowed s addr len acc mode = pmp_scan s addr len acc mode [0..<kPmpCount] False"

section \<open>Writing\<close>

definition pmp_cfg_byte :: "u8 \<Rightarrow> u8 \<Rightarrow> u8" where
  "pmp_cfg_byte old new =
     (if old AND kPmpL \<noteq> 0 then old
      else let cfg = (if new AND kPmpR = 0 then new AND NOT kPmpW else new) in
        if cfg AND kPmpAMask = kPmpANa4 then (cfg AND NOT kPmpAMask) OR kPmpANapot else cfg)"

definition WritePmpCfg :: "RiscvState \<Rightarrow> nat \<Rightarrow> u64 \<Rightarrow> RiscvState" where
  "WritePmpCfg s which val =
     (let out = pack_bytes (\<lambda>b. pmp_cfg_byte (ucast (drop_bit (8 * b) (pmpcfg s which)))
                  (ucast (drop_bit (8 * b) val))) 8 in
      s\<lparr>pmpcfg := (pmpcfg s)(which := out), pmp_gen := pmp_gen s + 1\<rparr>)"

definition WritePmpAddr :: "RiscvState \<Rightarrow> nat \<Rightarrow> u64 \<Rightarrow> RiscvState" where
  "WritePmpAddr s i val =
     (if kPmpCount \<le> i then s
      else let cfg = PmpCfg s i; next_cfg = (if i + 1 < kPmpCount then PmpCfg s (i + 1) else 0) in
       if cfg AND kPmpL \<noteq> 0 \<or> next_cfg AND kPmpL \<noteq> 0 \<and> next_cfg AND kPmpAMask = kPmpATor then s
       else s\<lparr>pmpaddr := (pmpaddr s)(i := val AND (push_bit kPmpAddrBits 1 - 1)),
              pmp_gen := pmp_gen s + 1\<rparr>)"

section \<open>The trailing-ones loop\<close>

lemma napot_ones_bit:
  assumes "\<exists>k. n \<le> k \<and> k < 64 \<and> bit nv k"
  shows "napot_ones nv n < 64 \<and> bit nv (napot_ones nv n) \<and>
    (\<forall>k. n \<le> k \<and> k < napot_ones nv n \<longrightarrow> \<not> bit nv k) \<and> n \<le> napot_ones nv n"
  using assms
proof (induction nv n rule: napot_ones.induct)
  case (1 nv n)
  have b: "drop_bit n nv AND 1 \<noteq> 0 \<longleftrightarrow> bit nv n"
    by (simp add: and_one_eq bit_iff_odd_drop_bit odd_iff_mod_2_eq_one)
  show ?case
  proof (cases "64 \<le> n \<or> bit nv n")
    case True
    then show ?thesis using 1(2) b by (auto simp: napot_ones.simps [of nv n])
  next
    case False
    then have e: "napot_ones nv n = napot_ones nv (Suc n)"
      using b by (simp add: napot_ones.simps [of nv n])
    obtain k where k: "n \<le> k" "k < 64" "bit nv k" using 1(2) by blast
    have "Suc n \<le> k" using k(1,3) False by (cases "k = n") auto
    then have "\<exists>k. Suc n \<le> k \<and> k < 64 \<and> bit nv k" using k by blast
    then show ?thesis using 1(1) False b e
      by (metis Suc_leD le_antisym not_less_eq_eq)
  qed
qed

lemma napot_ones_eq:
  assumes "k < 64" "bit nv k" "\<forall>j<k. \<not> bit nv j"
  shows "napot_ones nv 0 = k"
proof -
  have "\<exists>k. 0 \<le> k \<and> k < 64 \<and> bit nv k" using assms(1,2) by blast
  from napot_ones_bit [OF this] assms show ?thesis by (metis linorder_neqE_nat le0)
qed

text \<open>The naturally-aligned encoding of a power-of-two range.\<close>

definition napot_encode :: "u64 \<Rightarrow> nat \<Rightarrow> u64" where
  "napot_encode base k = drop_bit 2 base OR mask k"

lemma PmpRegion_napot:
  assumes a: "PmpCfg s i AND kPmpAMask = kPmpANapot" and e: "pmpaddr s i = napot_encode base k"
    and k: "k \<le> 60" and al: "take_bit (k + 3) base = 0"
  shows "PmpRegion s i = Some (base, push_bit (k + 3) 1)"
proof -
  have low: "\<not> bit base j" if "j < k + 3" for j
    using that arg_cong [OF al, of "\<lambda>w. bit w j"] by (simp add: bit_simps)
  define nv where "nv = NOT (napot_encode base k)"
  have b: "bit nv j \<longleftrightarrow> j < 64 \<and> \<not> bit base (j + 2) \<and> \<not> j < k" for j
    by (auto simp: nv_def napot_encode_def bit_simps add.commute)
  have n: "napot_ones nv 0 = k"
    by (rule napot_ones_eq) (use k low in \<open>auto simp: b\<close>)
  have "bit nv k" using k low by (simp add: b)
  then have nz: "nv \<noteq> 0" by auto
  have "bit (push_bit (k + 2) (drop_bit k (napot_encode base k))) j \<longleftrightarrow> bit base j"
    if "j < 64" for j
  proof (cases "j < k + 3")
    case True
    then consider "j < k + 2" | "j = k + 2" by linarith
    then show ?thesis using low [OF True]
      by cases (unfold bit_push_bit_iff napot_encode_def, auto simp: bit_simps)
  next
    case False
    then obtain i where "j = k + 3 + i" by (metis le_Suc_ex not_less)
    then show ?thesis using that
      unfolding bit_push_bit_iff napot_encode_def by (auto simp: bit_simps eval_nat_numeral)
  qed
  then have "push_bit (k + 2) (drop_bit k (napot_encode base k)) = base"
    unfolding u64_eq_iff by blast
  then show ?thesis using n nz a e by (simp add: PmpRegion_def Let_def nv_def)
qed

section \<open>A check of a range covers its parts\<close>

lemma pmp_any_part:
  assumes "addr \<le> a" "a + l \<le> addr + len" "pmp_any a l r"
  shows "pmp_any addr len r"
  using assms by (auto simp: pmp_any_def)

lemma pmp_all_part:
  assumes "addr \<le> a" "a + l \<le> addr + len" "a < a + l" "pmp_all addr len r"
  shows "pmp_all a l r \<and> pmp_any a l r"
  using assms by (auto simp: pmp_all_def pmp_any_def)

lemma pmp_scan_part:
  assumes "addr \<le> a" "a + l \<le> addr + len" "a < a + l"
  shows "pmp_scan s addr len acc mode is active \<Longrightarrow> pmp_scan s a l acc mode is active"
proof (induction "is" arbitrary: active)
  case Nil
  then show ?case by simp
next
  case (Cons i "is")
  show ?case
  proof (cases "PmpRegion s i")
    case None
    then show ?thesis using Cons by simp
  next
    case (Some r)
    show ?thesis
    proof (cases "pmp_any addr len r")
      case True
      then have "pmp_all addr len r" using Cons.prems Some by (auto split: if_splits)
      then show ?thesis using Cons.prems Some True pmp_all_part [OF assms] by auto
    next
      case False
      then have "\<not> pmp_any a l r" using pmp_any_part [OF assms(1,2)] by blast
      then show ?thesis using Cons Some False by simp
    qed
  qed
qed

section \<open>Locked entries\<close>

definition pmp_locked :: "RiscvState \<Rightarrow> nat \<Rightarrow> bool" where
  "pmp_locked s i \<longleftrightarrow> PmpCfg s i AND kPmpL \<noteq> 0"

lemma PmpCfg_WritePmpCfg:
  assumes "i < kPmpCount" "which < 2"
  shows "PmpCfg (WritePmpCfg s which val) i =
    (if i div 8 = which
     then pmp_cfg_byte (PmpCfg s i) (ucast (drop_bit (8 * (i mod 8)) val)) else PmpCfg s i)"
  by (simp add: PmpCfg_def WritePmpCfg_def Let_def byte_pack_bytes)

text \<open>The values a configuration byte may hold.\<close>

definition pmp_legal :: "u8 \<Rightarrow> bool" where
  "pmp_legal cfg \<longleftrightarrow> (cfg AND kPmpW \<noteq> 0 \<longrightarrow> cfg AND kPmpR \<noteq> 0) \<and> cfg AND kPmpAMask \<noteq> kPmpANa4"

definition pmp_ok :: "RiscvState \<Rightarrow> bool" where
  "pmp_ok s \<longleftrightarrow> (\<forall>i<kPmpCount. pmp_legal (PmpCfg s i) \<and> pmpaddr s i < push_bit kPmpAddrBits 1)"

lemma pmp_legal_byte: "pmp_legal old \<Longrightarrow> pmp_legal (pmp_cfg_byte old new)"
  unfolding pmp_legal_def pmp_cfg_byte_def Let_def
  by (auto simp: u8_eq_iff all_less_8 bit_simps)


lemma pmpaddr_WritePmpCfg [simp]: "pmpaddr (WritePmpCfg s which val) = pmpaddr s"
  by (simp add: WritePmpCfg_def)

lemma pmp_ok_WritePmpCfg:
  assumes "pmp_ok s" "which < 2"
  shows "pmp_ok (WritePmpCfg s which val)"
  using assms by (auto simp: pmp_ok_def PmpCfg_WritePmpCfg intro: pmp_legal_byte)

lemma PmpCfg_WritePmpAddr [simp]: "PmpCfg (WritePmpAddr s j val) i = PmpCfg s i"
  by (simp add: WritePmpAddr_def PmpCfg_def Let_def)

lemma addr_mask_less: "(v :: u64) AND 0x3FFFFFFFFFFFFF < 0x40000000000000"
proof -
  have "v AND 0x3FFFFFFFFFFFFF \<le> 0x3FFFFFFFFFFFFF" by (rule word_and_le1)
  also have "\<dots> < (0x40000000000000 :: u64)" by simp
  finally show ?thesis .
qed

lemma pmp_ok_WritePmpAddr:
  assumes "pmp_ok s"
  shows "pmp_ok (WritePmpAddr s j val)"
  using assms addr_mask_less [of val]
  by (auto simp: pmp_ok_def) (auto simp: WritePmpAddr_def Let_def)

lemma PmpRegion_cong:
  assumes "PmpCfg s' i = PmpCfg s i" "pmpaddr s' i = pmpaddr s i"
    and "PmpCfg s i AND kPmpAMask = kPmpATor \<Longrightarrow> 0 < i \<Longrightarrow> pmpaddr s' (i - 1) = pmpaddr s (i - 1)"
  shows "PmpRegion s' i = PmpRegion s i"
  using assms by (auto simp: PmpRegion_def Let_def)

lemma PmpCfg_locked:
  assumes "pmp_locked s i" "i < kPmpCount" "which < 2"
  shows "PmpCfg (WritePmpCfg s which val) i = PmpCfg s i"
  using assms by (simp add: PmpCfg_WritePmpCfg pmp_locked_def pmp_cfg_byte_def)

lemma PmpRegion_locked_cfg:
  assumes "pmp_locked s i" "i < kPmpCount" "which < 2"
  shows "PmpRegion (WritePmpCfg s which val) i = PmpRegion s i"
  by (rule PmpRegion_cong [OF PmpCfg_locked [OF assms]]) (simp_all add: WritePmpCfg_def)

lemma PmpRegion_locked_addr:
  assumes "pmp_locked s i" "i < kPmpCount"
  shows "PmpRegion (WritePmpAddr s j val) i = PmpRegion s i"
proof (rule PmpRegion_cong)
  show "pmpaddr (WritePmpAddr s j val) i = pmpaddr s i"
    using assms by (auto simp: WritePmpAddr_def Let_def pmp_locked_def)
  assume "PmpCfg s i AND kPmpAMask = kPmpATor" "0 < i"
  then show "pmpaddr (WritePmpAddr s j val) (i - 1) = pmpaddr s (i - 1)"
    using assms by (auto simp: WritePmpAddr_def Let_def pmp_locked_def)
qed simp

definition pmp_fields_ok :: "(nat \<Rightarrow> u64) \<Rightarrow> (nat \<Rightarrow> u64) \<Rightarrow> bool" where
  "pmp_fields_ok cfg ad \<longleftrightarrow> (\<forall>i<kPmpCount. pmp_legal (ucast (drop_bit (8 * (i mod 8)) (cfg (i div 8)))) \<and>
     ad i < push_bit kPmpAddrBits 1)"

lemma pmp_fields_ok_iff: "pmp_fields_ok (pmpcfg s) (pmpaddr s) = pmp_ok s"
  by (simp add: pmp_fields_ok_def pmp_ok_def PmpCfg_def)

lemma pmp_off: "pmpcfg s = (\<lambda>_. 0) \<Longrightarrow> RiscvPmpAllowed s a n acc m"
  by (simp add: RiscvPmpAllowed_def PmpRegion_def PmpCfg_def upt_rec)

end
