(* ===== verification/Csr.thy ===== *)
theory Csr
  imports Pmp Trigger
begin

text \<open>
  Control and status registers, traps and interrupts of the riscv64 model
  (src/src/cpu/isa/riscv64/csr.c), operation by operation, and \<open>riscv_init\<close>
  (isa_riscv64.c).  A register access ends in \<open>CsrOk\<close>, in \<open>CsrFail\<close> (the
  return value -1, an illegal instruction) or in \<open>CsrOob\<close> (an index outside
  the array behind the register).
\<close>

section \<open>Interrupt lines, traps and returns\<close>

definition MipAll :: "RiscvState \<Rightarrow> u64" where
  "MipAll s = mip s OR ext_irq s"

definition riscv_set_ext_irq :: "u64 \<Rightarrow> bool \<Rightarrow> RiscvState \<Rightarrow> RiscvState" where
  "riscv_set_ext_irq b level s =
     (if level then s\<lparr>ext_irq := ext_irq s OR b\<rparr> else s\<lparr>ext_irq := ext_irq s AND NOT b\<rparr>)"

text \<open>
  The status word after a trap to S or M from privilege \<open>pr\<close>, and after the
  two returns; \<open>vector_base\<close> is the entry point for a \<open>tvec\<close> value.
\<close>

definition mstatus_trap_s :: "u64 \<Rightarrow> u8 \<Rightarrow> u64" where
  "mstatus_trap_s st pr =
     (let st1 = (st AND NOT kMstatusSpie) OR (if st AND kMstatusSie \<noteq> 0 then kMstatusSpie else 0);
          st2 = st1 AND NOT kMstatusSie in
      (st2 AND NOT kMstatusSpp) OR (if pr = kPrivSupervisor then kMstatusSpp else 0))"

definition mstatus_trap_m :: "u64 \<Rightarrow> u8 \<Rightarrow> u64" where
  "mstatus_trap_m st pr =
     (let st1 = (st AND NOT kMstatusMpie) OR (if st AND kMstatusMie \<noteq> 0 then kMstatusMpie else 0);
          st2 = st1 AND NOT kMstatusMie in
      (st2 AND NOT kMstatusMppMask) OR push_bit 11 (ucast pr))"

definition vector_base :: "u64 \<Rightarrow> u64 \<Rightarrow> u64" where
  "vector_base tvec cause =
     (let base = tvec AND NOT 3 in
      if tvec AND 3 = 1 \<and> cause AND kIntBit \<noteq> 0 then base + 4 * (cause AND 0xf) else base)"

definition trap_to_s :: "RiscvState \<Rightarrow> u64 \<Rightarrow> bool" where
  "trap_to_s s cause =
     (let deleg_src = (if cause AND kIntBit \<noteq> 0 then mideleg s else medeleg s) in
      drop_bit (unat (cause AND 0xfff)) deleg_src AND 1 \<noteq> 0 \<and> priv s < kPrivMachine)"

text \<open>The trap takes the program counter of the CPU and returns the vector.\<close>

definition riscv_trap :: "u64 \<Rightarrow> u64 \<Rightarrow> u64 \<Rightarrow> RiscvState \<Rightarrow> u64 \<times> RiscvState" where
  "riscv_trap cpc cause tval s =
     (if trap_to_s s cause then
        (vector_base (stvec s) cause,
         s\<lparr>sepc := cpc, scause := cause, stval := tval,
           mstatus := mstatus_trap_s (mstatus s) (priv s), priv := kPrivSupervisor\<rparr>)
      else
        (vector_base (mtvec s) cause,
         s\<lparr>mepc := cpc, mcause := cause, mtval := tval,
           mstatus := mstatus_trap_m (mstatus s) (priv s), priv := kPrivMachine\<rparr>))"

definition riscv_sync_timer :: "('d, 'l) env \<Rightarrow> 'd hart \<Rightarrow> 'd hart" where
  "riscv_sync_timer E h =
     (case e_timer E of None \<Rightarrow> h
      | Some now \<Rightarrow>
          if stimecmp (rs h) \<noteq> NOT 0
          then upd_rs (riscv_set_ext_irq kIrqStip (stimecmp (rs h) \<le> now (devs h))) h else h)"

definition irq_order :: "nat list" where
  "irq_order = [11, 3, 7, 9, 1, 5]"

definition irq_take :: "RiscvState \<Rightarrow> nat \<Rightarrow> bool" where
  "irq_take s i =
     (if drop_bit i (mideleg s) AND 1 \<noteq> 0
      then (if priv s = kPrivSupervisor then mstatus s AND kMstatusSie \<noteq> 0
            else priv s < kPrivSupervisor)
      else (if priv s = kPrivMachine then mstatus s AND kMstatusMie \<noteq> 0 else priv s < kPrivMachine))"

fun irq_scan :: "RiscvState \<Rightarrow> u64 \<Rightarrow> nat list \<Rightarrow> nat option" where
  "irq_scan s pending [] = None"
| "irq_scan s pending (i # is) =
     (if drop_bit i pending AND 1 = 0 then irq_scan s pending is
      else if irq_take s i then Some i else irq_scan s pending is)"

definition riscv_deliver_interrupt :: "'d hart \<Rightarrow> 'd hart" where
  "riscv_deliver_interrupt h =
     (let s = rs h; pending = MipAll s AND mie s in
      if pending = 0 then h
      else case irq_scan s pending irq_order of
        None \<Rightarrow> h
      | Some i \<Rightarrow> (let (vec, s') = riscv_trap (pc (cpu h)) (kIntBit OR of_nat i) 0 s in
          h\<lparr>cpu := (cpu h)\<lparr>pc := vec\<rparr>, rs := s'\<rparr>))"

definition mstatus_mret :: "u64 \<Rightarrow> u64 \<times> u64" where
  "mstatus_mret st =
     (let st1 = (st AND NOT kMstatusMie) OR (if st AND kMstatusMpie \<noteq> 0 then kMstatusMie else 0);
          st2 = st1 OR kMstatusMpie;
          mpp = drop_bit 11 (st2 AND kMstatusMppMask);
          st3 = (if mpp \<noteq> ucast kPrivMachine then st2 AND NOT kMstatusMprv else st2) in
      (mpp, st3 AND NOT kMstatusMppMask))"

definition return_pc :: "RiscvState \<Rightarrow> u64 \<Rightarrow> u64" where
  "return_pc s epc =
     (let target = epc AND NOT 1 in if misa s AND kMisaC = 0 then target AND NOT 2 else target)"

definition riscv_mret :: "RiscvState \<Rightarrow> u64 \<times> RiscvState" where
  "riscv_mret s =
     (let (mpp, st) = mstatus_mret (mstatus s) in
      (return_pc s (mepc s), s\<lparr>mstatus := st, priv := ucast mpp\<rparr>))"

definition mstatus_sret :: "u64 \<Rightarrow> u8 \<times> u64" where
  "mstatus_sret st =
     (let st1 = (st AND NOT kMstatusSie) OR (if st AND kMstatusSpie \<noteq> 0 then kMstatusSie else 0);
          st2 = st1 OR kMstatusSpie;
          st3 = st2 AND NOT kMstatusMprv in
      (if st3 AND kMstatusSpp \<noteq> 0 then kPrivSupervisor else kPrivUser, st3 AND NOT kMstatusSpp))"

definition riscv_sret :: "RiscvState \<Rightarrow> u64 \<times> RiscvState" where
  "riscv_sret s =
     (let (p, st) = mstatus_sret (mstatus s) in
      (return_pc s (sepc s), s\<lparr>priv := p, mstatus := st\<rparr>))"

section \<open>Reading\<close>

datatype 'a csr_res = CsrOk 'a | CsrFail | CsrOob

text \<open>\<open>None\<close> is the return value -1 of \<open>ReadCounter\<close>.\<close>

definition ReadCounter :: "('d, 'l) env \<Rightarrow> 'd hart \<Rightarrow> u64 \<Rightarrow> u64 option" where
  "ReadCounter E h addr =
     (let s = rs h;
          gate = (if addr = 0xC00 then 1 else if addr = 0xC01 then 2
                  else if addr = 0xC02 then 4 else 0) in
      if priv s < kPrivMachine \<and>
         (mcounteren s AND gate = 0 \<or> priv s = kPrivUser \<and> scounteren s AND gate = 0)
      then None
      else if addr = 0xB00 \<or> addr = 0xC00 then Some (mcycle s)
      else if addr = 0xB02 \<or> addr = 0xC02 then Some (minstret s)
      else if addr = 0xC01 then
        Some (case e_timer E of Some now \<Rightarrow> now (devs h) | None \<Rightarrow> mcycle s)
      else None)"

definition CsrPriv :: "u64 \<Rightarrow> u8" where
  "CsrPriv addr = ucast (drop_bit 8 addr AND 3)"

definition trig_reg :: "(nat \<Rightarrow> u64) \<Rightarrow> RiscvState \<Rightarrow> u64 csr_res" where
  "trig_reg td s = (if unat (tselect s) < kTrigCount then CsrOk (td (unat (tselect s))) else CsrOob)"

definition csr_read_default :: "RiscvState \<Rightarrow> u64 \<Rightarrow> u64 csr_res" where
  "csr_read_default s addr =
     (if 0xB03 \<le> addr \<and> addr \<le> 0xB12 then CsrOk (mhpmcounter s (unat (addr - 0xB03)))
      else if 0x323 \<le> addr \<and> addr \<le> 0x332 then CsrOk (mhpmevent s (unat (addr - 0x323)))
      else if 0x3A0 \<le> addr \<and> addr \<le> 0x3AE \<and> addr AND 1 = 0 then
        (let k = unat ((addr - 0x3A0) div 2) in if k < 2 then CsrOk (pmpcfg s k) else CsrOob)
      else if 0x3B0 \<le> addr \<and> addr \<le> 0x3BF then CsrOk (pmpaddr s (unat (addr - 0x3B0)))
      else CsrFail)"

definition csr_read_user :: "RiscvState \<Rightarrow> u64 \<Rightarrow> u64 csr_res option" where
  "csr_read_user s addr =
     (if addr = 0x001 then Some (CsrOk (ucast (fflags s)))
      else if addr = 0x002 then Some (CsrOk (ucast (frm s)))
      else if addr = 0x003 then Some (CsrOk (push_bit 5 (ucast (frm s)) OR ucast (fflags s)))
      else None)"

definition csr_read_super :: "RiscvState \<Rightarrow> u64 \<Rightarrow> u64 csr_res option" where
  "csr_read_super s addr =
     (if addr = 0x100 then
        (let v = mstatus s AND kSstatusRmask in
         Some (CsrOk (if mstatus s AND kMstatusFs = kMstatusFs then v OR push_bit 63 1 else v)))
      else if addr = 0x104 then Some (CsrOk (mie s AND kIrqSLevelMask))
      else if addr = 0x105 then Some (CsrOk (stvec s))
      else if addr = 0x106 then Some (CsrOk (scounteren s))
      else if addr = 0x10A then Some (CsrOk (senvcfg s))
      else if addr = 0x14D then Some (CsrOk (stimecmp s))
      else if addr = 0x140 then Some (CsrOk (sscratch s))
      else if addr = 0x141 then
        Some (CsrOk (if misa s AND kMisaC \<noteq> 0 then sepc s else sepc s AND NOT 2))
      else if addr = 0x142 then Some (CsrOk (scause s))
      else if addr = 0x143 then Some (CsrOk (stval s))
      else if addr = 0x144 then Some (CsrOk (MipAll s AND kIrqSLevelMask))
      else if addr = 0x180 then
        Some (if priv s = kPrivSupervisor \<and> mstatus s AND kMstatusTvm \<noteq> 0 then CsrFail
              else CsrOk (satp s))
      else None)"

definition csr_read_machine :: "RiscvState \<Rightarrow> u64 \<Rightarrow> u64 csr_res option" where
  "csr_read_machine s addr =
     (if addr = 0x300 then Some (CsrOk (mstatus s))
      else if addr = 0x301 then Some (CsrOk (misa s))
      else if addr = 0x302 then Some (CsrOk (medeleg s))
      else if addr = 0x303 then Some (CsrOk (mideleg s))
      else if addr = 0x304 then Some (CsrOk (mie s))
      else if addr = 0x305 then Some (CsrOk (mtvec s))
      else if addr = 0x306 then Some (CsrOk (mcounteren s))
      else if addr = 0x30A then Some (CsrOk (menvcfg s))
      else if addr = 0x320 then Some (CsrOk (mcountinhibit s))
      else if addr = 0x340 then Some (CsrOk (mscratch s))
      else if addr = 0x341 then
        Some (CsrOk (if misa s AND kMisaC \<noteq> 0 then mepc s else mepc s AND NOT 2))
      else if addr = 0x342 then Some (CsrOk (mcause s))
      else if addr = 0x343 then Some (CsrOk (mtval s))
      else if addr = 0x344 then Some (CsrOk (MipAll s))
      else None)"

definition csr_read_debug :: "RiscvState \<Rightarrow> u64 \<Rightarrow> u64 csr_res option" where
  "csr_read_debug s addr =
     (if addr = 0x5A8 then Some (CsrOk (scontext s))
      else if addr = 0x7A0 then Some (CsrOk (tselect s))
      else if addr = 0x7A1 then Some (trig_reg (tdata1 s) s)
      else if addr = 0x7A2 then Some (trig_reg (tdata2 s) s)
      else if addr = 0x7A3 then Some (trig_reg (tdata3 s) s)
      else if addr = 0x7A4 then Some (CsrOk (push_bit 6 1))
      else if addr = 0x7A5 then Some (CsrOk (tcontrol s))
      else if addr = 0x744 then Some (CsrOk (mnstatus s))
      else if addr = 0xF11 \<or> addr = 0xF12 \<or> addr = 0xF13 \<or> addr = 0xF14 then Some (CsrOk 0)
      else None)"

definition orelse :: "'a option \<Rightarrow> 'a option \<Rightarrow> 'a option" where
  "orelse a b = (case a of Some x \<Rightarrow> Some x | None \<Rightarrow> b)"

definition riscv_csr_read :: "('d, 'l) env \<Rightarrow> 'd hart \<Rightarrow> u64 \<Rightarrow> u64 csr_res" where
  "riscv_csr_read E h addr =
     (let s = rs h in
      if priv s < CsrPriv addr then CsrFail
      else case ReadCounter E h addr of
        Some v \<Rightarrow> CsrOk v
      | None \<Rightarrow>
          (case orelse (csr_read_user s addr) (orelse (csr_read_super s addr)
                 (orelse (csr_read_machine s addr) (csr_read_debug s addr))) of
             Some r \<Rightarrow> r | None \<Rightarrow> csr_read_default s addr))"

section \<open>Writing\<close>

definition csr_write_user :: "RiscvState \<Rightarrow> u64 \<Rightarrow> u64 \<Rightarrow> RiscvState csr_res option" where
  "csr_write_user s addr val =
     (if addr = 0x001 then Some (CsrOk (s\<lparr>fflags := ucast (val AND 0x1f)\<rparr>))
      else if addr = 0x002 then Some (CsrOk (s\<lparr>frm := ucast (val AND 7)\<rparr>))
      else if addr = 0x003 then
        Some (CsrOk (s\<lparr>frm := ucast (drop_bit 5 val AND 7), fflags := ucast (val AND 0x1f)\<rparr>))
      else None)"

definition write_satp :: "RiscvState \<Rightarrow> u64 \<Rightarrow> RiscvState csr_res" where
  "write_satp s val =
     (if priv s = kPrivSupervisor \<and> mstatus s AND kMstatusTvm \<noteq> 0 then CsrFail
      else let mode = drop_bit 60 val AND 0xf in
       if mode \<noteq> kSatpModeBare \<and> mode \<noteq> kSatpModeSv39 \<and> mode \<noteq> kSatpModeSv48 then CsrOk s
       else CsrOk (s\<lparr>satp := val AND kSatpWmask\<rparr>))"

definition csr_write_super :: "RiscvState \<Rightarrow> u64 \<Rightarrow> u64 \<Rightarrow> RiscvState csr_res option" where
  "csr_write_super s addr val =
     (if addr = 0x100 then
        Some (CsrOk (s\<lparr>mstatus := (mstatus s AND NOT kSstatusWmask) OR (val AND kSstatusWmask)\<rparr>))
      else if addr = 0x104 then
        Some (CsrOk (s\<lparr>mie := (mie s AND NOT kIrqSLevelMask) OR (val AND kIrqSLevelMask)\<rparr>))
      else if addr = 0x105 then Some (CsrOk (s\<lparr>stvec := val AND NOT 2\<rparr>))
      else if addr = 0x106 then Some (CsrOk (s\<lparr>scounteren := val\<rparr>))
      else if addr = 0x10A then Some (CsrOk (s\<lparr>senvcfg := val AND kSenvcfgWmask\<rparr>))
      else if addr = 0x14D then Some (CsrOk (s\<lparr>stimecmp := val\<rparr>))
      else if addr = 0x140 then Some (CsrOk (s\<lparr>sscratch := val\<rparr>))
      else if addr = 0x141 then Some (CsrOk (s\<lparr>sepc := val AND NOT 1\<rparr>))
      else if addr = 0x142 then Some (CsrOk (s\<lparr>scause := val\<rparr>))
      else if addr = 0x143 then Some (CsrOk (s\<lparr>stval := val\<rparr>))
      else if addr = 0x144 then
        Some (CsrOk (s\<lparr>mip := (mip s AND NOT kIrqSsip) OR (val AND kIrqSsip)\<rparr>))
      else if addr = 0x180 then Some (write_satp s val)
      else None)"

definition write_mstatus :: "RiscvState \<Rightarrow> u64 \<Rightarrow> RiscvState" where
  "write_mstatus s val =
     (let v = (if val AND kMstatusMppMask = push_bit 11 (ucast kPrivHypervisor)
               then val AND NOT kMstatusMppMask else val);
          st = (mstatus s AND NOT kMstatusWmask) OR (v AND kMstatusWmask) in
      s\<lparr>mstatus := (st AND NOT kMstatusUxlMask) OR kMstatusUxlValue\<rparr>)"

definition write_misa :: "RiscvState \<Rightarrow> u64 \<Rightarrow> u64 \<Rightarrow> RiscvState" where
  "write_misa s val next_pc =
     (let new_misa = (val AND kMisaSupported) OR kMisaI in
      s\<lparr>misa := (if misa s AND kMisaC \<noteq> 0 \<and> new_misa AND kMisaC = 0 \<and> next_pc mod 4 \<noteq> 0
                 then new_misa OR kMisaC else new_misa)\<rparr>)"

definition csr_write_machine :: "RiscvState \<Rightarrow> u64 \<Rightarrow> u64 \<Rightarrow> u64 \<Rightarrow> RiscvState csr_res option" where
  "csr_write_machine s addr val next_pc =
     (if addr = 0x300 then Some (CsrOk (write_mstatus s val))
      else if addr = 0x301 then Some (CsrOk (write_misa s val next_pc))
      else if addr = 0x302 then Some (CsrOk (s\<lparr>medeleg := val AND kMedelegWmask\<rparr>))
      else if addr = 0x303 then Some (CsrOk (s\<lparr>mideleg := val AND kMidelegWmask\<rparr>))
      else if addr = 0x304 then Some (CsrOk (s\<lparr>mie := val\<rparr>))
      else if addr = 0x305 then Some (CsrOk (s\<lparr>mtvec := val AND NOT 2\<rparr>))
      else if addr = 0x306 then Some (CsrOk (s\<lparr>mcounteren := val\<rparr>))
      else if addr = 0x30A then Some (CsrOk (s\<lparr>menvcfg := val AND kMenvcfgWmask\<rparr>))
      else if addr = 0x320 then Some (CsrOk (s\<lparr>mcountinhibit := val\<rparr>))
      else if addr = 0x340 then Some (CsrOk (s\<lparr>mscratch := val\<rparr>))
      else if addr = 0x341 then Some (CsrOk (s\<lparr>mepc := val AND NOT 1\<rparr>))
      else if addr = 0x342 then Some (CsrOk (s\<lparr>mcause := val\<rparr>))
      else if addr = 0x343 then Some (CsrOk (s\<lparr>mtval := val\<rparr>))
      else if addr = 0x344 then
        Some (CsrOk (s\<lparr>mip := (mip s AND NOT (kIrqSsip OR kIrqStip OR kIrqSeip)) OR
                              (val AND (kIrqSsip OR kIrqStip OR kIrqSeip))\<rparr>))
      else None)"

definition csr_write_debug :: "RiscvState \<Rightarrow> u64 \<Rightarrow> u64 \<Rightarrow> RiscvState csr_res option" where
  "csr_write_debug s addr val =
     (let trig_ok = unat (tselect s) < kTrigCount in
      if addr = 0x5A8 then Some (CsrOk (s\<lparr>scontext := val\<rparr>))
      else if addr = 0x7A0 then
        Some (CsrOk (s\<lparr>tselect := (if val < of_nat kTrigCount then val else of_nat kTrigCount - 1)\<rparr>))
      else if addr = 0x7A1 then Some (if trig_ok then CsrOk (RiscvTriggerWriteTdata1 s val) else CsrOob)
      else if addr = 0x744 then Some (CsrOk (s\<lparr>mnstatus := val\<rparr>))
      else if addr = 0x7A2 then
        Some (if trig_ok then CsrOk (s\<lparr>tdata2 := (tdata2 s)(unat (tselect s) := val)\<rparr>) else CsrOob)
      else if addr = 0x7A3 then Some (if trig_ok then CsrOk (RiscvTriggerWriteTdata3 s val) else CsrOob)
      else if addr = 0x7A5 then
        Some (CsrOk (s\<lparr>tcontrol := val AND (kTcontrolMte OR kTcontrolMpte)\<rparr>))
      else None)"

definition csr_write_default :: "RiscvState \<Rightarrow> u64 \<Rightarrow> u64 \<Rightarrow> RiscvState csr_res" where
  "csr_write_default s addr val =
     (if 0xB03 \<le> addr \<and> addr \<le> 0xB12 then
        CsrOk (s\<lparr>mhpmcounter := (mhpmcounter s)(unat (addr - 0xB03) := val)\<rparr>)
      else if 0x323 \<le> addr \<and> addr \<le> 0x332 then
        CsrOk (s\<lparr>mhpmevent := (mhpmevent s)(unat (addr - 0x323) := val)\<rparr>)
      else if 0x3A0 \<le> addr \<and> addr \<le> 0x3AE \<and> addr AND 1 = 0 then
        (let k = unat ((addr - 0x3A0) div 2) in if k < 2 then CsrOk (WritePmpCfg s k val) else CsrOob)
      else if 0x3B0 \<le> addr \<and> addr \<le> 0x3BF then CsrOk (WritePmpAddr s (unat (addr - 0x3B0)) val)
      else CsrFail)"

definition riscv_csr_write :: "RiscvState \<Rightarrow> u64 \<Rightarrow> u64 \<Rightarrow> u64 \<Rightarrow> RiscvState csr_res" where
  "riscv_csr_write s addr val next_pc =
     (if priv s < CsrPriv addr then CsrFail
      else if addr = 0xB00 then CsrOk (s\<lparr>mcycle := val, counter_written := kCounterMcycle\<rparr>)
      else if addr = 0xB02 then CsrOk (s\<lparr>minstret := val, counter_written := kCounterMinstret\<rparr>)
      else case orelse (csr_write_user s addr val) (orelse (csr_write_super s addr val)
             (orelse (csr_write_machine s addr val next_pc) (csr_write_debug s addr val))) of
        Some r \<Rightarrow> r | None \<Rightarrow> csr_write_default s addr val)"

section \<open>Reset\<close>

definition tlb_zero :: RiscvTlbEntry where
  "tlb_zero = \<lparr>te_vpn = 0, te_pbase = 0, te_host = None, te_gen = 0, te_satp = 0, te_mstatus = 0,
     te_menvcfg = 0, te_pmp_gen = 0, te_priv = 0, te_eff = 0, te_acc = 0\<rparr>"

definition riscv_init :: RiscvState where
  "riscv_init = \<lparr>misa = kMisaSupported, mstatus = 0x200000000, mie = 0, mip = 0, mtvec = 0,
     mscratch = 0, mepc = 0, mcause = 0, mtval = 0, medeleg = 0, mideleg = 0, mcounteren = 0,
     scounteren = 0, mcycle = 0, minstret = 0, mcountinhibit = 0, stvec = 0, sscratch = 0,
     sepc = 0, scause = 0, stval = 0, satp = 0, tselect = 0, tcontrol = 0,
     tdata1 = (\<lambda>i. if i < kTrigCount then kTrigTypeMcontrol6 else 0), tdata2 = (\<lambda>_. 0),
     tdata3 = (\<lambda>_. 0), scontext = 0, menvcfg = 0, senvcfg = 0, stimecmp = NOT 0, mnstatus = 0,
     mhpmcounter = (\<lambda>_. 0), mhpmevent = (\<lambda>_. 0), pmpcfg = (\<lambda>_. 0), pmpaddr = (\<lambda>_. 0),
     tlb = (\<lambda>_. tlb_zero), tlb_gen = 1, tlb_clock = 0, pmp_gen = 0, priv = kPrivMachine, frm = 0,
     fflags = 0, counter_written = kCounterNone, ext_irq = 0, res_valid = False, res_addr = 0,
     trap_seq = 0, trap_signal = 0\<rparr>"

text \<open>The fields of the reset state that the examples read.\<close>

lemma riscv_init_simps [simp]: "priv riscv_init = 3" "mstatus riscv_init = 0x200000000" "mie riscv_init = 0"
   "mip riscv_init = 0" "ext_irq riscv_init = 0" "stimecmp riscv_init = NOT 0" "misa riscv_init = kMisaSupported"
   "satp riscv_init = 0" "pmpcfg riscv_init = (\<lambda>_. 0)" "medeleg riscv_init = 0" "mtvec riscv_init = 0"
  by (simp_all add: riscv_init_def)

section \<open>Device effects on the processor\<close>

text \<open>
  \<open>set_irq\<close> is \<open>riscv_set_ext_irq\<close> on this model; the exit devices set
  \<open>exit_code\<close> and \<open>halted\<close>.
\<close>

definition apply_event :: "cpu_event \<Rightarrow> 'd hart \<Rightarrow> 'd hart" where
  "apply_event e h = (case e of
       SetIrq line level \<Rightarrow> upd_rs (riscv_set_ext_irq line level) h
     | Halt code \<Rightarrow> upd_cpu (\<lambda>c. c\<lparr>exit_code := code, halted := True\<rparr>) h)"

definition apply_events :: "cpu_event list \<Rightarrow> 'd hart \<Rightarrow> 'd hart" where
  "apply_events es h = fold apply_event es h"

section \<open>The values the registers may hold\<close>

text \<open>
  \<open>rs_ok\<close> collects the legal values of the registers with restricted fields:
  the write-any-read-legal policies of the privileged specification as the
  code implements them, the range of every index into an array, and the
  privilege mode.  \<open>UXL\<close> of \<open>mstatus\<close> is 2 and \<open>MPP\<close> is not the reserved mode.
\<close>

definition mstatus_ok :: "u64 \<Rightarrow> bool" where
  "mstatus_ok m \<longleftrightarrow> bit m 33 \<and> \<not> bit m 32 \<and> (bit m 12 \<longrightarrow> bit m 11)"

definition rs_ok :: "RiscvState \<Rightarrow> bool" where
  "rs_ok s \<longleftrightarrow> bit (misa s) 8 \<and> misa s AND NOT kMisaSupported = 0 \<and> mstatus_ok (mstatus s) \<and>
     medeleg s AND NOT kMedelegWmask = 0 \<and> mideleg s AND NOT kMidelegWmask = 0 \<and>
     drop_bit 60 (satp s) AND 0xf \<in> {kSatpModeBare, kSatpModeSv39, kSatpModeSv48} \<and>
     unat (tselect s) < kTrigCount \<and> \<not> bit (stvec s) 1 \<and> \<not> bit (mtvec s) 1 \<and>
     \<not> bit (sepc s) 0 \<and> \<not> bit (mepc s) 0 \<and> mip s AND NOT kIrqSLevelMask = 0 \<and>
     priv s \<in> {kPrivUser, kPrivSupervisor, kPrivMachine} \<and> frm s < 8 \<and> fflags s < 32 \<and>
     counter_written s \<le> kCounterMinstret \<and> pmp_fields_ok (pmpcfg s) (pmpaddr s) \<and> trig_ok (tdata1 s)"

lemma mstatus_ok_super:
  "mstatus_ok m \<Longrightarrow> mstatus_ok ((m AND NOT kSstatusWmask) OR (v AND kSstatusWmask))"
  by (simp add: mstatus_ok_def bit_simps)

lemma mstatus_ok_write: "mstatus_ok (mstatus (write_mstatus s val))"
  by (simp add: write_mstatus_def mstatus_ok_def bit_simps Let_def mpp_hyp)

lemma rs_ok_free [simp]:
  "rs_ok (s\<lparr>mie := v0\<rparr>) = rs_ok s"
  "rs_ok (s\<lparr>mscratch := v1\<rparr>) = rs_ok s"
  "rs_ok (s\<lparr>mcause := v2\<rparr>) = rs_ok s"
  "rs_ok (s\<lparr>mtval := v3\<rparr>) = rs_ok s"
  "rs_ok (s\<lparr>mcounteren := v4\<rparr>) = rs_ok s"
  "rs_ok (s\<lparr>scounteren := v5\<rparr>) = rs_ok s"
  "rs_ok (s\<lparr>mcycle := v6\<rparr>) = rs_ok s"
  "rs_ok (s\<lparr>minstret := v7\<rparr>) = rs_ok s"
  "rs_ok (s\<lparr>mcountinhibit := v8\<rparr>) = rs_ok s"
  "rs_ok (s\<lparr>sscratch := v9\<rparr>) = rs_ok s"
  "rs_ok (s\<lparr>scause := v10\<rparr>) = rs_ok s"
  "rs_ok (s\<lparr>stval := v11\<rparr>) = rs_ok s"
  "rs_ok (s\<lparr>tcontrol := v12\<rparr>) = rs_ok s"
  "rs_ok (s\<lparr>tdata2 := v13\<rparr>) = rs_ok s"
  "rs_ok (s\<lparr>tdata3 := v14\<rparr>) = rs_ok s"
  "rs_ok (s\<lparr>scontext := v15\<rparr>) = rs_ok s"
  "rs_ok (s\<lparr>menvcfg := v16\<rparr>) = rs_ok s"
  "rs_ok (s\<lparr>senvcfg := v17\<rparr>) = rs_ok s"
  "rs_ok (s\<lparr>stimecmp := v18\<rparr>) = rs_ok s"
  "rs_ok (s\<lparr>mnstatus := v19\<rparr>) = rs_ok s"
  "rs_ok (s\<lparr>mhpmcounter := v20\<rparr>) = rs_ok s"
  "rs_ok (s\<lparr>mhpmevent := v21\<rparr>) = rs_ok s"
  "rs_ok (s\<lparr>tlb := v22\<rparr>) = rs_ok s"
  "rs_ok (s\<lparr>tlb_gen := v23\<rparr>) = rs_ok s"
  "rs_ok (s\<lparr>tlb_clock := v24\<rparr>) = rs_ok s"
  "rs_ok (s\<lparr>pmp_gen := v25\<rparr>) = rs_ok s"
  "rs_ok (s\<lparr>ext_irq := v26\<rparr>) = rs_ok s"
  "rs_ok (s\<lparr>res_valid := v27\<rparr>) = rs_ok s"
  "rs_ok (s\<lparr>res_addr := v28\<rparr>) = rs_ok s"
  "rs_ok (s\<lparr>trap_seq := v29\<rparr>) = rs_ok s"
  "rs_ok (s\<lparr>trap_signal := v30\<rparr>) = rs_ok s"
  by (simp_all add: rs_ok_def)

lemma rs_ok_upd:
  assumes "rs_ok s"
  shows "mstatus_ok v1 \<Longrightarrow> rs_ok (s\<lparr>mstatus := v1\<rparr>)"
    and "bit v2 8 \<Longrightarrow> v2 AND NOT kMisaSupported = 0 \<Longrightarrow> rs_ok (s\<lparr>misa := v2\<rparr>)"
    and "v3 AND NOT kMedelegWmask = 0 \<Longrightarrow> rs_ok (s\<lparr>medeleg := v3\<rparr>)"
    and "v4 AND NOT kMidelegWmask = 0 \<Longrightarrow> rs_ok (s\<lparr>mideleg := v4\<rparr>)"
    and "drop_bit 60 v5 AND 0xf \<in> {kSatpModeBare, kSatpModeSv39, kSatpModeSv48} \<Longrightarrow> rs_ok (s\<lparr>satp := v5\<rparr>)"
    and "unat v6 < kTrigCount \<Longrightarrow> rs_ok (s\<lparr>tselect := v6\<rparr>)"
    and "\<not> bit v7 1 \<Longrightarrow> rs_ok (s\<lparr>stvec := v7\<rparr>)"
    and "\<not> bit v7 1 \<Longrightarrow> rs_ok (s\<lparr>mtvec := v7\<rparr>)"
    and "\<not> bit v8 0 \<Longrightarrow> rs_ok (s\<lparr>sepc := v8\<rparr>)"
    and "\<not> bit v8 0 \<Longrightarrow> rs_ok (s\<lparr>mepc := v8\<rparr>)"
    and "v9 AND NOT kIrqSLevelMask = 0 \<Longrightarrow> rs_ok (s\<lparr>mip := v9\<rparr>)"
    and "v10 \<in> {kPrivUser, kPrivSupervisor, kPrivMachine} \<Longrightarrow> rs_ok (s\<lparr>priv := v10\<rparr>)"
    and "v11 < 8 \<Longrightarrow> rs_ok (s\<lparr>frm := v11\<rparr>)"
    and "v12 < 32 \<Longrightarrow> rs_ok (s\<lparr>fflags := v12\<rparr>)"
    and "v13 \<le> kCounterMinstret \<Longrightarrow> rs_ok (s\<lparr>counter_written := v13\<rparr>)"
    and "trig_ok v14 \<Longrightarrow> rs_ok (s\<lparr>tdata1 := v14\<rparr>)"
  using assms by (simp_all add: rs_ok_def)

lemma rs_ok_user:
  assumes "rs_ok s" "csr_write_user s addr val = Some (CsrOk s')"
  shows "rs_ok s'"
  using assms unfolding csr_write_user_def
  by (auto intro!: rs_ok_upd ucast_and_less split: if_splits)

lemma write_satp_ok:
  assumes "rs_ok s" "write_satp s val = CsrOk s'"
  shows "rs_ok s'"
  using assms unfolding write_satp_def Let_def
  by (auto intro!: rs_ok_upd split: if_splits)

lemma mip_ok: "x AND NOT m = 0 \<Longrightarrow> k AND NOT m = 0 \<Longrightarrow> ((x AND NOT k) OR (v AND k)) AND NOT (m :: u64) = 0"
  unfolding and_not_bits by (auto simp: bit_simps)

lemma rs_ok_super:
  assumes "rs_ok s" "csr_write_super s addr val = Some (CsrOk s')"
  shows "rs_ok s'"
proof -
  have m: "mstatus_ok (mstatus s)" and i: "mip s AND NOT 0x222 = 0" using assms(1) by (simp_all add: rs_ok_def)
  have "((mip s AND NOT 2) OR (val AND 2)) AND NOT 0x222 = 0" by (rule mip_ok [OF i]) simp
  then show ?thesis using assms(2) unfolding csr_write_super_def
    by (auto split: if_splits simp: assms(1) bit_simps intro!: rs_ok_upd [OF assms(1)] mstatus_ok_super [OF m, simplified]
       intro: write_satp_ok [OF assms(1)])
qed

lemma write_misa_ok:
  fixes val next_pc s
  defines "m \<equiv> misa (write_misa s val next_pc)"
  shows "bit m 8" "m AND NOT kMisaSupported = 0"
proof -
  have "(((val AND kMisaSupported) OR kMisaI) OR k) AND NOT kMisaSupported = 0" if "k = 0 \<or> k = kMisaC" for k
    using that mask_and_not [of val kMisaSupported] by (auto simp: word_ao_dist simp del: mask_and_not)
  from this [of 0] this [of kMisaC]
  show "bit m 8" "m AND NOT kMisaSupported = 0"
    by (simp_all add: m_def write_misa_def Let_def bit_simps)
qed

lemma rs_ok_machine:
  assumes "rs_ok s" "csr_write_machine s addr val next_pc = Some (CsrOk s')"
  shows "rs_ok s'"
proof -
  have m: "mstatus_ok (mstatus s)" and i: "mip s AND NOT 0x222 = 0" using assms(1) by (simp_all add: rs_ok_def)
  have i': "((mip s AND NOT 0x222) OR (val AND 0x222)) AND NOT 0x222 = 0" by (rule mip_ok [OF i]) simp
  have a: "rs_ok (write_mstatus s val)"
    using rs_ok_upd(1) [OF assms(1) mstatus_ok_write [of s val]] by (simp add: write_mstatus_def Let_def)
  have b: "rs_ok (write_misa s val next_pc)"
    using rs_ok_upd(2) [OF assms(1) write_misa_ok [of s val next_pc]] by (simp add: write_misa_def Let_def)
  show ?thesis using assms(2) a b i' mask_and_not [of val kMedelegWmask] mask_and_not [of val kMidelegWmask]
    unfolding csr_write_machine_def
    by (auto split: if_splits simp: assms(1) bit_simps intro!: rs_ok_upd [OF assms(1)])
qed

lemma rs_ok_debug:
  assumes "rs_ok s" "csr_write_debug s addr val = Some (CsrOk s')"
  shows "rs_ok s'"
proof -
  have t: "trig_ok (tdata1 s)" using assms(1) by (simp add: rs_ok_def)
  have "rs_ok (RiscvTriggerWriteTdata1 s val)" if "unat (tselect s) < kTrigCount"
    using rs_ok_upd(16) [OF assms(1) trig_ok_write [OF t that, of val]]
    by (simp add: RiscvTriggerWriteTdata1_def Let_def)
  then show ?thesis using assms(2) unfolding csr_write_debug_def Let_def
    by (auto split: if_splits simp: assms(1) RiscvTriggerWriteTdata3_def Let_def word_less_nat_alt
        intro!: rs_ok_upd [OF assms(1)])
qed

lemma rs_ok_pmp:
  assumes "rs_ok s"
  shows "which < 2 \<Longrightarrow> rs_ok (WritePmpCfg s which val)" and "rs_ok (WritePmpAddr s j val)"
proof -
  have "pmp_ok s" using assms by (simp add: rs_ok_def pmp_fields_ok_iff)
  then have c: "which < 2 \<Longrightarrow> pmp_ok (WritePmpCfg s which val)" and d: "pmp_ok (WritePmpAddr s j val)"
    by (simp_all add: pmp_ok_WritePmpCfg pmp_ok_WritePmpAddr)
  show "which < 2 \<Longrightarrow> rs_ok (WritePmpCfg s which val)"
    using c [folded pmp_fields_ok_iff] assms by (simp add: rs_ok_def WritePmpCfg_def Let_def)
  show "rs_ok (WritePmpAddr s j val)"
    using d [folded pmp_fields_ok_iff] assms by (simp add: rs_ok_def WritePmpAddr_def Let_def)
qed

lemma rs_ok_default:
  assumes "rs_ok s" "csr_write_default s addr val = CsrOk s'"
  shows "rs_ok s'"
  using assms(2) unfolding csr_write_default_def Let_def
  by (auto split: if_splits simp: assms(1) rs_ok_pmp [OF assms(1)])

lemma rs_ok_csr_write:
  assumes "rs_ok s" "riscv_csr_write s addr val next_pc = CsrOk s'"
  shows "rs_ok s'"
  using assms(2) unfolding riscv_csr_write_def orelse_def
  by (auto split: if_splits option.splits simp: assms(1)
      intro: rs_ok_user [OF assms(1)] rs_ok_super [OF assms(1)] rs_ok_machine [OF assms(1)]
        rs_ok_debug [OF assms(1)] rs_ok_default [OF assms(1)] rs_ok_upd(15))

lemma rs_ok_init: "rs_ok riscv_init"
  by (auto simp: rs_ok_def riscv_init_def mstatus_ok_def trig_ok_def pmp_fields_ok_def pmp_legal_def)

section \<open>Traps and returns keep the registers legal\<close>

lemma mstatus_ok_trap:
  assumes "mstatus_ok st"
  shows "mstatus_ok (mstatus_trap_s st pr)"
    and "pr \<in> {kPrivUser, kPrivSupervisor, kPrivMachine} \<Longrightarrow> mstatus_ok (mstatus_trap_m st pr)"
  using assms by (auto simp: mstatus_ok_def mstatus_trap_s_def mstatus_trap_m_def Let_def bit_simps)

lemma rs_ok_trap:
  assumes s: "rs_ok s" and p: "\<not> bit cpc 0"
  shows "rs_ok (snd (riscv_trap cpc cause tval s))"
proof -
  have "priv s \<in> {kPrivUser, kPrivSupervisor, kPrivMachine}" and "mstatus_ok (mstatus s)"
    using s by (simp_all add: rs_ok_def)
  then show ?thesis using s p mstatus_ok_trap [of "mstatus s" "priv s"]
    by (simp add: riscv_trap_def rs_ok_def)
qed

lemma low_bits_zero: "\<not> bit ((v AND NOT 3) + 4 * w) 0 \<and> \<not> bit ((v AND NOT 3) + 4 * w :: u64) 1"
proof -
  have "v AND NOT 3 = push_bit 2 (drop_bit 2 v)"
    unfolding push_drop_mask by (simp add: mask_eq_exp_minus_1)
  then have "(v AND NOT 3) + 4 * w = push_bit 2 (drop_bit 2 v + w)"
    by (simp add: push_bit_eq_mult algebra_simps)
  then show ?thesis by (simp only: bit_push_bit_iff) simp
qed

lemma vector_base_aligned: "\<not> bit (vector_base tvec cause) 0 \<and> \<not> bit (vector_base tvec cause) 1"
  using low_bits_zero [of tvec 0] low_bits_zero [of tvec] by (simp add: vector_base_def Let_def)

lemma riscv_trap_vector:
  "\<not> bit (fst (riscv_trap cpc cause tval s)) 0 \<and> \<not> bit (fst (riscv_trap cpc cause tval s)) 1"
  using vector_base_aligned by (simp add: riscv_trap_def)

lemma mpp_field: "drop_bit 11 (st AND kMstatusMppMask) = of_bool (bit st 11) + 2 * of_bool (bit (st :: u64) 12)"
proof -
  have "drop_bit 11 (st AND kMstatusMppMask) = take_bit 2 (drop_bit 11 st)"
    by (simp add: take_bit_eq_mask mask_eq_exp_minus_1)
  also have "take_bit 2 w = of_bool (bit w 0) + 2 * of_bool (bit w 1)" for w :: u64
    by (simp add: numeral_2_eq_2 take_bit_Suc bit_Suc mod_2_eq_odd bit_0)
  finally show ?thesis by (simp add: bit_drop_bit_eq)
qed

lemma mstatus_mret_ok:
  assumes "mstatus_ok st"
  shows "mstatus_ok (snd (mstatus_mret st))"
    and "(ucast (fst (mstatus_mret st)) :: u8) \<in> {kPrivUser, kPrivSupervisor, kPrivMachine}"
  using assms unfolding mstatus_mret_def Let_def mpp_field
  by (simp_all add: mstatus_ok_def bit_simps)

lemma rs_ok_mret: "rs_ok s \<Longrightarrow> rs_ok (snd (riscv_mret s))"
  using mstatus_mret_ok [of "mstatus s"] by (simp add: riscv_mret_def rs_ok_def case_prod_unfold Let_def)

lemma rs_ok_sret: "rs_ok s \<Longrightarrow> rs_ok (snd (riscv_sret s))"
  by (simp add: riscv_sret_def mstatus_sret_def Let_def rs_ok_def mstatus_ok_def bit_simps)

lemma return_pc_even: "\<not> bit (return_pc s epc) 0"
  by (simp add: return_pc_def Let_def bit_simps)


text \<open>Returning from a trap undoes it.\<close>

lemma mstatus_mret_trap:
  assumes "pr \<in> {kPrivUser, kPrivSupervisor, kPrivMachine}"
  shows "fst (mstatus_mret (mstatus_trap_m st pr)) = ucast pr"
    and "bit (snd (mstatus_mret (mstatus_trap_m st pr))) 3 = bit st 3"
proof -
  have b: "bit (mstatus_trap_m st pr) 11 = bit pr 0" "bit (mstatus_trap_m st pr) 12 = bit pr 1"
    by (simp_all add: mstatus_trap_m_def Let_def bit_simps)
  show "fst (mstatus_mret (mstatus_trap_m st pr)) = ucast pr"
    using assms unfolding mstatus_mret_def Let_def mpp_field
    by (auto simp: bit_simps b)
  show "bit (snd (mstatus_mret (mstatus_trap_m st pr))) 3 = bit st 3"
    by (simp add: mstatus_mret_def mstatus_trap_m_def Let_def mask_bits bit_simps)
qed

lemma mstatus_sret_trap:
  assumes "pr \<in> {kPrivUser, kPrivSupervisor}"
  shows "fst (mstatus_sret (mstatus_trap_s st pr)) = pr"
    and "bit (snd (mstatus_sret (mstatus_trap_s st pr))) 1 = bit st 1"
  using assms by (auto simp: mstatus_sret_def mstatus_trap_s_def Let_def mask_bits bit_simps)

lemma return_pc_id: "\<not> bit epc 0 \<Longrightarrow> bit (misa s) 2 \<or> \<not> bit epc 1 \<Longrightarrow> return_pc s epc = epc"
  using and_not_exp_id [of epc 0] and_not_exp_id [of epc 1]
  by (auto simp: return_pc_def Let_def mask_bits)

section \<open>Interrupt priority\<close>

definition irq_ready :: "RiscvState \<Rightarrow> nat \<Rightarrow> bool" where
  "irq_ready s i \<longleftrightarrow> bit (MipAll s AND mie s) i \<and> irq_take s i"

lemma irq_scan_find': "irq_scan s p is = List.find (\<lambda>i. bit p i \<and> irq_take s i) is"
  by (induction "is") (auto simp: drop_bit_and_1)

lemma irq_scan_find: "irq_scan s (MipAll s AND mie s) is = List.find (irq_ready s) is"
  unfolding irq_scan_find' by (rule arg_cong [where f = "\<lambda>P. List.find P is"]) (simp add: irq_ready_def fun_eq_iff)

lemma riscv_deliver_find:
  "riscv_deliver_interrupt h =
     (case List.find (irq_ready (rs h)) irq_order of None \<Rightarrow> h
      | Some i \<Rightarrow> h\<lparr>cpu := (cpu h)\<lparr>pc := fst (riscv_trap (pc (cpu h)) (kIntBit OR of_nat i) 0 (rs h))\<rparr>,
          rs := snd (riscv_trap (pc (cpu h)) (kIntBit OR of_nat i) 0 (rs h))\<rparr>)"
proof (cases "MipAll (rs h) AND mie (rs h) = 0")
  case True
  then have "\<not> irq_ready (rs h) i" for i by (simp add: irq_ready_def)
  then have "List.find (irq_ready (rs h)) irq_order = None" by (simp add: find_None_iff)
  then show ?thesis using True by (simp add: riscv_deliver_interrupt_def Let_def)
next
  case False
  then show ?thesis
    by (simp add: riscv_deliver_interrupt_def Let_def irq_scan_find case_prod_unfold split: option.splits)
qed

lemma bus_deliver: "bus (riscv_deliver_interrupt h) = bus h" "devs (riscv_deliver_interrupt h) = devs h"
  by (simp_all add: riscv_deliver_find split: option.splits)

lemma rs_ok_deliver:
  assumes "rs_ok (rs h)" "\<not> bit (pc (cpu h)) 0"
  shows "rs_ok (rs (riscv_deliver_interrupt h)) \<and> \<not> bit (pc (cpu (riscv_deliver_interrupt h))) 0"
  using assms rs_ok_trap [OF assms] riscv_trap_vector
  by (simp add: riscv_deliver_find split: option.splits)

section \<open>What a register write can change\<close>

definition csr_post :: "(RiscvState \<Rightarrow> bool) \<Rightarrow> RiscvState csr_res option \<Rightarrow> bool" where
  "csr_post P r = (case r of Some (CsrOk s') \<Rightarrow> P s' | _ \<Rightarrow> True)"

lemma csr_post_simps [simp]:
  "csr_post P None" "csr_post P (Some (CsrOk s)) = P s" "csr_post P (Some CsrFail)" "csr_post P (Some CsrOob)"
  "csr_post P (if c then x else y) = (if c then csr_post P x else csr_post P y)"
  "csr_post P (Some (if c then u else v)) = (if c then csr_post P (Some u) else csr_post P (Some v))"
  by (simp_all add: csr_post_def)

lemma csr_post_orelse: "csr_post P a \<Longrightarrow> csr_post P b \<Longrightarrow> csr_post P (orelse a b)"
  by (cases a) (simp_all add: orelse_def)

lemma csr_postD: "csr_post P (Some (riscv_csr_write s addr val np)) \<Longrightarrow>
    riscv_csr_write s addr val np = CsrOk s' \<Longrightarrow> P s'"
  by simp

lemma csr_post_write:
  assumes "csr_post P (csr_write_user s addr val)" "csr_post P (csr_write_super s addr val)"
    and "CsrPriv addr \<le> priv s \<Longrightarrow> csr_post P (csr_write_machine s addr val np)"
    and "CsrPriv addr \<le> priv s \<Longrightarrow> csr_post P (csr_write_debug s addr val)"
    and "CsrPriv addr \<le> priv s \<Longrightarrow> csr_post P (Some (csr_write_default s addr val))"
    and "CsrPriv addr \<le> priv s \<Longrightarrow> addr = 0xB00 \<Longrightarrow> P (s\<lparr>mcycle := val, counter_written := kCounterMcycle\<rparr>)"
    and "CsrPriv addr \<le> priv s \<Longrightarrow> addr = 0xB02 \<Longrightarrow> P (s\<lparr>minstret := val, counter_written := kCounterMinstret\<rparr>)"
  shows "csr_post P (Some (riscv_csr_write s addr val np))"
proof -
  define r where "r = orelse (csr_write_user s addr val) (orelse (csr_write_super s addr val)
             (orelse (csr_write_machine s addr val np) (csr_write_debug s addr val)))"
  have "CsrPriv addr \<le> priv s \<Longrightarrow> csr_post P r"
    unfolding r_def using assms(1-4) by (intro csr_post_orelse)
  then show ?thesis using assms(5-7)
    unfolding riscv_csr_write_def r_def [symmetric] by (cases r) (auto simp: not_less)
qed

definition pmp_view :: "RiscvState \<Rightarrow> (nat \<Rightarrow> u64) \<times> (nat \<Rightarrow> u64)" where
  "pmp_view s = (pmpcfg s, pmpaddr s)"

lemma pmp_view_groups:
  "csr_post (\<lambda>s'. pmp_view s' = pmp_view s) (csr_write_user s addr val)"
  "csr_post (\<lambda>s'. pmp_view s' = pmp_view s) (csr_write_super s addr val)"
  "csr_post (\<lambda>s'. pmp_view s' = pmp_view s) (csr_write_machine s addr val np)"
  "csr_post (\<lambda>s'. pmp_view s' = pmp_view s) (csr_write_debug s addr val)"
  by (simp_all add: pmp_view_def csr_write_user_def csr_write_super_def csr_write_machine_def
      csr_write_debug_def write_satp_def write_mstatus_def write_misa_def RiscvTriggerWriteTdata1_def
      RiscvTriggerWriteTdata3_def Let_def)

lemma csr_post_mono: "csr_post P r \<Longrightarrow> (\<And>s. P s \<Longrightarrow> Q s) \<Longrightarrow> csr_post Q r"
  by (simp add: csr_post_def split: option.splits csr_res.splits)

lemma csr_write_pmp:
  "csr_post (\<lambda>s'. pmp_view s' = pmp_view s \<or> (\<exists>which<2. s' = WritePmpCfg s which val) \<or>
     (\<exists>j. s' = WritePmpAddr s j val)) (Some (riscv_csr_write s addr val np))"
  by (rule csr_post_write;
      (rule csr_post_mono [OF pmp_view_groups(1)] csr_post_mono [OF pmp_view_groups(2)]
        csr_post_mono [OF pmp_view_groups(3)] csr_post_mono [OF pmp_view_groups(4)])?)
    (auto simp: csr_write_default_def Let_def pmp_view_def)

lemma pmp_view_cong:
  assumes "pmp_view s' = pmp_view s"
  shows "PmpCfg s' = PmpCfg s" "PmpRegion s' = PmpRegion s"
  using assms by (auto simp: pmp_view_def PmpCfg_def PmpRegion_def fun_eq_iff Let_def)

text \<open>One register write at any privilege.\<close>

inductive csr_step :: "RiscvState \<Rightarrow> RiscvState \<Rightarrow> bool" where
  "riscv_csr_write s addr val next_pc = CsrOk s' \<Longrightarrow> csr_step s s'"

lemma pmp_locked_step:
  assumes "csr_step s s'" "i < kPmpCount" "pmp_locked s i"
  shows "PmpCfg s' i = PmpCfg s i \<and> PmpRegion s' i = PmpRegion s i"
proof -
  obtain addr val np where "riscv_csr_write s addr val np = CsrOk s'"
    using assms(1) by (auto elim: csr_step.cases)
  from csr_postD [OF csr_write_pmp this] consider "pmp_view s' = pmp_view s"
    | which where "which < 2" "s' = WritePmpCfg s which val" | j where "s' = WritePmpAddr s j val" by blast
  then show ?thesis
    by cases (use assms(2,3) in \<open>simp_all add: pmp_view_cong [of s' s] PmpCfg_locked PmpRegion_locked_cfg PmpRegion_locked_addr\<close>)
qed

text \<open>
  C15. A locked protection entry keeps its configuration byte and the range it decodes to through
  every sequence of CSR writes, at any privilege.
\<close>

theorem pmp_locked_forever:
  assumes "csr_step\<^sup>*\<^sup>* s s'" "i < kPmpCount" "pmp_locked s i"
  shows "PmpCfg s' i = PmpCfg s i \<and> PmpRegion s' i = PmpRegion s i"
  using assms(1)
proof (induction rule: rtranclp_induct)
  case (step y z)
  have "pmp_locked y i" using step.IH assms(3) unfolding pmp_locked_def by metis
  then show ?case using pmp_locked_step [OF step.hyps(2) assms(2)] step.IH by metis
qed simp

theorem pmp_locked_forever_witness:
  "\<exists>s s'. riscv_csr_write riscv_init 0x3A0 0x98 0 = CsrOk s \<and> riscv_csr_write s 0x3B0 0x1234 0 = CsrOk s' \<and>
     PmpRegion s 0 = Some (0, 8) \<and> PmpRegion s' 0 = Some (0, 8)"
proof -
  define s where "s = WritePmpCfg riscv_init 0 0x98"
  define s' where "s' = WritePmpAddr s 0 0x1234"
  have w: "riscv_csr_write riscv_init 0x3A0 0x98 0 = CsrOk s"
    by (simp add: riscv_csr_write_def CsrPriv_def orelse_def csr_write_user_def csr_write_super_def
      csr_write_machine_def csr_write_debug_def csr_write_default_def s_def riscv_init_def)
  have p: "priv s = kPrivMachine" by (simp add: s_def WritePmpCfg_def riscv_init_def)
  have w': "riscv_csr_write s 0x3B0 0x1234 0 = CsrOk s'"
    by (simp add: riscv_csr_write_def CsrPriv_def orelse_def csr_write_user_def csr_write_super_def
      csr_write_machine_def csr_write_debug_def csr_write_default_def s'_def p)
  have "PmpCfg riscv_init 0 = 0" by (simp add: riscv_init_def PmpCfg_def)
  then have c: "PmpCfg s 0 = 0x98" by (simp add: s_def PmpCfg_WritePmpCfg pmp_cfg_byte_def)
  have "pmpaddr s 0 = 0" by (simp add: s_def riscv_init_def)
  then have r: "PmpRegion s 0 = Some (0, 8)" by (simp add: PmpRegion_def c napot_ones.simps)
  have "PmpRegion s' 0 = PmpRegion s 0"
    using pmp_locked_forever [of s s' 0] csr_step.intros [OF w'] c by (auto simp: pmp_locked_def)
  then show ?thesis using w w' r by auto
qed

section \<open>Protection ranges and checks\<close>

text \<open>
  A naturally aligned power-of-two range decodes from its register encoding to exactly its
  base and its size.
\<close>

theorem pmp_napot_decode:
  assumes "PmpCfg s i AND kPmpAMask = kPmpANapot" "pmpaddr s i = napot_encode base k"
    and "k \<le> 60" "take_bit (k + 3) base = 0"
  shows "PmpRegion s i = Some (base, push_bit (k + 3) 1)"
  using assms by (rule PmpRegion_napot)

theorem pmp_napot_decode_witness:
  "PmpRegion (riscv_init\<lparr>pmpcfg := (\<lambda>_. 0x18), pmpaddr := (\<lambda>_. napot_encode 0x80000000 9)\<rparr>) 0 =
     Some (0x80000000, 0x1000)"
  using pmp_napot_decode [of "riscv_init\<lparr>pmpcfg := (\<lambda>_. 0x18), pmpaddr := (\<lambda>_. napot_encode 0x80000000 9)\<rparr>"
      0 "0x80000000" 9]
  by (simp add: PmpCfg_def)

text \<open>
  An access that the protection check allows is allowed in all its parts.
\<close>

theorem pmp_allowed_parts:
  assumes "RiscvPmpAllowed s addr len acc mode" "addr \<le> a" "a + l \<le> addr + len" "a < a + l"
  shows "RiscvPmpAllowed s a l acc mode"
  using pmp_scan_part [OF assms(2-4)] assms(1) unfolding RiscvPmpAllowed_def by metis

theorem pmp_allowed_parts_witness:
  "RiscvPmpAllowed (riscv_init\<lparr>pmpcfg := (\<lambda>_. 0)\<rparr>) 0x1002 2 acc_read kPrivUser"
  by (rule pmp_allowed_parts [of _ "0x1000" 8])
    (simp_all add: RiscvPmpAllowed_def PmpRegion_def PmpCfg_def upt_rec)

text \<open>The state that only machine mode may change through a CSR write.\<close>

definition machine_view :: "RiscvState \<Rightarrow> u64 list \<times> (nat \<Rightarrow> u64) list \<times> u8" where
  "machine_view s =
     ([misa s, mtvec s, mscratch s, mepc s, mcause s, mtval s, medeleg s, mideleg s, mcounteren s, mcycle s,
       minstret s, mcountinhibit s, tselect s, tcontrol s, menvcfg s, mnstatus s,
       mstatus s AND NOT kSstatusWmask, mie s AND NOT kIrqSLevelMask, mip s AND NOT kIrqSsip],
      [tdata1 s, tdata2 s, tdata3 s, mhpmcounter s, mhpmevent s, pmpcfg s, pmpaddr s], priv s)"

lemma csr_priv_range:
  assumes "CsrPriv addr \<noteq> kPrivMachine"
  shows "addr \<notin> {0xB00, 0xB02, 0x300, 0x301, 0x302, 0x303, 0x304, 0x305, 0x306, 0x30A, 0x320, 0x340, 0x341,
     0x342, 0x343, 0x344, 0x7A0, 0x7A1, 0x7A2, 0x7A3, 0x7A5, 0x744}"
  using assms by (auto simp: CsrPriv_def)

lemma unat_csr_priv: "unat (drop_bit 8 addr AND 3 :: u64) = unat addr div 256 mod 4"
proof -
  have "drop_bit 8 addr AND 3 = take_bit 2 (drop_bit 8 addr)"
    by (simp add: take_bit_eq_mask mask_eq_exp_minus_1)
  then show ?thesis
    by (simp add: unsigned_take_bit_eq unsigned_drop_bit_eq take_bit_eq_mod drop_bit_eq_div
        unat_div_distrib unat_mod_distrib)
qed

lemma csr_priv_3:
  assumes "unat addr div 256 mod 4 = 3"
  shows "CsrPriv addr = kPrivMachine"
proof -
  have "unat (drop_bit 8 addr AND 3) = unat (3 :: u64)" using assms by (simp add: unat_csr_priv)
  then have "drop_bit 8 addr AND 3 = 3" by (rule unsigned_word_eqI)
  then show ?thesis by (simp add: CsrPriv_def)
qed

lemma csr_default_priv:
  assumes "csr_write_default s addr val \<noteq> CsrFail"
  shows "CsrPriv addr = kPrivMachine"
proof (rule csr_priv_3)
  have "0xB03 \<le> unat addr \<and> unat addr \<le> 0xB12 \<or> 0x323 \<le> unat addr \<and> unat addr \<le> 0x332 \<or>
      0x3A0 \<le> unat addr \<and> unat addr \<le> 0x3BF"
    using assms unfolding csr_write_default_def
    by (auto split: if_splits simp: word_le_nat_alt)
  then have "unat addr div 256 = 11 \<or> unat addr div 256 = 3"
    by (auto intro: div_nat_eqI)
  then show "unat addr div 256 mod 4 = 3" by auto
qed

lemma field_outside: "((m AND NOT k) OR (v AND k)) AND NOT k = m AND NOT (k :: u64)"
  by (rule bit_eqI) (auto simp: bit_simps)

lemma csr_machine_only:
  assumes "CsrPriv addr \<noteq> kPrivMachine"
  shows "csr_write_machine s addr val np = None" "csr_write_default s addr val = CsrFail"
    "csr_write_debug s addr val = (if addr = 0x5A8 then Some (CsrOk (s\<lparr>scontext := val\<rparr>)) else None)"
  using csr_priv_range [OF assms] csr_default_priv [of s addr val] assms
  by (auto simp: csr_write_machine_def csr_write_debug_def)

text \<open>
  C14. A CSR write that succeeds in user or supervisor mode leaves the machine-level state alone:
  all machine registers, the protection and trigger registers, the privilege mode, and the fields of
  the status, interrupt-enable and interrupt-pending words that are not visible to the supervisor.
\<close>

theorem csr_write_confined:
  assumes "priv s \<in> {kPrivUser, kPrivSupervisor}" "riscv_csr_write s addr val np = CsrOk s'"
  shows "machine_view s' = machine_view s"
proof -
  have "CsrPriv addr \<le> priv s" using assms(2) by (cases "priv s < CsrPriv addr") (simp_all add: riscv_csr_write_def)
  then have p: "CsrPriv addr \<noteq> kPrivMachine" using assms(1) by (auto simp: word_le_nat_alt)
  have "csr_post (\<lambda>s'. machine_view s' = machine_view s) (Some (riscv_csr_write s addr val np))"
    using csr_machine_only [OF p, of s val] csr_priv_range [OF p] field_outside [of _ kSstatusWmask]
      field_outside [of _ kIrqSLevelMask] field_outside [of _ kIrqSsip]
    by (intro csr_post_write)
      (simp_all add: csr_write_user_def csr_write_super_def write_satp_def Let_def machine_view_def)
  then show ?thesis using assms(2) by simp
qed

lemma csr_write_sstatus:
  "priv s = kPrivSupervisor \<Longrightarrow> riscv_csr_write s 0x100 val np =
     CsrOk (s\<lparr>mstatus := (mstatus s AND NOT kSstatusWmask) OR (val AND kSstatusWmask)\<rparr>)"
  by (simp add: riscv_csr_write_def CsrPriv_def orelse_def csr_write_user_def csr_write_super_def)

theorem csr_write_confined_witness:
  "\<exists>s'. riscv_csr_write (riscv_init\<lparr>priv := kPrivSupervisor\<rparr>) 0x100 (NOT 0) 0 = CsrOk s' \<and>
     mstatus s' \<noteq> mstatus riscv_init \<and> machine_view s' = machine_view (riscv_init\<lparr>priv := kPrivSupervisor\<rparr>)"
  using csr_write_sstatus [of "riscv_init\<lparr>priv := kPrivSupervisor\<rparr>" "NOT 0" 0]
    csr_write_confined [of "riscv_init\<lparr>priv := kPrivSupervisor\<rparr>" "0x100" "NOT 0" 0]
  by (simp add: riscv_init_def)

text \<open>
  C16. Returning from a trap undoes it: the return instruction of the level that took the trap
  comes back to the interrupted address and privilege with both interrupt-enable bits restored.
\<close>

theorem trap_return:
  assumes s: "rs_ok s" and p: "\<not> bit cpc 0" "bit (misa s) 2 \<or> \<not> bit cpc 1"
  shows "let t = snd (riscv_trap cpc cause tval s);
             (target, r) = (if trap_to_s s cause then riscv_sret t else riscv_mret t) in
    target = cpc \<and> priv r = priv s \<and> bit (mstatus r) 1 = bit (mstatus s) 1 \<and> bit (mstatus r) 3 = bit (mstatus s) 3"
proof (cases "trap_to_s s cause")
  case True
  have pr: "priv s \<in> {kPrivUser, kPrivSupervisor}"
    using s True by (auto simp: rs_ok_def trap_to_s_def)
  have "bit (snd (mstatus_sret (mstatus_trap_s (mstatus s) (priv s)))) 3 = bit (mstatus s) 3"
    by (simp add: mstatus_sret_def mstatus_trap_s_def Let_def bit_simps)
  then show ?thesis using True mstatus_sret_trap [OF pr, of "mstatus s"] return_pc_id [OF p]
    by (simp add: riscv_trap_def riscv_sret_def case_prod_unfold Let_def return_pc_def split: if_splits)
next
  case False
  have pr: "priv s \<in> {kPrivUser, kPrivSupervisor, kPrivMachine}" using s by (simp add: rs_ok_def)
  have "bit (snd (mstatus_mret (mstatus_trap_m (mstatus s) (priv s)))) 1 = bit (mstatus s) 1"
    by (simp add: mstatus_mret_def mstatus_trap_m_def Let_def bit_simps)
  moreover have "(ucast (ucast (priv s) :: u64) :: u8) = priv s" using pr by auto
  ultimately show ?thesis using False mstatus_mret_trap [OF pr, of "mstatus s"] return_pc_id [OF p]
    by (simp add: riscv_trap_def riscv_mret_def case_prod_unfold Let_def return_pc_def split: if_splits)
qed

theorem trap_return_witness:
  "let s = riscv_init\<lparr>medeleg := 0x100, priv := kPrivUser\<rparr>; t = snd (riscv_trap 0x1002 kExUserEcall 0 s) in
    trap_to_s s kExUserEcall \<and> priv t = kPrivSupervisor \<and> fst (riscv_sret t) = 0x1002 \<and> priv (snd (riscv_sret t)) = kPrivUser"
proof -
  define s where "s = riscv_init\<lparr>medeleg := 0x100, priv := kPrivUser\<rparr>"
  have t: "trap_to_s s kExUserEcall" by (simp add: s_def trap_to_s_def)
  have "rs_ok s" unfolding s_def by (intro rs_ok_upd rs_ok_init) simp_all
  moreover have "bit (misa s) 2" by (simp add: s_def riscv_init_def)
  ultimately show ?thesis using trap_return [of s "0x1002" kExUserEcall 0] t
    unfolding s_def [symmetric] by (simp add: Let_def case_prod_unfold) (simp add: s_def riscv_trap_def)
qed

text \<open>
  C17. A trap never lowers the privilege; it records cause, address and value in the registers of
  the level that takes it and leaves those of the other level alone, disables that level's interrupts
  and enters at a four-byte aligned vector.
\<close>

theorem trap_entry:
  assumes "rs_ok s"
  shows "let (vec, t) = riscv_trap cpc cause tval s in
    priv s \<le> priv t \<and> (if trap_to_s s cause
      then priv t = kPrivSupervisor \<and> sepc t = cpc \<and> scause t = cause \<and> stval t = tval \<and> \<not> bit (mstatus t) 1 \<and>
        mepc t = mepc s \<and> mcause t = mcause s
      else priv t = kPrivMachine \<and> mepc t = cpc \<and> mcause t = cause \<and> mtval t = tval \<and> \<not> bit (mstatus t) 3 \<and>
        sepc t = sepc s \<and> scause t = scause s) \<and>
    \<not> bit vec 0 \<and> \<not> bit vec 1"
proof -
  have "priv s \<in> {kPrivUser, kPrivSupervisor, kPrivMachine}" using assms by (simp add: rs_ok_def)
  moreover have "priv s = kPrivMachine \<Longrightarrow> \<not> trap_to_s s cause" by (simp add: trap_to_s_def)
  ultimately show ?thesis using riscv_trap_vector [of cpc cause tval s]
    by (auto simp: riscv_trap_def mstatus_trap_s_def mstatus_trap_m_def Let_def bit_simps word_le_nat_alt)
qed

theorem trap_entry_witness:
  "mepc (snd (riscv_trap 0x80 kExIllegal 7 riscv_init)) = 0x80 \<and>
   mtval (snd (riscv_trap 0x80 kExIllegal 7 riscv_init)) = 7"
proof -
  have "\<not> trap_to_s riscv_init kExIllegal" by (simp add: trap_to_s_def riscv_init_def)
  then show ?thesis using trap_entry [OF rs_ok_init, of "0x80" kExIllegal 7]
    by (simp add: case_prod_unfold Let_def)
qed



end
