(* ===== verification/Mmu.thy ===== *)
theory Mmu
  imports Csr
begin

text \<open>
  Address translation (src/src/cpu/isa/riscv64/mmu.c): the effective
  privilege, the translation cache, the Sv39 and Sv48 page walk, the
  permission check, the accessed and dirty bits, superpages, the check of the
  final physical address, and the refill of the cache.
\<close>

section \<open>The bus as the hart sees it\<close>

text \<open>
  A bus access runs on the bus and the devices of the hart; the effects of
  the device on the processor are applied after it.
\<close>

definition on_bus :: "(Bus \<times> 'd, 'a \<times> cpu_event list) prog \<Rightarrow> ('d, 'a) hprog" where
  "on_bus m = (\<lambda>h. case m (bus h, devs h) of
       Ok (v, es) (b, d) \<Rightarrow> Ok v (apply_events es (h\<lparr>bus := b, devs := d\<rparr>))
     | Raise t (b, d) \<Rightarrow> Raise t (h\<lparr>bus := b, devs := d\<rparr>)
     | Fatal \<Rightarrow> Fatal | Undef \<Rightarrow> Undef)"

definition bus_read :: "('d, 'l) env \<Rightarrow> u64 \<Rightarrow> nat \<Rightarrow> ('d, u64) hprog" where
  "bus_read E addr sz = on_bus (BusRead (e_read E) addr sz)"

definition bus_write :: "('d, 'l) env \<Rightarrow> u64 \<Rightarrow> nat \<Rightarrow> u64 \<Rightarrow> ('d, unit) hprog" where
  "bus_write E addr sz v = on_bus (andthen (BusWrite (e_write E) addr sz v) (\<lambda>es. ret ((), es)))"

definition bus_probe :: "u64 \<Rightarrow> nat \<Rightarrow> ('d, nat option) hprog" where
  "bus_probe addr sz = (\<lambda>h. case BusProbe (bus h) addr (of_nat sz) of (r, b) \<Rightarrow> Ok r (h\<lparr>bus := b\<rparr>))"

definition ram_page :: "u64 \<Rightarrow> ('d, (nat \<times> u64) option) hprog" where
  "ram_page page = reads (\<lambda>h. BusRamPage (bus h) page)"

section \<open>Page-table entries and fault causes\<close>

abbreviation (input) kPteV :: u64 where "kPteV \<equiv> 0x01"
abbreviation (input) kPteR :: u64 where "kPteR \<equiv> 0x02"
abbreviation (input) kPteW :: u64 where "kPteW \<equiv> 0x04"
abbreviation (input) kPteX :: u64 where "kPteX \<equiv> 0x08"
abbreviation (input) kPteU :: u64 where "kPteU \<equiv> 0x10"
abbreviation (input) kPteG :: u64 where "kPteG \<equiv> 0x20"
abbreviation (input) kPteA :: u64 where "kPteA \<equiv> 0x40"
abbreviation (input) kPteD :: u64 where "kPteD \<equiv> 0x80"
abbreviation (input) kPteReserved :: u64 where "kPteReserved \<equiv> 0xFFC0000000000000"

definition AccessFaultCause :: "acc \<Rightarrow> u64" where
  "AccessFaultCause acc = (if acc = acc_ifetch then kExFetchFault
     else if acc = acc_read then kExLoadFault else kExStoreFault)"

definition PageFaultCause :: "acc \<Rightarrow> u64" where
  "PageFaultCause acc = (if acc = acc_ifetch then kExFetchPageFault
     else if acc = acc_read then kExLoadPageFault else kExStorePageFault)"

definition PteRead :: "('d, 'l) env \<Rightarrow> u64 \<Rightarrow> acc \<Rightarrow> ('d, u64) hprog" where
  "PteRead E pte_addr acc = andthen get_rs (\<lambda>s.
     if \<not> RiscvPmpAllowed s pte_addr 8 acc_read kPrivSupervisor
     then raise_paddr (AccessFaultCause acc) pte_addr pte_addr
     else andthen (bus_probe pte_addr 8) (\<lambda>r. case r of
         None \<Rightarrow> raise_paddr (AccessFaultCause acc) pte_addr pte_addr
       | Some _ \<Rightarrow> bus_read E pte_addr 8))"

section \<open>The translation cache\<close>

fun acc_num :: "acc \<Rightarrow> u8" where
  "acc_num acc_ifetch = 0"
| "acc_num acc_read = 1"
| "acc_num acc_write = 2"
| "acc_num acc_amo = 3"

definition eff_priv :: "RiscvState \<Rightarrow> acc \<Rightarrow> u8" where
  "eff_priv s acc =
     (if mstatus s AND kMstatusMprv \<noteq> 0 \<and> acc \<noteq> acc_ifetch
      then ucast (drop_bit 11 (mstatus s AND kMstatusMppMask)) else priv s)"

definition satp_mode :: "RiscvState \<Rightarrow> u64" where
  "satp_mode s = drop_bit 60 (satp s) AND 0xf"

definition tlb_set :: "u64 \<Rightarrow> acc \<Rightarrow> nat" where
  "tlb_set vpn acc =
     unat ((ucast (vpn XOR (ucast (acc_num acc) * 0x9E3779B97F4A7C15)) :: u32) AND 0xFF)"

definition tlb_matches :: "RiscvState \<Rightarrow> u64 \<Rightarrow> acc \<Rightarrow> u8 \<Rightarrow> RiscvTlbEntry \<Rightarrow> bool" where
  "tlb_matches s vpn acc eff e \<longleftrightarrow> te_gen e = tlb_gen s \<and> te_vpn e = vpn \<and> te_acc e = acc_num acc \<and>
     te_satp e = satp s \<and> te_priv e = priv s \<and> te_eff e = eff \<and>
     te_mstatus e = mstatus s AND (kMstatusSum OR kMstatusMxr) \<and>
     te_menvcfg e = menvcfg s AND kMenvcfgAdue \<and> te_pmp_gen e = pmp_gen s"

definition tlb_lookup :: "RiscvState \<Rightarrow> u64 \<Rightarrow> acc \<Rightarrow> u8 \<Rightarrow> RiscvTlbEntry option" where
  "tlb_lookup s vpn acc eff =
     (let i = tlb_set vpn acc * kTlbWays in
      if tlb_matches s vpn acc eff (tlb s i) then Some (tlb s i)
      else if tlb_matches s vpn acc eff (tlb s (i + 1)) then Some (tlb s (i + 1))
      else None)"

definition tlb_fill :: "u64 \<Rightarrow> acc \<Rightarrow> u8 \<Rightarrow> u64 \<Rightarrow> (nat \<times> u64) option \<Rightarrow> RiscvState \<Rightarrow> RiscvState" where
  "tlb_fill vpn acc eff paddr h s =
     (let i = tlb_set vpn acc * kTlbWays;
          use_clock = te_gen (tlb s i) = tlb_gen s \<and> te_gen (tlb s (i + 1)) = tlb_gen s;
          w = (if te_gen (tlb s i) \<noteq> tlb_gen s then 0
               else if te_gen (tlb s (i + 1)) \<noteq> tlb_gen s then 1 else unat (tlb_clock s AND 1));
          e = \<lparr>te_vpn = vpn, te_pbase = paddr AND NOT 0xFFF, te_host = h, te_gen = tlb_gen s,
               te_satp = satp s, te_mstatus = mstatus s AND (kMstatusSum OR kMstatusMxr),
               te_menvcfg = menvcfg s AND kMenvcfgAdue, te_pmp_gen = pmp_gen s, te_priv = priv s,
               te_eff = eff, te_acc = acc_num acc\<rparr> in
      s\<lparr>tlb := (tlb s)(i + w := e),
        tlb_clock := (if use_clock then tlb_clock s + 1 else tlb_clock s)\<rparr>)"

section \<open>The walk\<close>

definition canonical :: "nat \<Rightarrow> u64 \<Rightarrow> bool" where
  "canonical topl vaddr \<longleftrightarrow>
     (if topl = 3 then signed_drop_bit 16 (push_bit 16 vaddr) = vaddr
      else signed_drop_bit 25 (push_bit 25 vaddr) = vaddr)"

definition pte_index :: "u64 \<Rightarrow> u64 \<Rightarrow> nat \<Rightarrow> u64" where
  "pte_index ppn_base vaddr level =
     push_bit 12 ppn_base + (drop_bit (12 + 9 * level) vaddr AND 0x1ff) * 8"

definition pte_invalid :: "u64 \<Rightarrow> bool" where
  "pte_invalid pte \<longleftrightarrow> pte AND kPteV = 0 \<or> pte AND kPteR = 0 \<and> pte AND kPteW \<noteq> 0 \<or>
     pte AND kPteReserved \<noteq> 0"

definition pte_leaf :: "u64 \<Rightarrow> bool" where
  "pte_leaf pte \<longleftrightarrow> pte AND (kPteR OR kPteX) \<noteq> 0"

text \<open>
  The loop over the levels returns the last entry read, its address, and the
  value of the loop variable: the level of the leaf, or -1 when the loop runs
  out of levels.
\<close>

fun pte_walk :: "('d, 'l) env \<Rightarrow> acc \<Rightarrow> u64 \<Rightarrow> nat \<Rightarrow> u64 \<Rightarrow> ('d, u64 \<times> u64 \<times> int) hprog" where
  "pte_walk E acc vaddr 0 ppn_base =
     (let pte_addr = pte_index ppn_base vaddr 0 in
      andthen (PteRead E pte_addr acc) (\<lambda>pte.
        if pte_invalid pte then raise_trap (PageFaultCause acc) vaddr
        else if pte_leaf pte then ret (pte, pte_addr, 0) else ret (pte, pte_addr, - 1)))"
| "pte_walk E acc vaddr (Suc level) ppn_base =
     (let pte_addr = pte_index ppn_base vaddr (Suc level) in
      andthen (PteRead E pte_addr acc) (\<lambda>pte.
        if pte_invalid pte then raise_trap (PageFaultCause acc) vaddr
        else if pte_leaf pte then ret (pte, pte_addr, int (Suc level))
        else pte_walk E acc vaddr level (drop_bit 10 pte)))"

definition pte_permits :: "RiscvState \<Rightarrow> u8 \<Rightarrow> acc \<Rightarrow> u64 \<Rightarrow> bool" where
  "pte_permits s eff acc pte =
     (let ok = \<not> (eff = kPrivUser \<and> pte AND kPteU = 0) \<and>
               \<not> (pte AND kPteU \<noteq> 0 \<and> eff = kPrivSupervisor \<and>
                  (mstatus s AND kMstatusSum = 0 \<or> acc = acc_ifetch)) in
      ok \<and> (if acc = acc_ifetch then pte AND kPteX \<noteq> 0
            else if acc = acc_read
            then pte AND kPteR \<noteq> 0 \<or> mstatus s AND kMstatusMxr \<noteq> 0 \<and> pte AND kPteX \<noteq> 0
            else pte AND kPteW \<noteq> 0))"

definition is_store :: "acc \<Rightarrow> bool" where
  "is_store acc \<longleftrightarrow> acc = acc_write \<or> acc = acc_amo"

definition pte_ad :: "acc \<Rightarrow> u64 \<Rightarrow> u64" where
  "pte_ad acc pte =
     (let p1 = (if is_store acc \<and> pte AND kPteD = 0 then pte OR kPteD else pte) in
      if pte AND kPteA = 0 then p1 OR kPteA else p1)"

definition pte_writeback :: "('d, 'l) env \<Rightarrow> acc \<Rightarrow> u64 \<Rightarrow> u64 \<Rightarrow> u64 \<Rightarrow> u64 \<Rightarrow> ('d, unit) hprog" where
  "pte_writeback E acc vaddr pte_addr pte new_pte =
     (if new_pte = pte then ret ()
      else andthen (bus_probe pte_addr 8) (\<lambda>r. case r of
          None \<Rightarrow> raise_paddr (AccessFaultCause acc) vaddr pte_addr
        | Some _ \<Rightarrow> bus_write E pte_addr 8 new_pte))"

text \<open>\<open>None\<close> is a misaligned superpage.\<close>

definition leaf_paddr :: "u64 \<Rightarrow> int \<Rightarrow> u64 \<Rightarrow> u64 option" where
  "leaf_paddr pte level vaddr =
     (let ppn = drop_bit 10 pte in
      if 0 < level then
        (let low = push_bit (9 * nat level) 1 - 1; off_mask = push_bit (12 + 9 * nat level) 1 - 1 in
         if ppn AND low \<noteq> 0 then None
         else Some (push_bit 12 (ppn AND NOT low) OR (vaddr AND off_mask)))
      else Some (push_bit 12 ppn OR (vaddr AND 0xfff)))"

definition translate_miss ::
  "('d, 'l) env \<Rightarrow> u64 \<Rightarrow> nat \<Rightarrow> acc \<Rightarrow> u8 \<Rightarrow> ('d, u64 \<times> (nat \<times> u64) option) hprog" where
  "translate_miss E vaddr sz acc eff = andthen get_rs (\<lambda>s.
     let topl = (if satp_mode s = kSatpModeSv48 then 3 else 2) in
     if \<not> canonical topl vaddr then raise_trap (PageFaultCause acc) vaddr
     else andthen (pte_walk E acc vaddr topl (satp s AND (push_bit 44 1 - 1))) (\<lambda>(pte, pte_addr, level).
       if \<not> pte_permits s eff acc pte then raise_trap (PageFaultCause acc) vaddr
       else if is_store acc \<and> pte AND kPteD = 0 \<and> menvcfg s AND kMenvcfgAdue = 0
       then raise_trap (PageFaultCause acc) vaddr
       else andthen (pte_writeback E acc vaddr pte_addr pte (pte_ad acc pte)) (\<lambda>_.
         case leaf_paddr (pte_ad acc pte) level vaddr of
           None \<Rightarrow> raise_trap (PageFaultCause acc) vaddr
         | Some paddr \<Rightarrow> andthen get_rs (\<lambda>s1.
             if \<not> RiscvPmpAllowed s1 paddr (of_nat sz) acc (priv s1)
             then raise_paddr (AccessFaultCause acc) vaddr paddr
             else andthen (ram_page (paddr AND NOT 0xFFF)) (\<lambda>h.
               andthen (set_rs (tlb_fill (drop_bit 12 vaddr) acc eff paddr h))
                 (\<lambda>_. ret (paddr, h)))))))"

definition RiscvTranslate ::
  "('d, 'l) env \<Rightarrow> u64 \<Rightarrow> nat \<Rightarrow> acc \<Rightarrow> ('d, u64 \<times> (nat \<times> u64) option) hprog" where
  "RiscvTranslate E vaddr sz acc = andthen get_rs (\<lambda>s.
     let eff = eff_priv s acc in
     if eff = kPrivMachine \<or> satp_mode s = kSatpModeBare then
       (if \<not> RiscvPmpAllowed s vaddr (of_nat sz) acc (priv s)
        then raise_paddr (AccessFaultCause acc) vaddr vaddr
        else andthen (ram_page (vaddr AND NOT 0xFFF)) (\<lambda>h. ret (vaddr, h)))
     else case tlb_lookup s (drop_bit 12 vaddr) acc eff of
         Some e \<Rightarrow> ret (te_pbase e OR (vaddr AND 0xfff), te_host e)
       | None \<Rightarrow> translate_miss E vaddr sz acc eff)"

section \<open>Loads and stores\<close>

text \<open>
  The memory pipeline of exec.c: trigger check, translation, the direct path
  through a host pointer when the access stays in a plain RAM page, otherwise
  probe and bus access.
\<close>

definition fault_cause :: "acc \<Rightarrow> u64" where
  "fault_cause acc = (if acc = acc_ifetch then kExFetchFault
     else if acc = acc_write then kExStoreFault else kExLoadFault)"

definition fast_path :: "('d, 'l) env \<Rightarrow> u64 \<Rightarrow> nat \<Rightarrow> bool" where
  "fast_path E vaddr sz \<longleftrightarrow> (vaddr AND 0xfff) + of_nat sz \<le> 0x1000 \<and> \<not> e_dbg_mem E"

definition host_load :: "('d, 'l) env \<Rightarrow> nat \<times> u64 \<Rightarrow> u64 \<Rightarrow> nat \<Rightarrow> ('d, u64) hprog" where
  "host_load E p off sz = (\<lambda>h. case e_host_load E (fst p) (snd p + off) sz (devs h) of
       None \<Rightarrow> Undef | Some v \<Rightarrow> Ok v h)"

definition host_store :: "('d, 'l) env \<Rightarrow> nat \<times> u64 \<Rightarrow> u64 \<Rightarrow> nat \<Rightarrow> u64 \<Rightarrow> ('d, unit) hprog" where
  "host_store E p off sz v = (\<lambda>h. case e_host_store E (fst p) (snd p + off) sz v (devs h) of
       None \<Rightarrow> Undef | Some d \<Rightarrow> Ok () (h\<lparr>devs := d\<rparr>))"

definition slow_load :: "('d, 'l) env \<Rightarrow> u64 \<Rightarrow> u64 \<Rightarrow> nat \<Rightarrow> acc \<Rightarrow> ('d, u64) hprog" where
  "slow_load E vaddr paddr sz acc = andthen (bus_probe paddr sz) (\<lambda>r. case r of
       None \<Rightarrow> raise_paddr (fault_cause acc) vaddr paddr
     | Some _ \<Rightarrow> bus_read E paddr sz)"

definition slow_store :: "('d, 'l) env \<Rightarrow> u64 \<Rightarrow> u64 \<Rightarrow> nat \<Rightarrow> u64 \<Rightarrow> ('d, unit) hprog" where
  "slow_store E vaddr paddr sz v = andthen (bus_probe paddr sz) (\<lambda>r. case r of
       None \<Rightarrow> raise_paddr kExStoreFault vaddr paddr
     | Some _ \<Rightarrow> bus_write E paddr sz v)"

definition riscv_mem_load :: "('d, 'l) env \<Rightarrow> u64 \<Rightarrow> nat \<Rightarrow> acc \<Rightarrow> ('d, u64) hprog" where
  "riscv_mem_load E vaddr sz acc =
     andthen (if acc \<noteq> acc_ifetch then RiscvTriggerCheck kTrigOpLoad vaddr else ret ()) (\<lambda>_.
     andthen (RiscvTranslate E vaddr sz acc) (\<lambda>(paddr, host).
       case host of
         Some p \<Rightarrow> if fast_path E vaddr sz then host_load E p (vaddr AND 0xfff) sz
                   else slow_load E vaddr paddr sz acc
       | None \<Rightarrow> slow_load E vaddr paddr sz acc))"

definition riscv_mem_store :: "('d, 'l) env \<Rightarrow> u64 \<Rightarrow> nat \<Rightarrow> u64 \<Rightarrow> ('d, unit) hprog" where
  "riscv_mem_store E vaddr sz val =
     andthen (RiscvTriggerCheck kTrigOpStore vaddr) (\<lambda>_.
     andthen (RiscvTranslate E vaddr sz acc_write) (\<lambda>(paddr, host).
       case host of
         Some p \<Rightarrow> if fast_path E vaddr sz then host_store E p (vaddr AND 0xfff) sz val
                   else slow_store E vaddr paddr sz val
       | None \<Rightarrow> slow_store E vaddr paddr sz val))"

section \<open>The hart invariant\<close>

text \<open>Registers legal, bus consistent, program counter even.\<close>

definition hart_ok :: "'d hart \<Rightarrow> bool" where
  "hart_ok h \<longleftrightarrow> rs_ok (rs h) \<and> bus_ok (bus h) \<and> \<not> bit (pc (cpu h)) 0"

lemma apply_event_view:
  "pc (cpu (apply_event e h)) = pc (cpu h)" "gpr (cpu (apply_event e h)) = gpr (cpu h)"
  "fpr (cpu (apply_event e h)) = fpr (cpu h)" "bus (apply_event e h) = bus h"
  "devs (apply_event e h) = devs h" "rs_ok (rs (apply_event e h)) = rs_ok (rs h)"
  by (simp_all add: apply_event_def riscv_set_ext_irq_def split: cpu_event.splits)

lemma apply_events_view:
  "pc (cpu (apply_events es h)) = pc (cpu h)" "gpr (cpu (apply_events es h)) = gpr (cpu h)"
  "fpr (cpu (apply_events es h)) = fpr (cpu h)" "bus (apply_events es h) = bus h"
  "devs (apply_events es h) = devs h" "rs_ok (rs (apply_events es h)) = rs_ok (rs h)"
  unfolding apply_events_def by (induction es arbitrary: h; simp add: apply_event_view)+

lemma keeps_get [keep_intros]:
  "keeps P (get_x i)" "keeps P (get_f i)" "keeps P get_rs" "keeps P get_pc"
  unfolding hprog_defs by (rule keep_intros)+

lemma BusRead_bus_ok:
  "bus_ok b \<Longrightarrow> BusRead rf addr sz (b, d) = Ok a s \<Longrightarrow> bus_ok (fst s)"
  using bus_ok_FindRegion [of b addr "of_nat sz"]
  by (auto simp: BusRead_def split: prod.splits option.splits)

lemma BusWrite_bus_ok:
  "bus_ok b \<Longrightarrow> BusWrite wr addr sz v (b, d) = Ok a s \<Longrightarrow> bus_ok (fst s)"
  using bus_ok_FindRegion [of b addr "of_nat sz"]
  by (auto simp: BusWrite_def split: prod.splits option.splits)

lemma BusRead_no_raise: "BusRead rf addr sz s \<noteq> Raise t s'"
  and BusWrite_no_raise: "BusWrite wr addr sz v s \<noteq> Raise t s'"
  by (simp_all add: BusRead_def BusWrite_def split: prod.splits option.splits)

lemma keeps_ram_page [keep_intros]: "keeps P (ram_page page)"
  unfolding ram_page_def by (rule keep_intros)

lemma keeps_host_load [keep_intros]: "keeps P (host_load E p off sz)"
  by (simp add: keeps_def host_load_def split: option.splits)

lemma rs_ok_tlb_fill [simp]: "rs_ok (tlb_fill vpn acc eff paddr p s) = rs_ok s"
  by (simp add: tlb_fill_def Let_def)

lemma keeps_RiscvTriggerCheck [keep_intros]: "keeps P (RiscvTriggerCheck op addr)"
  unfolding RiscvTriggerCheck_def Fire_def by (intro keep_intros)

text \<open>
  What the processor asks of the devices behind its bus: an invariant of
  theirs that a read, a write and a store through a host pointer keep.  Under
  this contract every part of a step keeps the invariant of the whole machine.
\<close>

definition hart_inv :: "('d \<Rightarrow> bool) \<Rightarrow> 'd hart \<Rightarrow> bool" where
  "hart_inv D h \<longleftrightarrow> hart_ok h \<and> D (devs h)"

lemma hart_inv_True [simp]: "hart_inv (\<lambda>_. True) = hart_ok"
  by (simp add: fun_eq_iff hart_inv_def)

locale devices =
  fixes E :: "('d, 'l) env" and D :: "'d \<Rightarrow> bool"
  assumes read_keeps: "D d \<Longrightarrow> e_read E ops dev a sz d = Some (v, d', es) \<Longrightarrow> D d'"
    and write_keeps: "D d \<Longrightarrow> e_write E ops dev a sz v d = Some (d', es) \<Longrightarrow> D d'"
    and store_keeps: "D d \<Longrightarrow> e_host_store E p off sz v d = Some d' \<Longrightarrow> D d'"
begin

lemma keeps_set_rs [keep_intros]:
  "(\<And>s. rs_ok s \<Longrightarrow> rs_ok (f s)) \<Longrightarrow> keeps (hart_inv D) (set_rs f)"
  unfolding set_rs_def by (rule keeps_updates) (simp add: hart_inv_def hart_ok_def)

lemma keeps_set_x [keep_intros]: "keeps (hart_inv D) (set_x i v)"
  and keeps_set_f [keep_intros]: "keeps (hart_inv D) (set_f i v)"
  unfolding hprog_defs by (rule keeps_updates; simp add: hart_inv_def hart_ok_def)+

lemma keeps_on_bus:
  assumes "\<And>b d. bus_ok b \<Longrightarrow> D d \<Longrightarrow>
     (case m (b, d) of Ok a s \<Rightarrow> bus_ok (fst s) \<and> D (snd s) | Raise t s \<Rightarrow> False | Fatal \<Rightarrow> True | Undef \<Rightarrow> True)"
  shows "keeps (hart_inv D) (on_bus m)"
proof (unfold keeps_def, intro allI impI)
  fix h :: "'d hart"
  assume h: "hart_inv D h"
  then have "bus_ok (bus h)" "D (devs h)" by (simp_all add: hart_inv_def hart_ok_def)
  from assms [OF this] h
  show "case on_bus m h of Ok a s' \<Rightarrow> hart_inv D s' | Raise t s' \<Rightarrow> hart_inv D s' | Fatal \<Rightarrow> True | Undef \<Rightarrow> True"
    by (auto simp: on_bus_def hart_inv_def hart_ok_def apply_events_view split: outcome.splits prod.splits)
qed

lemma BusRead_keeps: "D d \<Longrightarrow> BusRead (e_read E) addr sz (b, d) = Ok a s \<Longrightarrow> D (snd s)"
  by (auto simp: BusRead_def split: prod.splits option.splits dest: read_keeps)

lemma BusWrite_keeps: "D d \<Longrightarrow> BusWrite (e_write E) addr sz v (b, d) = Ok a s \<Longrightarrow> D (snd s)"
  by (auto simp: BusWrite_def split: prod.splits option.splits dest: write_keeps)

lemma keeps_bus_read [keep_intros]: "keeps (hart_inv D) (bus_read E addr sz)"
  unfolding bus_read_def
  by (rule keeps_on_bus) (auto split: outcome.splits dest: BusRead_bus_ok BusRead_keeps simp: BusRead_no_raise)

lemma keeps_bus_write [keep_intros]: "keeps (hart_inv D) (bus_write E addr sz v)"
  unfolding bus_write_def
  by (rule keeps_on_bus)
    (auto simp: andthen_def ret_def BusWrite_no_raise split: outcome.splits dest: BusWrite_bus_ok BusWrite_keeps)

lemma keeps_bus_probe [keep_intros]: "keeps (hart_inv D) (bus_probe addr sz)"
  by (simp add: keeps_def bus_probe_def BusProbe_def hart_inv_def hart_ok_def case_prod_unfold bus_ok_FindRegion)

lemma keeps_host_store [keep_intros]: "keeps (hart_inv D) (host_store E p off sz v)"
  by (auto simp: keeps_def host_store_def hart_inv_def hart_ok_def split: option.splits dest: store_keeps)

lemma keeps_PteRead [keep_intros]: "keeps (hart_inv D) (PteRead E pte_addr acc)"
  unfolding PteRead_def by (intro keep_intros)

lemma keeps_pte_walk [keep_intros]: "keeps (hart_inv D) (pte_walk E acc vaddr level ppn)"
proof (induction level arbitrary: ppn)
  case 0
  show ?case unfolding pte_walk.simps by (intro keep_intros)
next
  case (Suc level)
  show ?case unfolding pte_walk.simps by (intro keep_intros Suc)
qed

lemma keeps_pte_writeback [keep_intros]:
  "keeps (hart_inv D) (pte_writeback E acc vaddr pte_addr pte new_pte)"
  unfolding pte_writeback_def by (intro keep_intros)

lemma keeps_RiscvTranslate [keep_intros]: "keeps (hart_inv D) (RiscvTranslate E vaddr sz acc)"
  unfolding RiscvTranslate_def translate_miss_def by (intro keep_intros) simp

lemma keeps_riscv_mem_load [keep_intros]: "keeps (hart_inv D) (riscv_mem_load E vaddr sz acc)"
  unfolding riscv_mem_load_def slow_load_def by (intro keep_intros)

lemma keeps_riscv_mem_store [keep_intros]: "keeps (hart_inv D) (riscv_mem_store E vaddr sz v)"
  unfolding riscv_mem_store_def slow_store_def by (intro keep_intros)

end

end
