(* ===== verification/Exec.thy ===== *)
theory Exec
  imports Mmu
begin

text \<open>
  The 32-bit instructions of the riscv64 interpreter
  (src/src/cpu/isa/riscv64/exec.c): field accessors and immediates, the CSR,
  system, atomic, floating-point and cache-block operations, and the switch
  of \<open>riscv_exec_inst\<close> with one definition per major opcode.  The mnemonic
  and trace fields of the step record have no effect on execution and are
  left out.
\<close>

section \<open>Instruction fields and immediates\<close>

definition rd :: "u32 \<Rightarrow> nat" where "rd i = unat (drop_bit 7 i AND 31)"
definition rs1 :: "u32 \<Rightarrow> nat" where "rs1 i = unat (drop_bit 15 i AND 31)"
definition rs2 :: "u32 \<Rightarrow> nat" where "rs2 i = unat (drop_bit 20 i AND 31)"
definition rs3 :: "u32 \<Rightarrow> nat" where "rs3 i = unat (drop_bit 27 i)"
definition f3 :: "u32 \<Rightarrow> nat" where "f3 i = unat (drop_bit 12 i AND 7)"
definition f7 :: "u32 \<Rightarrow> nat" where "f7 i = unat (drop_bit 25 i)"

definition sext :: "u64 \<Rightarrow> nat \<Rightarrow> u64" where
  "sext v bits =
     (if 64 \<le> bits then v
      else let m = push_bit (bits - 1) 1 in ((v AND (push_bit bits 1 - 1)) XOR m) - m)"

definition imm_i :: "u32 \<Rightarrow> u64" where
  "imm_i i = sext (ucast (drop_bit 20 i)) 12"

definition imm_s :: "u32 \<Rightarrow> u64" where
  "imm_s i = sext (ucast (push_bit 5 (drop_bit 25 i) OR (drop_bit 7 i AND 31))) 12"

definition imm_b :: "u32 \<Rightarrow> u64" where
  "imm_b i = sext (ucast (push_bit 12 (drop_bit 31 i AND 1) OR push_bit 11 (drop_bit 7 i AND 1) OR
     push_bit 5 (drop_bit 25 i AND 0x3f) OR push_bit 1 (drop_bit 8 i AND 15))) 13"

definition imm_u :: "u32 \<Rightarrow> u64" where
  "imm_u i = sext (ucast i AND 0xfffff000) 32"

definition imm_j :: "u32 \<Rightarrow> u64" where
  "imm_j i = sext (ucast (push_bit 20 (drop_bit 31 i AND 1) OR push_bit 12 (drop_bit 12 i AND 0xff) OR
     push_bit 11 (drop_bit 20 i AND 1) OR push_bit 1 (drop_bit 21 i AND 0x3ff))) 21"

definition illegal :: "u64 \<Rightarrow> ('d, 'a) hprog" where
  "illegal tval = raise_trap kExIllegal tval"

definition load :: "('d, 'l) env \<Rightarrow> u64 \<Rightarrow> nat \<Rightarrow> bool \<Rightarrow> ('d, u64) hprog" where
  "load E addr sz sext_w = andthen (riscv_mem_load E addr sz acc_read)
     (\<lambda>v. ret (if sext_w then sext v (sz * 8) else v))"

section \<open>Zicsr\<close>

definition csr_get :: "('d, 'l) env \<Rightarrow> u64 \<Rightarrow> u64 \<Rightarrow> ('d, u64) hprog" where
  "csr_get E csr tval = (\<lambda>h. case riscv_csr_read E h csr of
       CsrOk v \<Rightarrow> Ok v h | CsrFail \<Rightarrow> illegal tval h | CsrOob \<Rightarrow> Undef)"

definition csr_set :: "u64 \<Rightarrow> u64 \<Rightarrow> u64 \<Rightarrow> ('d, unit) hprog" where
  "csr_set csr wval tval = (\<lambda>h. case riscv_csr_write (rs h) csr wval (pc (cpu h) + 4) of
       CsrOk s \<Rightarrow> Ok () (h\<lparr>rs := s\<rparr>) | CsrFail \<Rightarrow> illegal tval h | CsrOob \<Rightarrow> Undef)"

definition csr_op :: "('d, 'l) env \<Rightarrow> u32 \<Rightarrow> ('d, unit) hprog" where
  "csr_op E i =
     (let f3v = f3 i; csr = ucast (drop_bit 20 i AND 0xfff) in
      andthen (csr_get E csr (ucast i)) (\<lambda>old.
      andthen (get_x (rs1 i)) (\<lambda>x1.
      let src = (if 5 \<le> f3v then of_nat (rs1 i) else x1);
          op = f3v mod 4 in
      if op = 0 then illegal (ucast i)
      else let wval = (if op = 1 then src else if op = 2 then old OR src else old AND NOT src);
               do_write = (op = 1 \<or> src \<noteq> 0) in
        andthen (if do_write then csr_set csr wval (ucast i) else ret ()) (\<lambda>_.
        set_x (rd i) old))))"

section \<open>System instructions\<close>

definition system_op :: "u32 \<Rightarrow> ('d, u64) hprog" where
  "system_op i =
     (let imm12 = drop_bit 20 i AND 0xfff; tval = ucast i in
      andthen get_rs (\<lambda>s. andthen get_pc (\<lambda>p.
      if imm12 = 0x000 then
        raise_trap (if priv s = kPrivMachine then kExMachineEcall
                    else if priv s = kPrivSupervisor then kExSupervisorEcall else kExUserEcall) 0
      else if imm12 = 0x001 then raise_trap kExBreakpoint p
      else if imm12 = 0x302 then
        (if rd i \<noteq> 0 \<or> rs1 i \<noteq> 0 \<or> priv s \<noteq> kPrivMachine then illegal tval
         else let (target, s') = riscv_mret s in andthen (set_rs (\<lambda>_. s')) (\<lambda>_. ret target))
      else if imm12 = 0x102 then
        (if rd i \<noteq> 0 \<or> rs1 i \<noteq> 0 then illegal tval
         else if priv s = kPrivSupervisor \<and> mstatus s AND kMstatusTsr \<noteq> 0 then illegal tval
         else if priv s < kPrivSupervisor then illegal tval
         else let (target, s') = riscv_sret s in andthen (set_rs (\<lambda>_. s')) (\<lambda>_. ret target))
      else if imm12 = 0x105 then
        (if rd i \<noteq> 0 \<or> rs1 i \<noteq> 0 then illegal tval
         else if priv s = kPrivUser \<or> priv s = kPrivSupervisor \<and> mstatus s AND kMstatusTw \<noteq> 0
         then illegal tval
         else andthen (if MipAll s AND mie s = 0 then set_cpu (\<lambda>c. c\<lparr>wait := True\<rparr>) else ret ())
           (\<lambda>_. ret (p + 4)))
      else if imm12 = 0x120 then
        (if rd i \<noteq> 0 then illegal tval
         else if priv s = kPrivUser \<or> priv s = kPrivSupervisor \<and> mstatus s AND kMstatusTvm \<noteq> 0
         then illegal tval
         else andthen (set_rs (\<lambda>s. s\<lparr>tlb_gen := tlb_gen s + 1\<rparr>)) (\<lambda>_. ret (p + 4)))
      else illegal tval)))"

section \<open>Atomics\<close>

definition amo_d :: "nat \<Rightarrow> u64 \<Rightarrow> u64 \<Rightarrow> u64" where
  "amo_d op5 old val =
     (if op5 = 0x01 then val
      else if op5 = 0x00 then old + val
      else if op5 = 0x04 then old XOR val
      else if op5 = 0x0C then old AND val
      else if op5 = 0x08 then old OR val
      else if op5 = 0x10 then (if sint old < sint val then old else val)
      else if op5 = 0x14 then (if sint val < sint old then old else val)
      else if op5 = 0x18 then (if old < val then old else val)
      else (if val < old then old else val))"

definition amo_w :: "nat \<Rightarrow> u64 \<Rightarrow> u64 \<Rightarrow> u64" where
  "amo_w op5 old val =
     (let o32 = (ucast old :: u32); v32 = (ucast val :: u32) in
      ucast (if op5 = 0x01 then v32
        else if op5 = 0x00 then o32 + v32
        else if op5 = 0x04 then o32 XOR v32
        else if op5 = 0x0C then o32 AND v32
        else if op5 = 0x08 then o32 OR v32
        else if op5 = 0x10 then (if sint o32 < sint v32 then o32 else v32)
        else if op5 = 0x14 then (if sint v32 < sint o32 then o32 else v32)
        else if op5 = 0x18 then (if o32 < v32 then o32 else v32)
        else (if v32 < o32 then o32 else v32)) AND 0xffffffff)"

definition amo_op :: "('d, 'l) env \<Rightarrow> u32 \<Rightarrow> bool \<Rightarrow> ('d, unit) hprog" where
  "amo_op E i is_double =
     (let op5 = f7 i div 4; width = (if is_double then 8 else 4) in
      andthen (get_x (rs1 i)) (\<lambda>addr.
      if addr mod of_nat width \<noteq> 0 then raise_trap kExStoreMisaligned addr
      else if op5 = 0x02 then
        andthen (riscv_mem_load E addr width acc_read) (\<lambda>old.
        andthen (set_rs (\<lambda>s. s\<lparr>res_valid := True, res_addr := addr\<rparr>)) (\<lambda>_.
        set_x (rd i) (if is_double then old else sext old 32)))
      else if op5 = 0x03 then
        andthen (get_x (rs2 i)) (\<lambda>val.
        andthen get_rs (\<lambda>s.
        andthen (if res_valid s \<and> res_addr s = addr
                 then andthen (riscv_mem_store E addr width val) (\<lambda>_. set_x (rd i) 0)
                 else set_x (rd i) 1) (\<lambda>_.
        set_rs (\<lambda>s. s\<lparr>res_valid := False\<rparr>))))
      else if op5 \<in> {0x01, 0x00, 0x04, 0x0C, 0x08, 0x10, 0x14, 0x18, 0x1C} then
        andthen (riscv_mem_load E addr width acc_read) (\<lambda>old.
        andthen (get_x (rs2 i)) (\<lambda>val.
        andthen (riscv_mem_store E addr width
                  (if is_double then amo_d op5 old val else amo_w op5 old val)) (\<lambda>_.
        set_x (rd i) (if is_double then old else sext old 32))))
      else illegal (ucast i)))"

section \<open>Floating point\<close>

definition fp_rm :: "RiscvState \<Rightarrow> nat \<Rightarrow> nat" where
  "fp_rm s rm_field = (if rm_field = kRmDyn then unat (frm s) else rm_field)"

definition fp_disabled :: "u64 \<Rightarrow> ('d, 'a) hprog" where
  "fp_disabled tval = raise_trap kExIllegal tval"

definition fp_enter :: "u64 \<Rightarrow> ('d, unit) hprog" where
  "fp_enter tval = andthen get_rs (\<lambda>s.
     if mstatus s AND kMstatusFs = 0 then fp_disabled tval
     else set_rs (\<lambda>s. s\<lparr>mstatus := mstatus s OR kMstatusFs\<rparr>))"

text \<open>A back-end operation runs on the accrued flags of the state.\<close>

definition fp_run :: "(u8 \<Rightarrow> u64 \<times> u8) \<Rightarrow> ('d, u64) hprog" where
  "fp_run op = andthen get_rs (\<lambda>s. case op (fflags s) of (r, fl) \<Rightarrow>
     andthen (set_rs (\<lambda>s. s\<lparr>fflags := fl\<rparr>)) (\<lambda>_. ret r))"

definition fp_run_opt :: "(u8 \<Rightarrow> (u64 \<times> u8) option) \<Rightarrow> ('d, u64) hprog" where
  "fp_run_opt op = andthen get_rs (\<lambda>s. case op (fflags s) of None \<Rightarrow> fatal
     | Some (r, fl) \<Rightarrow> andthen (set_rs (\<lambda>s. s\<lparr>fflags := fl\<rparr>)) (\<lambda>_. ret r))"

definition fp_kind_of :: "nat \<Rightarrow> fp_kind" where
  "fp_kind_of f7v = (let k = (f7v div 4) mod 4 in
     if k = 0 then kFpAdd else if k = 1 then kFpSub else if k = 2 then kFpMul else kFpDiv)"

text \<open>
  A comparison with \<open>f3\<close> above 2 indexes the six-element table of names out of
  bounds before it compares.
\<close>

definition fp_op :: "('d, 'l) env \<Rightarrow> u32 \<Rightarrow> ('d, unit) hprog" where
  "fp_op E i =
     (let H = e_fp E; f3v = f3 i; f7v = f7 i; dbl = odd f7v; tval = ucast i;
          to_signed = even (rs2 i); dbits = (if (rs2 i div 2) mod 2 = 1 then 64 else 32) in
      andthen (fp_enter tval) (\<lambda>_.
      andthen get_rs (\<lambda>s.
      andthen (get_f (rs1 i)) (\<lambda>a.
      andthen (get_f (rs2 i)) (\<lambda>b.
      andthen (get_x (rs1 i)) (\<lambda>x1.
      let rm = fp_rm s f3v; wr_f = (\<lambda>r. set_f (rd i) r); wr_x = (\<lambda>r. set_x (rd i) r) in
      if f7v \<in> {0x00, 0x01, 0x04, 0x05, 0x08, 0x09, 0x0C, 0x0D} then
        andthen (fp_run_opt (if dbl then RiscvFpBinaryD H a b (fp_kind_of f7v) rm
                             else RiscvFpBinaryS H a b (fp_kind_of f7v) rm)) wr_f
      else if f7v \<in> {0x2C, 0x2D} then
        (if rs2 i \<noteq> 0 then illegal tval
         else andthen (fp_run (if dbl then RiscvFpSqrtD H a rm else RiscvFpSqrtS H a rm)) wr_f)
      else if f7v \<in> {0x10, 0x11} then
        (if 2 < f3v then illegal tval
         else wr_f (if dbl then RiscvFpSgnjD a b f3v else RiscvFpSgnjS a b f3v))
      else if f7v \<in> {0x14, 0x15} then
        (if 1 < f3v then illegal tval
         else andthen (fp_run (if dbl then RiscvFpMinMaxD a b (f3v \<noteq> 0)
                               else RiscvFpMinMaxS a b (f3v \<noteq> 0))) wr_f)
      else if f7v \<in> {0x50, 0x51} then
        (if 2 < f3v then undef
         else let kind = (if f3v = 0 then kFpLe else if f3v = 1 then kFpLt else kFpEq) in
         andthen (fp_run_opt (if dbl then RiscvFpCmpD a b kind else RiscvFpCmpS a b kind)) wr_x)
      else if f7v \<in> {0x60, 0x61} then
        (if 3 < rs2 i then illegal tval
         else andthen (fp_run (if dbl then RiscvFpF2ID H a to_signed dbits rm
                               else RiscvFpF2IS H a to_signed dbits rm)) wr_x)
      else if f7v \<in> {0x68, 0x69} then
        (if 3 < rs2 i then illegal tval
         else andthen (fp_run (if dbl then RiscvFpI2FD H x1 to_signed dbits rm
                               else RiscvFpI2FS H x1 to_signed dbits rm)) wr_f)
      else if f7v = 0x20 then
        (if rs2 i \<noteq> 1 then illegal tval else andthen (fp_run (RiscvFpCvtSD H a rm)) wr_f)
      else if f7v = 0x21 then
        (if rs2 i \<noteq> 0 then illegal tval else andthen (fp_run (RiscvFpCvtDS H a rm)) wr_f)
      else if f7v = 0x70 then
        (if rs2 i \<noteq> 0 \<or> 1 < f3v then illegal tval
         else wr_x (if f3v = 0 then scast (ucast a :: u32) else RiscvFpClassS a))
      else if f7v = 0x71 then
        (if rs2 i \<noteq> 0 \<or> 1 < f3v then illegal tval
         else wr_x (if f3v = 0 then a else RiscvFpClassD a))
      else if f7v = 0x78 then
        (if rs2 i \<noteq> 0 \<or> f3v \<noteq> 0 then illegal tval
         else wr_f (0xffffffff00000000 OR (x1 AND 0xffffffff)))
      else if f7v = 0x79 then
        (if rs2 i \<noteq> 0 \<or> f3v \<noteq> 0 then illegal tval else wr_f x1)
      else illegal tval))))))"

definition fma_op :: "('d, 'l) env \<Rightarrow> u32 \<Rightarrow> u32 \<Rightarrow> ('d, unit) hprog" where
  "fma_op E i opcode =
     (let H = e_fp E; dbl = (drop_bit 25 i AND 1 \<noteq> 0);
          sgn = (if dbl then 0x8000000000000000 else 0x80000000 :: u64) in
      andthen (fp_enter (ucast i)) (\<lambda>_.
      andthen get_rs (\<lambda>s.
      andthen (get_f (rs1 i)) (\<lambda>a0.
      andthen (get_f (rs2 i)) (\<lambda>b.
      andthen (get_f (rs3 i)) (\<lambda>c0.
      let rm = fp_rm s (f3 i);
          c = (if opcode = 0x47 \<or> opcode = 0x4f then c0 XOR sgn else c0);
          a = (if opcode = 0x4b \<or> opcode = 0x4f then a0 XOR sgn else a0) in
      andthen (fp_run (if dbl then RiscvFpFmaD H a b c rm else RiscvFpFmaS H a b c rm))
        (set_f (rd i))))))))"

definition fp_ldst :: "('d, 'l) env \<Rightarrow> u32 \<Rightarrow> bool \<Rightarrow> bool \<Rightarrow> ('d, unit) hprog" where
  "fp_ldst E i st is_double =
     (let sz = (if is_double then 8 else 4) in
      andthen (fp_enter (ucast i)) (\<lambda>_.
      andthen (get_x (rs1 i)) (\<lambda>x1.
      let addr = x1 + (if st then imm_s i else imm_i i) in
      if st then andthen (get_f (rs2 i)) (riscv_mem_store E addr sz)
      else andthen (riscv_mem_load E addr sz acc_read) (\<lambda>v.
        set_f (rd i) (if is_double then v else 0xffffffff00000000 OR v)))))"

section \<open>Cache blocks\<close>

definition cbo_op :: "u32 \<Rightarrow> ('d, unit) hprog" where
  "cbo_op i = andthen get_rs (\<lambda>s. andthen (get_x (rs1 i)) (\<lambda>x1.
     if priv s = kPrivUser \<and> senvcfg s AND 0x10 = 0 then illegal (ucast i)
     else if x1 mod kCacheBlockSize \<noteq> 0 then illegal (ucast i) else ret ()))"

fun store_zeros :: "('d, 'l) env \<Rightarrow> u64 \<Rightarrow> u64 list \<Rightarrow> ('d, unit) hprog" where
  "store_zeros E addr [] = ret ()"
| "store_zeros E addr (off # offs) =
     andthen (riscv_mem_store E (addr + off) 8 0) (\<lambda>_. store_zeros E addr offs)"

definition cbo_zero :: "('d, 'l) env \<Rightarrow> u32 \<Rightarrow> ('d, unit) hprog" where
  "cbo_zero E i = andthen get_rs (\<lambda>s. andthen (get_x (rs1 i)) (\<lambda>addr.
     if priv s = kPrivUser \<and> senvcfg s AND 0x80 = 0 then illegal (ucast i)
     else if addr mod kCacheBlockSize \<noteq> 0 then raise_trap kExStoreMisaligned addr
     else store_zeros E addr [0, 8, 16, 24, 32, 40, 48, 56]))"

section \<open>The switch on the major opcode\<close>

text \<open>
  Each group takes the instruction and the program counter read at entry and
  returns the next program counter; \<open>fall p m\<close> is a case that ends in
  \<open>break\<close> and reaches \<open>return pc + 4\<close>.
\<close>

definition fall :: "u64 \<Rightarrow> ('d, unit) hprog \<Rightarrow> ('d, u64) hprog" where
  "fall p m = andthen m (\<lambda>_. ret (p + 4))"

definition exec_upper :: "u32 \<Rightarrow> u64 \<Rightarrow> ('d, u64) hprog" where
  "exec_upper i p =
     (if i AND 0x7f = 0x37 then fall p (set_x (rd i) (imm_u i))
      else fall p (set_x (rd i) (p + imm_u i)))"

definition exec_jump :: "u32 \<Rightarrow> u64 \<Rightarrow> ('d, u64) hprog" where
  "exec_jump i p =
     (if i AND 0x7f = 0x6f then andthen (set_x (rd i) (p + 4)) (\<lambda>_. ret (p + imm_j i))
      else andthen (get_x (rs1 i)) (\<lambda>x1.
        let target = (x1 + imm_i i) AND NOT 1 in
        andthen (set_x (rd i) (p + 4)) (\<lambda>_.
        andthen get_rs (\<lambda>s. ret (if misa s AND kMisaC \<noteq> 0 then target else target AND NOT 2)))))"

definition branch_taken :: "nat \<Rightarrow> u64 \<Rightarrow> u64 \<Rightarrow> bool option" where
  "branch_taken f3v a b =
     (if f3v = 0 then Some (a = b)
      else if f3v = 1 then Some (a \<noteq> b)
      else if f3v = 4 then Some (sint a < sint b)
      else if f3v = 5 then Some (sint b \<le> sint a)
      else if f3v = 6 then Some (a < b)
      else if f3v = 7 then Some (b \<le> a)
      else None)"

definition exec_branch :: "u32 \<Rightarrow> u64 \<Rightarrow> ('d, u64) hprog" where
  "exec_branch i p = andthen (get_x (rs1 i)) (\<lambda>a. andthen (get_x (rs2 i)) (\<lambda>b.
     case branch_taken (f3 i) a b of
       None \<Rightarrow> illegal (ucast i)
     | Some taken \<Rightarrow> ret (if taken then p + imm_b i else p + 4)))"

definition exec_load :: "('d, 'l) env \<Rightarrow> u32 \<Rightarrow> ('d, unit) hprog" where
  "exec_load E i = andthen (get_x (rs1 i)) (\<lambda>x1.
     let addr = x1 + imm_i i; f3v = f3 i in
     if f3v = 0 then andthen (load E addr 1 True) (set_x (rd i))
     else if f3v = 1 then andthen (load E addr 2 True) (set_x (rd i))
     else if f3v = 2 then andthen (load E addr 4 True) (set_x (rd i))
     else if f3v = 3 then andthen (load E addr 8 False) (set_x (rd i))
     else if f3v = 4 then andthen (load E addr 1 False) (set_x (rd i))
     else if f3v = 5 then andthen (load E addr 2 False) (set_x (rd i))
     else if f3v = 6 then andthen (load E addr 4 False) (set_x (rd i))
     else illegal (ucast i))"

definition exec_store :: "('d, 'l) env \<Rightarrow> u32 \<Rightarrow> ('d, unit) hprog" where
  "exec_store E i = andthen (get_x (rs1 i)) (\<lambda>x1. andthen (get_x (rs2 i)) (\<lambda>x2.
     let addr = x1 + imm_s i; f3v = f3 i in
     if f3v = 0 then riscv_mem_store E addr 1 x2
     else if f3v = 1 then riscv_mem_store E addr 2 x2
     else if f3v = 2 then riscv_mem_store E addr 4 x2
     else if f3v = 3 then riscv_mem_store E addr 8 x2
     else illegal (ucast i)))"

definition shamt6 :: "u32 \<Rightarrow> nat" where
  "shamt6 i = unat ((drop_bit 20 i AND 31) OR push_bit 5 (drop_bit 25 i AND 1))"

text \<open>The arithmetic groups compute a value; \<open>None\<close> is an illegal encoding.\<close>

definition op_imm :: "u32 \<Rightarrow> u64 \<Rightarrow> u64 option" where
  "op_imm i a =
     (let imm = imm_i i; f3v = f3 i; f6 = (f7 i div 2) * 2 in
      if f3v = 0 then Some (a + imm)
      else if f3v = 2 then Some (of_bool (sint a < sint imm))
      else if f3v = 3 then Some (of_bool (a < imm))
      else if f3v = 4 then Some (a XOR imm)
      else if f3v = 6 then Some (a OR imm)
      else if f3v = 7 then Some (a AND imm)
      else if f3v = 1 then (if f6 \<noteq> 0 then None else Some (push_bit (shamt6 i) a))
      else (if f6 \<noteq> 0 \<and> f6 \<noteq> 0x20 then None
            else Some (if drop_bit 30 i AND 1 \<noteq> 0 then signed_drop_bit (shamt6 i) a
                       else drop_bit (shamt6 i) a)))"

definition op_imm_32 :: "u32 \<Rightarrow> u64 \<Rightarrow> u64 option" where
  "op_imm_32 i x1 =
     (let a = (ucast x1 :: u32); f3v = f3 i; f7v = f7 i in
      if f3v = 0 then Some (sext (ucast (a + ucast (imm_i i))) 32)
      else if f3v = 1 then
        (if f7v \<noteq> 0 then None else Some (sext (ucast (push_bit (rs2 i) a)) 32))
      else if f3v = 5 then
        (if f7v \<noteq> 0 \<and> f7v \<noteq> 0x20 then None
         else if f7v = 0x20 then Some (sext (ucast (signed_drop_bit (rs2 i) a)) 32)
         else Some (sext (ucast (drop_bit (rs2 i) a)) 32))
      else None)"

text \<open>The products of the M extension are 128 bits wide.\<close>

definition mulh :: "u64 \<Rightarrow> u64 \<Rightarrow> u64" where
  "mulh a b = ucast (signed_drop_bit 64 ((scast a :: 128 word) * scast b))"

definition mulhsu :: "u64 \<Rightarrow> u64 \<Rightarrow> u64" where
  "mulhsu a b = ucast (signed_drop_bit 64 ((scast a :: 128 word) * ucast b))"

definition mulhu :: "u64 \<Rightarrow> u64 \<Rightarrow> u64" where
  "mulhu a b = ucast (signed_drop_bit 64 ((ucast a :: 128 word) * ucast b))"

definition div_s :: "u64 \<Rightarrow> u64 \<Rightarrow> u64" where
  "div_s a b = (let sa = sint a; sb = sint b in
     if sb = 0 then NOT 0 else if sa = - (2 ^ 63) \<and> sb = - 1 then a else word_of_int (sa sdiv sb))"

definition rem_s :: "u64 \<Rightarrow> u64 \<Rightarrow> u64" where
  "rem_s a b = (let sa = sint a; sb = sint b in
     if sb = 0 then a else if sa = - (2 ^ 63) \<and> sb = - 1 then 0 else word_of_int (sa smod sb))"

definition op_reg :: "u32 \<Rightarrow> u64 \<Rightarrow> u64 \<Rightarrow> u64 option" where
  "op_reg i a b =
     (let f3v = f3 i; f7v = f7 i; sh = unat (b AND 63) in
      if f3v = 0 then
        (if f7v = 0x00 then Some (a + b) else if f7v = 0x20 then Some (a - b)
         else if f7v = 0x01 then Some (a * b) else None)
      else if f3v = 1 then
        (if f7v = 0x00 then Some (push_bit sh a) else if f7v = 0x01 then Some (mulh a b) else None)
      else if f3v = 2 then
        (if f7v = 0x00 then Some (of_bool (sint a < sint b))
         else if f7v = 0x01 then Some (mulhsu a b) else None)
      else if f3v = 3 then
        (if f7v = 0x00 then Some (of_bool (a < b))
         else if f7v = 0x01 then Some (mulhu a b) else None)
      else if f3v = 4 then
        (if f7v = 0x00 then Some (a XOR b) else if f7v = 0x01 then Some (div_s a b) else None)
      else if f3v = 5 then
        (if f7v = 0x00 then Some (drop_bit sh a)
         else if f7v = 0x20 then Some (signed_drop_bit sh a)
         else if f7v = 0x01 then Some (if b \<noteq> 0 then a div b else NOT 0) else None)
      else if f3v = 6 then
        (if f7v = 0x00 then Some (a OR b) else if f7v = 0x01 then Some (rem_s a b) else None)
      else
        (if f7v = 0x00 then Some (a AND b)
         else if f7v = 0x01 then Some (if b \<noteq> 0 then a mod b else a) else None))"

definition divw :: "u32 \<Rightarrow> u32 \<Rightarrow> u64" where
  "divw a b = (let sa = sint a; sb = sint b in
     if sb = 0 then sext (ucast (NOT 0 :: u32)) 32
     else if sa = - (2 ^ 31) \<and> sb = - 1 then sext (ucast a) 32
     else sext (word_of_int (sa sdiv sb)) 32)"

definition remw :: "u32 \<Rightarrow> u32 \<Rightarrow> u64" where
  "remw a b = (let sa = sint a; sb = sint b in
     if sb = 0 then sext (ucast a) 32
     else if sa = - (2 ^ 31) \<and> sb = - 1 then 0
     else sext (word_of_int (sa smod sb)) 32)"

definition op_reg_32 :: "u32 \<Rightarrow> u64 \<Rightarrow> u64 \<Rightarrow> u64 option" where
  "op_reg_32 i x1 x2 =
     (let a = (ucast x1 :: u32); b = (ucast x2 :: u32); f3v = f3 i; f7v = f7 i;
          sh = unat (b AND 31) in
      if f3v = 0 then
        (if f7v = 0x00 then Some (sext (ucast (a + b)) 32)
         else if f7v = 0x20 then Some (sext (ucast (a - b)) 32)
         else if f7v = 0x01 then Some (sext (ucast (a * b)) 32) else None)
      else if f3v = 1 then
        (if f7v = 0x00 then Some (sext (ucast (push_bit sh a)) 32) else None)
      else if f3v = 4 then (if f7v \<noteq> 0x01 then None else Some (divw a b))
      else if f3v = 5 then
        (if f7v = 0x00 then Some (sext (ucast (drop_bit sh a)) 32)
         else if f7v = 0x20 then Some (sext (ucast (signed_drop_bit sh a)) 32)
         else if f7v = 0x01 then
           Some (if b = 0 then sext (ucast (NOT 0 :: u32)) 32 else sext (ucast (a div b)) 32)
         else None)
      else if f3v = 6 then (if f7v \<noteq> 0x01 then None else Some (remw a b))
      else if f3v = 7 then
        (if f7v \<noteq> 0x01 then None
         else Some (if b = 0 then sext (ucast a) 32 else sext (ucast (a mod b)) 32))
      else None)"

definition put_x :: "u32 \<Rightarrow> u64 option \<Rightarrow> ('d, unit) hprog" where
  "put_x i r = (case r of None \<Rightarrow> illegal (ucast i) | Some v \<Rightarrow> set_x (rd i) v)"

definition exec_alu :: "u32 \<Rightarrow> ('d, unit) hprog" where
  "exec_alu i = andthen (get_x (rs1 i)) (\<lambda>x1. andthen (get_x (rs2 i)) (\<lambda>x2.
     let opc = i AND 0x7f in
     if opc = 0x13 then put_x i (op_imm i x1)
     else if opc = 0x1b then put_x i (op_imm_32 i x1)
     else if opc = 0x33 then put_x i (op_reg i x1 x2)
     else put_x i (op_reg_32 i x1 x2)))"

definition exec_misc_mem :: "('d, 'l) env \<Rightarrow> u32 \<Rightarrow> ('d, unit) hprog" where
  "exec_misc_mem E i =
     (if f3 i = 0 then ret ()
      else if f3 i = 1 then
        (if f7 i = 0 \<and> rs1 i = 0 \<and> rd i = 0 then ret ()
         else if 2 < f7 i then illegal (ucast i) else cbo_op i)
      else if f3 i = 2 then (if f7 i \<noteq> 0 then illegal (ucast i) else cbo_zero E i)
      else illegal (ucast i))"

definition exec_amo :: "('d, 'l) env \<Rightarrow> u32 \<Rightarrow> ('d, unit) hprog" where
  "exec_amo E i = (if f3 i = 2 then amo_op E i False else if f3 i = 3 then amo_op E i True
     else illegal (ucast i))"

definition exec_fp_ldst :: "('d, 'l) env \<Rightarrow> u32 \<Rightarrow> bool \<Rightarrow> ('d, unit) hprog" where
  "exec_fp_ldst E i st = (if f3 i = 2 then fp_ldst E i st False
     else if f3 i = 3 then fp_ldst E i st True else illegal (ucast i))"

definition riscv_exec_inst :: "('d, 'l) env \<Rightarrow> u32 \<Rightarrow> ('d, u64) hprog" where
  "riscv_exec_inst E i = andthen get_pc (\<lambda>p.
     let opc = i AND 0x7f in
     if opc = 0x37 \<or> opc = 0x17 then exec_upper i p
     else if opc = 0x6f \<or> opc = 0x67 then exec_jump i p
     else if opc = 0x63 then exec_branch i p
     else if opc = 0x03 then fall p (exec_load E i)
     else if opc = 0x23 then fall p (exec_store E i)
     else if opc = 0x13 \<or> opc = 0x1b \<or> opc = 0x33 \<or> opc = 0x3b then fall p (exec_alu i)
     else if opc = 0x0f then fall p (exec_misc_mem E i)
     else if opc = 0x73 then
       (if f3 i = 0 then system_op i
        else if f3 i \<noteq> 4 then fall p (csr_op E i) else illegal (ucast i))
     else if opc = 0x2f then fall p (exec_amo E i)
     else if opc = 0x07 then fall p (exec_fp_ldst E i False)
     else if opc = 0x27 then fall p (exec_fp_ldst E i True)
     else if opc = 0x43 \<or> opc = 0x47 \<or> opc = 0x4b \<or> opc = 0x4f then fall p (fma_op E i opc)
     else if opc = 0x53 then fall p (fp_op E i)
     else illegal (ucast i))"

section \<open>Sign extension\<close>

lemma sext_signed_take_bit:
  assumes "0 < n" "n \<le> 64"
  shows "sext v n = signed_take_bit (n - 1) v"
proof (cases "n = 64")
  case True
  have "min j 63 = j" if "j < 64" for j :: nat using that by simp
  then show ?thesis using True by (simp add: sext_def u64_eq_iff bit_signed_take_bit_iff)
next
  case False
  define k where "k = n - 1"
  have n: "n = Suc k" "k < 63" using assms False by (auto simp: k_def)
  have m: "push_bit n 1 - 1 = (mask n :: u64)" by (simp add: mask_eq_exp_minus_1 push_bit_of_1)
  have sx: "sext v n = (take_bit n v XOR push_bit k 1) - push_bit k 1"
    unfolding sext_def Let_def m take_bit_eq_mask k_def using False assms by simp
  define t where "t = take_bit k v"
  have tk: "\<not> bit t k" by (simp add: t_def bit_take_bit_iff)
  show ?thesis
  proof (cases "bit v k")
    case True
    have "take_bit n v XOR push_bit k 1 = t"
      using True n by (auto simp: u64_eq_iff bit_simps t_def less_Suc_eq)
    moreover have "signed_take_bit k v = t OR NOT (mask k)"
      using True by (simp add: signed_take_bit_def t_def)
    moreover have "t OR NOT (mask k) = t + NOT (mask k)"
      by (rule disjunctive_add [symmetric]) (auto simp: t_def bit_simps)
    moreover have "NOT (mask k) = - push_bit k (1 :: u64)"
      by (simp add: not_eq_complement mask_eq_exp_minus_1)
    ultimately show ?thesis unfolding sx k_def [symmetric] by simp
  next
    case False
    then have "take_bit n v XOR push_bit k 1 = t OR push_bit k 1"
      using n by (auto simp: u64_eq_iff bit_simps t_def less_Suc_eq)
    moreover have "t OR push_bit k 1 = t + push_bit k 1"
      by (rule disjunctive_add [symmetric]) (auto simp: t_def bit_simps)
    moreover have "signed_take_bit k v = t"
      using False by (simp add: signed_take_bit_def t_def)
    ultimately show ?thesis unfolding sx k_def [symmetric] by simp
  qed
qed

lemma bit_sext:
  "0 < n \<Longrightarrow> n \<le> 64 \<Longrightarrow> bit (sext v n) j \<longleftrightarrow> j < 64 \<and> bit v (min j (n - 1))"
  by (simp add: sext_signed_take_bit bit_signed_take_bit_iff min.commute)

lemma even_sext: "1 < n \<Longrightarrow> n \<le> 64 \<Longrightarrow> even (sext v n) = even v"
  using bit_sext [of n v 0] by (simp add: bit_0)

section \<open>Execution keeps the invariant\<close>

abbreviation even_pc :: "u64 \<Rightarrow> bool" where "even_pc p \<equiv> \<not> bit p 0"

lemma keeps_illegal [keep_intros]: "keeps P (illegal tval)"
  and keeps_fp_disabled [keep_intros]: "keeps P (fp_disabled tval)"
  unfolding illegal_def fp_disabled_def by (rule keep_intros)+

lemma keeps_csr_get [keep_intros]: "keeps P (csr_get E csr tval)"
  by (simp add: keeps_def csr_get_def illegal_def raise_trap_def split: csr_res.splits)

lemma even_add_pc: "even_pc p \<Longrightarrow> even_pc (p + 4)" "even_pc p \<Longrightarrow> even_pc (p + 2)"
  by (simp_all add: bit_0)

lemma fst_mret_even: "even_pc (fst (riscv_mret s))" "even_pc (fst (riscv_sret s))"
  using return_pc_even by (simp_all add: riscv_mret_def riscv_sret_def Let_def case_prod_unfold)

lemma even_imm: "even (imm_j i)" "even (imm_b i)"
proof -
  have "\<not> bit (imm_j i) 0" "\<not> bit (imm_b i) 0"
    unfolding imm_j_def imm_b_def by (simp_all add: bit_sext bit_simps del: bit_0)
  then show "even (imm_j i)" "even (imm_b i)" by (simp_all add: bit_0)
qed

context devices
begin

lemma keeps_load [keep_intros]: "keeps (hart_inv D) (load E addr sz w)"
  unfolding load_def by (intro keep_intros)

lemma keeps_csr_set [keep_intros]: "keeps (hart_inv D) (csr_set csr v tval)"
  by (auto simp: keeps_def csr_set_def illegal_def raise_trap_def hart_inv_def hart_ok_def split: csr_res.splits
      intro: rs_ok_csr_write)

lemma keeps_csr_op [keep_intros]: "keeps (hart_inv D) (csr_op E i)"
  unfolding csr_op_def by (intro keep_intros)

lemma yields_get_pc: "yields (hart_inv D) even_pc get_pc"
  by (auto simp: yields_def keeps_get) (simp add: get_pc_def reads_def hart_inv_def hart_ok_def)

lemma keeps_set_cpu [keep_intros]:
  "(\<And>c. pc (f c) = pc c) \<Longrightarrow> keeps (hart_inv D) (set_cpu f)"
  unfolding set_cpu_def by (rule keeps_updates) (simp add: hart_inv_def hart_ok_def)

lemma yields_with_rs:
  assumes "\<And>s. rs_ok s \<Longrightarrow> yields (hart_inv D) Q (f s)"
  shows "yields (hart_inv D) Q (andthen get_rs f)"
  by (rule yields_andthen [where R = rs_ok, OF _ assms])
    (auto simp: yields_def keeps_get, simp add: get_rs_def reads_def hart_inv_def hart_ok_def)

lemma keeps_const_rs: "rs_ok s \<Longrightarrow> keeps (hart_inv D) (set_rs (\<lambda>_. s))"
  by (rule keeps_set_rs) simp

lemma yields_system_op: "yields (hart_inv D) even_pc (system_op i)"
  unfolding system_op_def Let_def illegal_def case_prod_unfold
  by (rule yields_with_rs, rule yields_andthen [OF yields_get_pc],
      intro yield_intros keep_intros keeps_const_rs rs_ok_mret rs_ok_sret fst_mret_even even_add_pc)
    simp_all

lemma keeps_amo_op [keep_intros]: "keeps (hart_inv D) (amo_op E i d)"
  unfolding amo_op_def Let_def by (intro keep_intros) simp_all

lemma keeps_fp_enter [keep_intros]: "keeps (hart_inv D) (fp_enter tval)"
  unfolding fp_enter_def by (intro keep_intros) (simp add: rs_ok_def mstatus_ok_def bit_simps)

lemma keeps_fp_run [keep_intros]:
  assumes "\<And>fl. adds_flags fl (snd (op fl))"
  shows "keeps (hart_inv D) (fp_run op)"
proof -
  have "rs_ok s \<Longrightarrow> rs_ok (s\<lparr>fflags := snd (op (fflags s))\<rparr>)" for s
    using adds_flags_less [OF assms] by (simp add: rs_ok_def)
  then show ?thesis
    by (simp add: keeps_def fp_run_def get_rs_def set_rs_def prog_defs hart_inv_def hart_ok_def case_prod_unfold)
qed

lemma keeps_fp_run_opt [keep_intros]:
  assumes "\<And>fl r. op fl = Some r \<Longrightarrow> adds_flags fl (snd r)"
  shows "keeps (hart_inv D) (fp_run_opt op)"
proof -
  have "rs_ok s \<Longrightarrow> op (fflags s) = Some (a, b) \<Longrightarrow> rs_ok (s\<lparr>fflags := b\<rparr>)" for s a b
    using adds_flags_less [OF assms, of "fflags s" "(a, b)"] by (simp add: rs_ok_def)
  then show ?thesis
    by (auto simp: keeps_def fp_run_opt_def get_rs_def set_rs_def prog_defs hart_inv_def hart_ok_def
        split: option.splits)
qed

lemma keeps_fp_op [keep_intros]: "keeps (hart_inv D) (fp_op E i)"
  unfolding fp_op_def Let_def
  by (intro keep_intros)
    (auto simp: adds_flags_unary adds_flags_convert intro: adds_flags_binary adds_flags_cmp split: if_splits)

lemma keeps_fma_op [keep_intros]: "keeps (hart_inv D) (fma_op E i opc)"
  unfolding fma_op_def Let_def
  by (intro keep_intros) (auto simp: adds_flags_unary)

lemma keeps_fp_ldst [keep_intros]: "keeps (hart_inv D) (fp_ldst E i st d)"
  unfolding fp_ldst_def Let_def by (intro keep_intros)

lemma keeps_store_zeros [keep_intros]: "keeps (hart_inv D) (store_zeros E addr offs)"
proof (induction offs)
  case Nil
  show ?case unfolding store_zeros.simps by (rule keep_intros)
next
  case (Cons off offs)
  show ?case unfolding store_zeros.simps by (intro keep_intros Cons)
qed

lemma keeps_cbo [keep_intros]: "keeps (hart_inv D) (cbo_op i)" "keeps (hart_inv D) (cbo_zero E i)"
  unfolding cbo_op_def cbo_zero_def by (intro keep_intros)+

lemma yields_fall: "even_pc p \<Longrightarrow> keeps (hart_inv D) m \<Longrightarrow> yields (hart_inv D) even_pc (fall p m)"
  unfolding fall_def by (intro yield_intros even_add_pc)

lemma yields_exec_upper: "even_pc p \<Longrightarrow> yields (hart_inv D) even_pc (exec_upper i p)"
  unfolding exec_upper_def by (intro yield_intros yields_fall keep_intros)

lemma yields_exec_jump: "even_pc p \<Longrightarrow> yields (hart_inv D) even_pc (exec_jump i p)"
  unfolding exec_jump_def Let_def
  by (intro yield_intros keep_intros) (simp_all add: even_imm even_and_iff bit_0)


lemma yields_exec_branch: "even_pc p \<Longrightarrow> yields (hart_inv D) even_pc (exec_branch i p)"
  unfolding exec_branch_def illegal_def
  by (intro yield_intros keep_intros) (simp_all add: even_imm bit_0)

lemma keeps_exec_parts [keep_intros]:
  "keeps (hart_inv D) (exec_load E i)" "keeps (hart_inv D) (exec_store E i)" "keeps (hart_inv D) (exec_alu i)"
  "keeps (hart_inv D) (exec_misc_mem E i)" "keeps (hart_inv D) (exec_amo E i)" "keeps (hart_inv D) (exec_fp_ldst E i st)"
  unfolding exec_load_def exec_store_def exec_alu_def put_x_def exec_misc_mem_def exec_amo_def
    exec_fp_ldst_def
  by (intro keep_intros)+

lemma yields_exec_inst: "yields (hart_inv D) even_pc (riscv_exec_inst E i)"
  unfolding riscv_exec_inst_def Let_def
  by (rule yields_andthen [OF yields_get_pc], intro yields_if yields_exec_upper yields_exec_jump
      yields_exec_branch yields_fall yields_system_op keep_intros)
    (simp_all add: illegal_def yields_stop)

end

section \<open>Multiplication and division\<close>

lemma signed_range_unique:
  fixes x y m :: int
  assumes "x mod m = y mod m" "- (m div 2) \<le> x" "x < m div 2" "- (m div 2) \<le> y" "y < m div 2"
  shows "x = y"
proof -
  have "m dvd x - y" using assms(1) by (simp add: mod_eq_dvd_iff)
  moreover have "\<bar>x - y\<bar> < m" using assms(2-5) by auto
  ultimately show ?thesis using zdvd_imp_le [of m "\<bar>x - y\<bar>"] by fastforce
qed

definition high_half :: "128 word \<Rightarrow> u64" where
  "high_half p = ucast (signed_drop_bit 64 p)"

lemma high_half_value: "uint (high_half p) = uint p div 2 ^ 64"
proof -
  have "high_half p = ucast (drop_bit 64 p)"
    by (simp add: high_half_def u64_eq_iff bit_simps bit_signed_drop_bit_iff)
  moreover have "uint (drop_bit 64 p) = uint p div 2 ^ 64"
    by (simp add: unsigned_drop_bit_eq drop_bit_eq_div uint_div_distrib)
  moreover have "uint p div 2 ^ 64 mod 2 ^ 64 = uint p div 2 ^ 64"
  proof -
    have "uint p div 2 ^ 64 \<le> (2 ^ 128 - 1) div 2 ^ 64"
      by (rule zdiv_mono1) (use uint_bounded [of p] in simp_all)
    then show ?thesis by (intro mod_pos_pos_trivial) (simp_all add: pos_imp_zdiv_nonneg_iff)
  qed
  ultimately show ?thesis
    by (simp add: unsigned_ucast_eq take_bit_eq_mod)
qed

lemma high_low_product:
  assumes "uint p = x mod 2 ^ 128" "uint l = x mod 2 ^ 64"
  shows "uint (high_half p) * 2 ^ 64 + uint (l :: u64) = x mod 2 ^ 128"
proof -
  have "x mod 2 ^ 64 = (x mod 2 ^ 128) mod 2 ^ 64" by (simp add: mod_mod_cancel)
  then show ?thesis using assms by (simp add: high_half_value mult.commute [of _ "2 ^ 64"])
qed

lemma signed_high_low_product:
  assumes "uint p = x mod 2 ^ 128" "uint l = x mod 2 ^ 64" "- (2 ^ 127) \<le> x" "x < 2 ^ 127"
  shows "sint (high_half p) * 2 ^ 64 + uint (l :: u64) = x"
proof (rule signed_range_unique)
  let ?h = "high_half p"
  have "(sint ?h * 2 ^ 64 + uint l) mod 2 ^ 128 = (uint ?h * 2 ^ 64 + uint l) mod 2 ^ 128"
  proof -
    have "(sint ?h * 2 ^ 64) mod (2 ^ 64 * 2 ^ 64) = (uint ?h * 2 ^ 64) mod (2 ^ 64 * 2 ^ 64)"
      unfolding mod_mult_mult2 by (simp add: uint_sint take_bit_eq_mod)
    then show ?thesis by (intro mod_add_cong) simp_all
  qed
  then show "(sint ?h * 2 ^ 64 + uint l) mod 2 ^ 128 = x mod 2 ^ 128"
    using high_low_product [OF assms(1,2)] by simp
  have r: "- (2 ^ 63) \<le> sint ?h" "sint ?h < 2 ^ 63" using sint_ge [of ?h] sint_lt [of ?h] by auto
  have l: "0 \<le> uint l" "uint l < 2 ^ 64" using uint_bounded [of l] by auto
  have "- (2 ^ 63) * 2 ^ 64 \<le> sint ?h * 2 ^ 64" "sint ?h * 2 ^ 64 \<le> (2 ^ 63 - 1) * 2 ^ 64"
    by (rule mult_right_mono; use r in simp)+
  moreover define u where "u = uint l"
  ultimately have "- (2 ^ 128 div 2) \<le> sint ?h * 2 ^ 64 + u \<and> sint ?h * 2 ^ 64 + u < 2 ^ 128 div 2"
    using l unfolding u_def [symmetric] by simp
  then show "- (2 ^ 128 div 2) \<le> sint ?h * 2 ^ 64 + uint l" "sint ?h * 2 ^ 64 + uint l < 2 ^ 128 div 2"
    unfolding u_def by blast+
qed (use assms in auto)


lemma uint_extend:
  "uint (scast a :: 128 word) = sint a mod 2 ^ 128" "uint (ucast a :: 128 word) = uint a mod 2 ^ 128"
  "uint a = sint a mod 2 ^ 64" for a :: u64
proof -
  have "uint (scast a :: 128 word) = take_bit 128 (sint (scast a :: 128 word))" by (simp add: uint_sint)
  also have "sint (scast a :: 128 word) = sint a" by (rule sint_up_scast) (simp add: is_up)
  finally show "uint (scast a :: 128 word) = sint a mod 2 ^ 128" by (simp add: take_bit_eq_mod)
  show "uint (ucast a :: 128 word) = uint a mod 2 ^ 128" by (simp add: unsigned_ucast_eq take_bit_eq_mod)
  show "uint a = sint a mod 2 ^ 64" by (simp add: uint_sint take_bit_eq_mod)
qed

lemma uint_mul128: "uint (p * q) = uint p * uint q mod 2 ^ 128" for p q :: "128 word"
  by (simp add: uint_word_ariths)

lemma uint_mul64: "uint (a * b) = uint a * uint b mod 2 ^ 64" for a b :: u64
  by (simp add: uint_word_ariths)

lemma mul_values:
  "uint ((scast a :: 128 word) * scast b) = (sint a * sint b) mod 2 ^ 128"
  "uint ((scast a :: 128 word) * ucast b) = (sint a * uint b) mod 2 ^ 128"
  "uint ((ucast a :: 128 word) * ucast b) = (uint a * uint b) mod 2 ^ 128"
  for a b :: u64
  unfolding uint_mul128 uint_extend(1,2) by (rule mod_mult_eq)+

lemma mul_low:
  "uint (a * b) = (sint a * sint b) mod 2 ^ 64"
  "uint (a * b) = (sint a * uint b) mod 2 ^ 64"
  for a b :: u64
proof -
  show "uint (a * b) = (sint a * sint b) mod 2 ^ 64"
    unfolding uint_mul64 uint_extend(3) [of a] uint_extend(3) [of b] by (rule mod_mult_eq)
  show "uint (a * b) = (sint a * uint b) mod 2 ^ 64"
    unfolding uint_mul64 uint_extend(3) [of a] by (rule mod_mult_left_eq)
qed

lemma product_range:
  fixes a b :: u64
  shows "- (2 ^ 127) \<le> sint a * sint b \<and> sint a * sint b < 2 ^ 127"
    and "- (2 ^ 127) \<le> sint a * uint b \<and> sint a * uint b < 2 ^ 127"
    and "0 \<le> uint a * uint b \<and> uint a * uint b < 2 ^ 128"
proof -
  have s: "\<bar>sint x\<bar> \<le> 2 ^ 63" for x :: u64 using sint_ge [of x] sint_lt [of x] by auto
  have u: "0 \<le> uint x \<and> uint x \<le> 2 ^ 64 - 1" for x :: u64 using uint_bounded [of x] by auto
  have "\<bar>sint a * sint b\<bar> \<le> 2 ^ 63 * 2 ^ 63" unfolding abs_mult by (rule mult_mono) (use s in auto)
  then show "- (2 ^ 127) \<le> sint a * sint b \<and> sint a * sint b < 2 ^ 127" by auto
  have "\<bar>sint a * uint b\<bar> \<le> 2 ^ 63 * (2 ^ 64 - 1)" unfolding abs_mult by (rule mult_mono) (use s u in auto)
  then show "- (2 ^ 127) \<le> sint a * uint b \<and> sint a * uint b < 2 ^ 127" by auto
  have "uint a * uint b \<le> (2 ^ 64 - 1) * (2 ^ 64 - 1)" by (rule mult_mono) (use u in auto)
  then show "0 \<le> uint a * uint b \<and> uint a * uint b < 2 ^ 128" using u by auto
qed

text \<open>
  Together with the low product, MULH, MULHSU and MULHU give the exact product of the operands
  read as signed, as signed and unsigned, and as unsigned numbers.
\<close>

theorem mul_high_halves:
  "sint (mulh a b) * 2 ^ 64 + uint (a * b) = sint a * sint b \<and>
   sint (mulhsu a b) * 2 ^ 64 + uint (a * b) = sint a * uint b \<and>
   uint (mulhu a b) * 2 ^ 64 + uint (a * b) = uint a * uint b"
proof (intro conjI)
  show "sint (mulh a b) * 2 ^ 64 + uint (a * b) = sint a * sint b"
    using signed_high_low_product [OF mul_values(1) mul_low(1)] product_range(1)
    unfolding mulh_def high_half_def by blast
  show "sint (mulhsu a b) * 2 ^ 64 + uint (a * b) = sint a * uint b"
    using signed_high_low_product [OF mul_values(2) mul_low(2)] product_range(2)
    unfolding mulhsu_def high_half_def by blast
  show "uint (mulhu a b) * 2 ^ 64 + uint (a * b) = uint a * uint b"
    using high_low_product [OF mul_values(3) uint_mul64, of a b] product_range(3) [of a b]
    unfolding mulhu_def high_half_def by simp
qed

lemma div_rem_identity: "div_s a b * b + rem_s a b = a"
proof -
  define sa sb where "sa = sint a" and "sb = sint b"
  have w: "word_of_int sa = a" "word_of_int sb = b" by (simp_all add: sa_def sb_def)
  have "word_of_int (sa sdiv sb) * b + word_of_int (sa smod sb) = (word_of_int (sa sdiv sb * sb + sa smod sb) :: u64)"
    by (simp add: w)
  then have g: "word_of_int (sa sdiv sb) * b + word_of_int (sa smod sb) = a"
    by (simp only: sdiv_mult_smod_eq w)
  have z: "sb = 0 \<Longrightarrow> b = 0" using w(2) by simp
  have o: "sb = -1 \<Longrightarrow> b = -1" using w(2) by simp
  have m: "sa = - (2 ^ 63) \<Longrightarrow> a = - (2 ^ 63)" using w(1) by simp
  show ?thesis unfolding div_s_def rem_s_def Let_def sa_def [symmetric] sb_def [symmetric]
    using g z o m by auto
qed

lemma sint_of_int: "- (2 ^ 63) \<le> k \<Longrightarrow> k < 2 ^ 63 \<Longrightarrow> sint (word_of_int k :: u64) = k"
  by (simp add: signed_of_int signed_take_bit_int_eq_self)

lemma smod_bounds:
  fixes a b :: int
  assumes "b \<noteq> 0"
  shows "\<bar>a smod b\<bar> < \<bar>b\<bar>" "0 \<le> a * (a smod b)"
  using assms by (auto simp: smod_int_alt_def abs_mult sgn_if mult_nonpos_nonneg)

lemma rem_s_bound:
  assumes "b \<noteq> 0"
  shows "\<bar>sint (rem_s a b)\<bar> < \<bar>sint b\<bar> \<and> 0 \<le> sint a * sint (rem_s a b)"
proof -
  have b: "sint b \<noteq> 0"
  proof
    assume "sint b = 0"
    then have "word_of_int (sint b) = (0 :: u64)" by (simp only: of_int_0)
    then show False using assms by simp
  qed
  have "\<bar>sint b\<bar> \<le> 2 ^ 63" using sint_ge [of b] sint_lt [of b] by auto
  then have "sint (word_of_int (sint a smod sint b) :: u64) = sint a smod sint b"
    using smod_bounds(1) [OF b, of "sint a"] by (intro sint_of_int) linarith+
  then show ?thesis using smod_bounds [OF b, of "sint a"] b by (simp add: rem_s_def Let_def)
qed

text \<open>
  DIV and REM satisfy the division identity, the overflow case included; the remainder is smaller
  than the divisor and has the sign of the dividend; a zero divisor gives -1 and the dividend.
\<close>

theorem signed_division:
  assumes "b \<noteq> 0"
  shows "div_s a b * b + rem_s a b = a \<and> \<bar>sint (rem_s a b)\<bar> < \<bar>sint b\<bar> \<and> 0 \<le> sint a * sint (rem_s a b) \<and>
    div_s a 0 = - 1 \<and> rem_s a 0 = a"
  using rem_s_bound [OF assms] by (simp add: div_rem_identity) (simp add: div_s_def rem_s_def)

theorem signed_division_witness: "sint (rem_s (- 7) 2) = - 1 \<and> div_s (- 7) 2 * 2 + rem_s (- 7) 2 = - 7"
  using signed_division [of 2 "- 7"] by (simp add: rem_s_def smod_int_alt_def sgn_if)

lemma sext_idem: "sext (sext v 32) 32 = sext v 32"
  by (auto simp: u64_eq_iff bit_sext min_def)

text \<open>
  Every 32-bit arithmetic instruction leaves a sign-extended 32-bit value in the register.
\<close>

theorem word_results_sign_extended:
  assumes "op_reg_32 i a b = Some r \<or> op_imm_32 i a = Some r"
  shows "sext r 32 = r"
  using assms
  by (auto simp: op_reg_32_def op_imm_32_def divw_def remw_def Let_def sext_idem split: if_splits)
    (simp_all add: sext_def)
theorem word_results_sign_extended_witness:
  "op_reg_32 0x0000003b 0x7fffffff 1 = Some 0xffffffff80000000 \<and> sext 0xffffffff80000000 32 = 0xffffffff80000000"
proof -
  have r: "op_reg_32 0x0000003b 0x7fffffff 1 = Some 0xffffffff80000000"
    by (simp add: op_reg_32_def f3_def f7_def sext_def Let_def)
  show ?thesis using r word_results_sign_extended [OF disjI1 [OF r]] by blast
qed

end
