(* ===== verification/ExecC.thy ===== *)
theory ExecC
  imports Exec
begin

text \<open>
  The compressed instructions (\<open>riscv_exec_c\<close> of
  src/src/cpu/isa/riscv64/exec.c), one definition per quadrant, with the
  immediates written as in the source.
\<close>

section \<open>Fields\<close>

definition cbits :: "u16 \<Rightarrow> nat \<Rightarrow> u16 \<Rightarrow> u16" where
  "cbits i k m = drop_bit k i AND m"

definition c_f3 :: "u16 \<Rightarrow> nat" where "c_f3 i = unat (cbits i 13 7)"
definition c_rdq :: "u16 \<Rightarrow> nat" where "c_rdq i = 8 + unat (cbits i 2 7)"
definition c_rs1q :: "u16 \<Rightarrow> nat" where "c_rs1q i = 8 + unat (cbits i 7 7)"
definition c_rd :: "u16 \<Rightarrow> nat" where "c_rd i = unat (cbits i 7 31)"
definition c_rs2 :: "u16 \<Rightarrow> nat" where "c_rs2 i = unat (cbits i 2 31)"

definition cimm_addi4spn :: "u16 \<Rightarrow> u64" where
  "cimm_addi4spn i = ucast (push_bit 4 (cbits i 11 3) OR push_bit 6 (cbits i 7 15) OR
     push_bit 2 (cbits i 6 1) OR push_bit 3 (cbits i 5 1))"

definition cimm_d :: "u16 \<Rightarrow> u64" where
  "cimm_d i = ucast (push_bit 3 (cbits i 10 7) OR push_bit 6 (cbits i 5 3))"

definition cimm_w :: "u16 \<Rightarrow> u64" where
  "cimm_w i = ucast (push_bit 3 (cbits i 10 7) OR push_bit 2 (cbits i 6 1) OR push_bit 6 (cbits i 5 1))"

definition cimm_6 :: "u16 \<Rightarrow> u64" where
  "cimm_6 i = sext (ucast (push_bit 5 (cbits i 12 1) OR cbits i 2 31)) 6"

definition c_shamt :: "u16 \<Rightarrow> nat" where
  "c_shamt i = unat (push_bit 5 (cbits i 12 1) OR cbits i 2 31)"

definition cimm_addi16sp :: "u16 \<Rightarrow> u64" where
  "cimm_addi16sp i = sext (ucast (push_bit 9 (cbits i 12 1) OR push_bit 4 (cbits i 6 1) OR
     push_bit 6 (cbits i 5 1) OR push_bit 7 (cbits i 3 3) OR push_bit 5 (cbits i 2 1))) 10"

definition cimm_lui :: "u16 \<Rightarrow> u64" where
  "cimm_lui i = sext (push_bit 17 (ucast (cbits i 12 1)) OR push_bit 12 (ucast (cbits i 2 31))) 18"

definition cimm_j :: "u16 \<Rightarrow> u64" where
  "cimm_j i = sext (ucast (push_bit 11 (cbits i 12 1) OR push_bit 4 (cbits i 11 1) OR
     push_bit 8 (cbits i 9 3) OR push_bit 10 (cbits i 8 1) OR push_bit 6 (cbits i 7 1) OR
     push_bit 7 (cbits i 6 1) OR push_bit 1 (cbits i 3 7) OR push_bit 5 (cbits i 2 1))) 12"

definition cimm_b :: "u16 \<Rightarrow> u64" where
  "cimm_b i = sext (ucast (push_bit 8 (cbits i 12 1) OR push_bit 3 (cbits i 10 3) OR
     push_bit 6 (cbits i 5 3) OR push_bit 1 (cbits i 3 3) OR push_bit 5 (cbits i 2 1))) 9"

definition cimm_ldsp :: "u16 \<Rightarrow> u64" where
  "cimm_ldsp i = ucast (push_bit 5 (cbits i 12 1) OR push_bit 3 (cbits i 5 3) OR
     push_bit 6 (cbits i 2 7))"

definition cimm_lwsp :: "u16 \<Rightarrow> u64" where
  "cimm_lwsp i = ucast (push_bit 5 (cbits i 12 1) OR push_bit 2 (cbits i 4 7) OR
     push_bit 6 (cbits i 2 3))"

definition cimm_sdsp :: "u16 \<Rightarrow> u64" where
  "cimm_sdsp i = ucast (push_bit 3 (cbits i 10 7) OR push_bit 6 (cbits i 7 7))"

definition cimm_swsp :: "u16 \<Rightarrow> u64" where
  "cimm_swsp i = ucast (push_bit 2 (cbits i 9 15) OR push_bit 6 (cbits i 7 3))"

section \<open>The quadrants\<close>

definition mod_x :: "nat \<Rightarrow> (u64 \<Rightarrow> u64) \<Rightarrow> ('d, unit) hprog" where
  "mod_x r g = andthen (get_x r) (\<lambda>v. set_x r (g v))"

definition exec_c0 :: "('d, 'l) env \<Rightarrow> u16 \<Rightarrow> ('d, unit) hprog" where
  "exec_c0 E i =
     (let f3v = c_f3 i; tval = ucast i in
      andthen (get_x (c_rs1q i)) (\<lambda>x1.
      andthen (get_x 2) (\<lambda>sp.
      if f3v = 0 then
        (if cimm_addi4spn i = 0 then illegal tval else set_x (c_rdq i) (sp + cimm_addi4spn i))
      else if f3v = 1 then
        andthen (fp_enter tval) (\<lambda>_.
        andthen (riscv_mem_load E (x1 + cimm_d i) 8 acc_read) (set_f (c_rdq i)))
      else if f3v = 2 then andthen (load E (x1 + cimm_w i) 4 True) (set_x (c_rdq i))
      else if f3v = 3 then andthen (load E (x1 + cimm_d i) 8 False) (set_x (c_rdq i))
      else if f3v = 5 then
        andthen (fp_enter tval) (\<lambda>_.
        andthen (get_f (c_rdq i)) (riscv_mem_store E (x1 + cimm_d i) 8))
      else if f3v = 6 then andthen (get_x (c_rdq i)) (riscv_mem_store E (x1 + cimm_w i) 4)
      else if f3v = 7 then andthen (get_x (c_rdq i)) (riscv_mem_store E (x1 + cimm_d i) 8)
      else illegal tval)))"

definition exec_c1_alu :: "u16 \<Rightarrow> ('d, unit) hprog" where
  "exec_c1_alu i =
     (let sub = unat (cbits i 10 3); rdq = c_rs1q i; rs2q = c_rdq i; kind = unat (cbits i 5 3) in
      if sub = 0 \<or> sub = 1 then
        (if rdq = 0 \<or> c_shamt i = 0 then ret ()
         else mod_x rdq (if sub = 0 then drop_bit (c_shamt i) else signed_drop_bit (c_shamt i)))
      else if sub = 2 then (if rdq = 0 then ret () else mod_x rdq (\<lambda>v. v AND cimm_6 i))
      else andthen (get_x rs2q) (\<lambda>x2.
        if rdq = 0 \<or> rs2q = 0 then ret ()
        else if cbits i 12 1 \<noteq> 0 then
          (if 1 < kind then illegal (ucast i)
           else mod_x rdq (\<lambda>v. if kind = 0 then sext (ucast (ucast (v - x2) :: u32)) 32
                               else sext (ucast (ucast (v + x2) :: u32)) 32))
        else mod_x rdq (\<lambda>v. if kind = 0 then v - x2 else if kind = 1 then v XOR x2
               else if kind = 2 then v OR x2 else v AND x2)))"

definition exec_c1 :: "u16 \<Rightarrow> u64 \<Rightarrow> ('d, u64) hprog" where
  "exec_c1 i p =
     (let f3v = c_f3 i; rdd = c_rd i; tval = ucast i; done = ret (p + 2) in
      if f3v = 0 then
        andthen (if rdd \<noteq> 0 then mod_x rdd (\<lambda>v. v + cimm_6 i) else ret ()) (\<lambda>_. done)
      else if f3v = 1 then
        (if rdd = 0 then illegal tval
         else andthen (mod_x rdd (\<lambda>v. sext (ucast ((ucast v :: u32) + ucast (cimm_6 i))) 32))
           (\<lambda>_. done))
      else if f3v = 2 then andthen (set_x rdd (cimm_6 i)) (\<lambda>_. done)
      else if f3v = 3 then
        andthen (if rdd = 2 then mod_x 2 (\<lambda>v. v + cimm_addi16sp i)
                 else if rdd \<noteq> 0 then (if cimm_lui i \<noteq> 0 then set_x rdd (cimm_lui i) else ret ())
                 else ret ()) (\<lambda>_. done)
      else if f3v = 4 then andthen (exec_c1_alu i) (\<lambda>_. done)
      else if f3v = 5 then ret (p + cimm_j i)
      else andthen (get_x (c_rs1q i)) (\<lambda>x1.
        if (if f3v = 6 then x1 = 0 else x1 \<noteq> 0) then ret (p + cimm_b i) else done))"

definition exec_c2_jr :: "u16 \<Rightarrow> u64 \<Rightarrow> ('d, u64) hprog" where
  "exec_c2_jr i p =
     (let rdd = c_rd i; rs2v = c_rs2 i; tval = ucast i; done = ret (p + 2) in
      if cbits i 12 1 = 0 then
        (if rs2v = 0 then
           (if rdd = 0 then illegal tval else andthen (get_x rdd) (\<lambda>v. ret (v AND NOT 1)))
         else if rdd \<noteq> 0 then andthen (get_x rs2v) (\<lambda>v. andthen (set_x rdd v) (\<lambda>_. done))
         else done)
      else if rs2v = 0 then
        (if rdd = 0 then raise_trap kExBreakpoint p
         else andthen (get_x rdd) (\<lambda>v. andthen (set_x 1 (p + 2)) (\<lambda>_. ret (v AND NOT 1))))
      else if rdd \<noteq> 0 then
        andthen (get_x rs2v) (\<lambda>x2. andthen (mod_x rdd (\<lambda>v. v + x2)) (\<lambda>_. done))
      else done)"

definition exec_c2 :: "('d, 'l) env \<Rightarrow> u16 \<Rightarrow> u64 \<Rightarrow> ('d, u64) hprog" where
  "exec_c2 E i p =
     (let f3v = c_f3 i; rdd = c_rd i; rs2v = c_rs2 i; tval = ucast i; done = (\<lambda>_. ret (p + 2)) in
      andthen (get_x 2) (\<lambda>sp.
      if f3v = 0 then
        andthen (if rdd = 0 \<or> c_shamt i = 0 then ret () else mod_x rdd (push_bit (c_shamt i))) done
      else if f3v = 1 then
        andthen (if rdd \<noteq> 0
                 then andthen (riscv_mem_load E (sp + cimm_ldsp i) 8 acc_read) (set_f rdd)
                 else ret ()) done
      else if f3v = 2 then
        (if rdd = 0 then illegal tval
         else andthen (andthen (load E (sp + cimm_lwsp i) 4 True) (set_x rdd)) done)
      else if f3v = 3 then
        (if rdd = 0 then illegal tval
         else andthen (andthen (load E (sp + cimm_ldsp i) 8 False) (set_x rdd)) done)
      else if f3v = 4 then exec_c2_jr i p
      else if f3v = 5 then
        andthen (if rs2v \<noteq> 0
                 then andthen (get_f rs2v) (riscv_mem_store E (sp + cimm_sdsp i) 8)
                 else ret ()) done
      else if f3v = 6 then
        andthen (andthen (get_x rs2v) (riscv_mem_store E (sp + cimm_swsp i) 4)) done
      else
        andthen (andthen (get_x rs2v) (riscv_mem_store E (sp + cimm_sdsp i) 8)) done))"

definition riscv_exec_c :: "('d, 'l) env \<Rightarrow> u16 \<Rightarrow> ('d, u64) hprog" where
  "riscv_exec_c E i = andthen get_pc (\<lambda>p.
     let quad = unat (i AND 3) in
     if quad = 0 then andthen (exec_c0 E i) (\<lambda>_. ret (p + 2))
     else if quad = 1 then exec_c1 i p
     else exec_c2 E i p)"

section \<open>Compressed execution keeps the invariant\<close>

lemma even_cimm: "even (cimm_j i)" "even (cimm_b i)"
proof -
  have "\<not> bit (cimm_j i) 0" "\<not> bit (cimm_b i) 0"
    unfolding cimm_j_def cimm_b_def cbits_def by (simp_all add: bit_sext bit_simps del: bit_0)
  then show "even (cimm_j i)" "even (cimm_b i)" by (simp_all add: bit_0)
qed

context devices
begin

lemma keeps_mod_x [keep_intros]: "keeps (hart_inv D) (mod_x r g)"
  unfolding mod_x_def by (intro keep_intros)

lemma keeps_exec_c0 [keep_intros]: "keeps (hart_inv D) (exec_c0 E i)"
  unfolding exec_c0_def Let_def by (intro keep_intros)

lemma keeps_exec_c1_alu [keep_intros]: "keeps (hart_inv D) (exec_c1_alu i)"
  unfolding exec_c1_alu_def Let_def by (intro keep_intros)

lemma yields_exec_c1: "even_pc p \<Longrightarrow> yields (hart_inv D) even_pc (exec_c1 i p)"
  unfolding exec_c1_def Let_def illegal_def
  by (intro yield_intros keep_intros) (simp_all add: even_cimm bit_0)

lemma yields_exec_c2_jr: "even_pc p \<Longrightarrow> yields (hart_inv D) even_pc (exec_c2_jr i p)"
  unfolding exec_c2_jr_def Let_def illegal_def
  by (intro yield_intros keep_intros) (simp_all add: even_and_iff bit_0)

lemma yields_exec_c2: "even_pc p \<Longrightarrow> yields (hart_inv D) even_pc (exec_c2 E i p)"
  unfolding exec_c2_def Let_def illegal_def
  by (intro yield_intros yields_exec_c2_jr keep_intros) (simp_all add: bit_0)

lemma yields_exec_c: "yields (hart_inv D) even_pc (riscv_exec_c E i)"
  unfolding riscv_exec_c_def Let_def
  by (rule yields_andthen [OF yields_get_pc],
      intro yields_if yields_andthen_keeps yields_ret yields_exec_c1 yields_exec_c2 keep_intros)
    (simp_all add: bit_0)

end

end
