(* ===== verification/Step.thy ===== *)
theory Step
  imports ExecC
begin

text \<open>
  The step protocol (src/src/cpu/isa/riscv64/step.c): timer sampling, sleep,
  interrupt delivery, fetch, execution, the landing pad of a raise, and the
  counters.  The record kept for the debug hub is left out.
\<close>

section \<open>One step\<close>

definition GdbTrapSignal :: "u64 \<Rightarrow> u8" where
  "GdbTrapSignal cause =
     (if cause = kExIllegal then 4
      else if cause = kExBreakpoint \<or> cause = kExUserEcall \<or> cause = kExSupervisorEcall \<or>
              cause = kExMachineEcall then 5
      else 11)"

abbreviation (input) kStepBatch :: u64 where "kStepBatch \<equiv> 0x400"

text \<open>The fetched instruction: a compressed or a full one.\<close>

datatype fetched = Half u16 | Word32 u32

definition fetch :: "('d, 'l) env \<Rightarrow> ('d, fetched) hprog" where
  "fetch E = andthen get_pc (\<lambda>p. andthen get_rs (\<lambda>s.
     let c_on = drop_bit 2 (misa s) AND 1 \<noteq> 0 in
     if p AND 1 \<noteq> 0 then raise_trap kExFetchMisaligned p
     else if \<not> c_on \<and> p mod 4 \<noteq> 0 then raise_trap kExFetchMisaligned p
     else if c_on \<and> p AND 3 = 0 then
       andthen (riscv_mem_load E p 4 acc_ifetch) (\<lambda>v.
         let inst = (ucast v :: u32) in
         ret (if inst AND 3 \<noteq> 3 then Half (ucast (inst AND 0xffff)) else Word32 inst))
     else
       andthen (riscv_mem_load E p 2 acc_ifetch) (\<lambda>v.
         let half = (ucast v :: u16) in
         if c_on \<and> half AND 3 \<noteq> 3 then ret (Half half)
         else andthen (riscv_mem_load E (p + 2) 2 acc_ifetch) (\<lambda>w.
           let high = (ucast w :: u16) in
           ret (Word32 (ucast half OR push_bit 16 (ucast high)))))))"

definition execute :: "('d, 'l) env \<Rightarrow> fetched \<Rightarrow> ('d, u64) hprog" where
  "execute E w = (case w of Half i \<Rightarrow> riscv_exec_c E i | Word32 i \<Rightarrow> riscv_exec_inst E i)"

text \<open>The body under the landing pad, up to the one commit of the program counter.\<close>

definition step_body :: "('d, 'l) env \<Rightarrow> ('d, unit) hprog" where
  "step_body E =
     andthen (fetch E) (\<lambda>w.
     andthen get_pc (\<lambda>p.
     andthen (RiscvTriggerCheck kTrigOpExecute p) (\<lambda>_.
     andthen (set_x 0 0) (\<lambda>_.
     andthen (execute E w) (\<lambda>npc.
     set_cpu (\<lambda>c. c\<lparr>pc := npc\<rparr>))))))"

definition take_trap :: "trap_rec \<Rightarrow> 'd hart \<Rightarrow> 'd hart" where
  "take_trap t h =
     (let (vec, s) = riscv_trap (pc (cpu h)) (t_cause t) (t_tval t) (rs h) in
      h\<lparr>cpu := (cpu h)\<lparr>pc := vec\<rparr>,
        rs := s\<lparr>trap_seq := trap_seq s + 1, trap_signal := GdbTrapSignal (t_cause t)\<rparr>\<rparr>)"

definition count :: "RiscvState \<Rightarrow> RiscvState" where
  "count s =
     s\<lparr>minstret := (if mcountinhibit s AND kMcountinhibitIr = 0 \<and> counter_written s \<noteq> kCounterMinstret
                    then minstret s + 1 else minstret s),
       mcycle := (if mcountinhibit s AND kMcountinhibitCy = 0 \<and> counter_written s \<noteq> kCounterMcycle
                  then mcycle s + 1 else mcycle s),
       counter_written := kCounterNone\<rparr>"

definition step_boundary :: "'d hart \<Rightarrow> bool" where
  "step_boundary h \<longleftrightarrow> wait (cpu h) \<or> inst_count (cpu h) AND (kStepBatch - 1) = 0"

text \<open>
  The part before the landing pad: \<open>False\<close> in the second component is the
  early return of a sleeping or halted processor.
\<close>

definition step_enter :: "('d, 'l) env \<Rightarrow> 'd hart \<Rightarrow> 'd hart \<times> bool" where
  "step_enter E h =
     (let boundary = step_boundary h; h1 = (if boundary then riscv_sync_timer E h else h) in
      if wait (cpu h1) \<and> MipAll (rs h1) AND mie (rs h1) = 0 then (h1, False)
      else let h2 = upd_cpu (\<lambda>c. c\<lparr>wait := False\<rparr>) h1 in
        if boundary then (let h3 = riscv_deliver_interrupt h2 in (h3, \<not> halted (cpu h3)))
        else (h2, True))"

definition riscv_step :: "('d, 'l) env \<Rightarrow> ('d, unit) hprog" where
  "riscv_step E h =
     (case step_enter E h of
        (h1, False) \<Rightarrow> Ok () h1
      | (h1, True) \<Rightarrow> (case step_body E h1 of
            Ok _ h2 \<Rightarrow> Ok () (upd_rs count h2)
          | Raise t h2 \<Rightarrow> Ok () (upd_rs count (take_trap t h2))
          | Fatal \<Rightarrow> Fatal
          | Undef \<Rightarrow> Undef))"

section \<open>A step keeps the invariant\<close>

lemma rs_ok_count [simp]: "rs_ok s \<Longrightarrow> rs_ok (count s)"
  by (simp add: count_def rs_ok_def)

context devices
begin

lemma keeps_fetch [keep_intros]: "keeps (hart_inv D) (fetch E)"
  unfolding fetch_def Let_def by (intro keep_intros)

lemma yields_execute: "yields (hart_inv D) even_pc (execute E w)"
  by (cases w) (simp_all add: execute_def yields_exec_c yields_exec_inst)

lemma keeps_commit: "even_pc npc \<Longrightarrow> keeps (hart_inv D) (set_cpu (\<lambda>c. c\<lparr>pc := npc\<rparr>))"
  unfolding set_cpu_def by (rule keeps_updates) (simp add: hart_inv_def hart_ok_def)

lemma keeps_step_body: "keeps (hart_inv D) (step_body E)"
proof -
  have "yields (hart_inv D) (\<lambda>_. True) (andthen (execute E w) (\<lambda>npc. set_cpu (\<lambda>c. c\<lparr>pc := npc\<rparr>)))" for w
    by (rule yields_andthen [OF yields_execute]) (simp add: yields_def keeps_commit)
  then have c: "keeps (hart_inv D) (andthen (execute E w) (\<lambda>npc. set_cpu (\<lambda>c. c\<lparr>pc := npc\<rparr>)))" for w
    by (rule yields_keeps)
  show ?thesis unfolding step_body_def by (rule c | rule keep_intros)+
qed

lemma inv_take_trap: "hart_inv D h \<Longrightarrow> hart_inv D (take_trap t h)"
  using rs_ok_trap [of "rs h" "pc (cpu h)" "t_cause t" "t_tval t"]
    riscv_trap_vector [of "pc (cpu h)" "t_cause t" "t_tval t" "rs h"]
  by (simp add: take_trap_def hart_inv_def hart_ok_def case_prod_unfold Let_def)

lemma inv_sync_timer: "hart_inv D h \<Longrightarrow> hart_inv D (riscv_sync_timer E h)"
  by (simp add: riscv_sync_timer_def hart_inv_def hart_ok_def riscv_set_ext_irq_def split: option.splits)

lemma inv_deliver: "hart_inv D h \<Longrightarrow> hart_inv D (riscv_deliver_interrupt h)"
  unfolding hart_inv_def hart_ok_def by (metis rs_ok_deliver bus_deliver)

lemma inv_wait [simp]: "hart_inv D (upd_cpu (\<lambda>c. c\<lparr>wait := b\<rparr>) h) = hart_inv D h"
  by (simp add: hart_inv_def hart_ok_def)

lemma inv_step_enter: "hart_inv D h \<Longrightarrow> hart_inv D (fst (step_enter E h))"
  unfolding step_enter_def Let_def
  by (simp add: inv_sync_timer inv_deliver)

lemma keeps_riscv_step: "keeps (hart_inv D) (riscv_step E)"
proof (unfold keeps_def, intro allI impI)
  fix h :: "'d hart"
  assume "hart_inv D h"
  moreover obtain h1 go where e: "step_enter E h = (h1, go)" by (cases "step_enter E h")
  ultimately have h1: "hart_inv D h1" using inv_step_enter [of h] by simp
  note ok = keepsD [OF keeps_step_body h1] keepsD_raise [OF keeps_step_body h1]
  have c: "hart_inv D g \<Longrightarrow> hart_inv D (upd_rs count g)" for g :: "'d hart" by (simp add: hart_inv_def hart_ok_def)
  show "case riscv_step E h of Ok a s' \<Rightarrow> hart_inv D s' | Raise t s' \<Rightarrow> hart_inv D s' | Fatal \<Rightarrow> True | Undef \<Rightarrow> True"
    by (cases go; cases "step_body E h1")
      (simp_all add: riscv_step_def e h1 c inv_take_trap ok [simplified])
qed

end

text \<open>Any devices keep the invariant that says nothing of them.\<close>

interpretation any: devices E "\<lambda>_. True" for E
  by unfold_locales

section \<open>A processor after reset with nothing on its bus\<close>

definition hart0 :: "unit hart" where
  "hart0 = \<lparr>cpu = \<lparr>gpr = (\<lambda>_. 0), fpr = (\<lambda>_. 0), pc = 0x1000, image_base = 0, halted = False, wait = False,
      exit_code = 0, inst_count = 0\<rparr>, rs = riscv_init, bus = empty_bus, devs = ()\<rparr>"

lemma hart0_simps [simp]: "rs hart0 = riscv_init" "bus hart0 = empty_bus" "pc (cpu hart0) = 0x1000"
  "wait (cpu hart0) = False" "halted (cpu hart0) = False" "inst_count (cpu hart0) = 0"
  by (simp_all add: hart0_def)

lemma hart_ok_hart0: "hart_ok hart0"
  by (simp add: hart_ok_def rs_ok_init bus_ok_empty)

lemma step_enter_hart0: "step_enter E hart0 = (hart0, True)"
  by (simp add: step_enter_def step_boundary_def riscv_sync_timer_def MipAll_def riscv_deliver_find
    irq_order_def irq_ready_def upd_cpu_def split: option.splits)

lemma hart0_bus: "hart0\<lparr>bus := empty_bus\<rparr> = hart0"
  by (simp add: hart0_def)

lemma step_body_hart0: "step_body E hart0 = Raise \<lparr>t_cause = kExFetchFault, t_tval = 0x1000, t_paddr = Some 0x1000\<rparr> hart0"
proof -
  have m: "riscv_mem_load E 0x1000 4 acc_ifetch hart0 = Raise \<lparr>t_cause = kExFetchFault, t_tval = 0x1000, t_paddr = Some 0x1000\<rparr> hart0"
    by (simp add: riscv_mem_load_def andthen_def ret_def RiscvTranslate_def hprog_defs reads_def eff_priv_def satp_mode_def
     pmp_off ram_page_def ram_page_empty slow_load_def bus_probe_def BusProbe_def raise_paddr_def fault_cause_def find_empty hart0_bus)
  show ?thesis by (simp add: step_body_def fetch_def andthen_def hprog_defs reads_def Let_def m)
qed

end
