(* ===== verification/Virt.thy ===== *)
theory Virt
  imports Clint Plic Uart Finisher VirtioDev Clock Ramfb32 Fdt Step
begin

text \<open>
  The virt board (src/src/board/virt.c): the state of its devices, the wiring
  of their lines through the interrupt controller to the processor, the host
  events, the poll, the dispatch of bus accesses and the construction of the
  board.  The theory instantiates the environment of the processor model with
  these definitions, so that its theorems apply to the board.

  An operations table of the source is a number in a bus window: 0 RAM, 1 the
  timer, 2 the interrupt controller, 3 the serial port, 4 the finisher, 5 a
  virtio slot, 6 an empty slot.  A sink that a device calls while it works
  only changes the interrupt controller and the interrupt inputs of the
  processor, which no device reads, so the calls are applied when the
  operation is over.
\<close>

unbundle bit_operations_syntax

section \<open>State\<close>

text \<open>Host block 0 is the DRAM, block 1 the mask ROM.\<close>

record 'f VirtBoard =
  vb_clock :: HostClock
  vb_mem :: hmem
  vb_ram_size :: u64
  vb_clint :: ClintDevice
  vb_plic :: PlicDevice
  vb_uart :: Uart16550
  vb_blk :: "'f VirtioBlk option"
  vb_con :: VirtioConsole
  vb_kbd :: VirtioInput
  vb_tablet :: VirtioInput
  vb_fb :: Ramfb32Device
  vb_px :: int
  vb_py :: int
  vb_out :: "u8 list"

definition now_us :: "'f VirtBoard \<Rightarrow> int" where
  "now_us vm = HostTimerNow (vb_clock vm)"

definition dram :: "'f VirtBoard \<Rightarrow> RamDevice" where
  "dram vm = \<lparr>ram_mem = vb_mem vm 0, ram_base = 0x80000000, ram_size = vb_ram_size vm\<rparr>"

definition mrom :: "'f VirtBoard \<Rightarrow> RamDevice" where
  "mrom vm = \<lparr>ram_mem = vb_mem vm 1, ram_base = 0x1000, ram_size = 0x1000\<rparr>"

section \<open>Wiring\<close>

definition OnClintIrq :: "line_call list \<Rightarrow> cpu_event list" where
  "OnClintIrq cs = map (\<lambda>(line, level). SetIrq (if line = 0 then kIrqMsip else kIrqMtip) level) cs"

definition OnPlicIrq :: "line_call list \<Rightarrow> cpu_event list" where
  "OnPlicIrq cs = map (\<lambda>(line, level). SetIrq (if line = 0 then kIrqMeip else kIrqSeip) level) cs"

text \<open>One call of a device line into the interrupt controller.\<close>

definition OnVirtioIrq :: "int \<times> bool \<Rightarrow> 'f VirtBoard \<times> cpu_event list \<Rightarrow> 'f VirtBoard \<times> cpu_event list" where
  "OnVirtioIrq = (\<lambda>(src, level) (vm, es). case PlicDeviceIrq (vb_plic vm) src level of
     (p, cs) \<Rightarrow> (vm\<lparr>vb_plic := p\<rparr>, es @ OnPlicIrq cs))"

definition OnUartIrq :: "int \<times> bool \<Rightarrow> 'f VirtBoard \<times> cpu_event list \<Rightarrow> 'f VirtBoard \<times> cpu_event list" where
  "OnUartIrq = (\<lambda>(_, level). OnVirtioIrq (10, level))"

definition ReadTime :: "'f VirtBoard \<Rightarrow> u64" where
  "ReadTime vm = ClintMtime (of_int (now_us vm)) (vb_clint vm)"

section \<open>Operations of a device in the board\<close>

definition uart_done :: "Uart16550 \<Rightarrow> line_call list \<Rightarrow> 'f VirtBoard \<Rightarrow> 'f VirtBoard \<times> cpu_event list" where
  "uart_done u cs vm = fold OnUartIrq cs (vm\<lparr>vb_uart := u\<rparr>, [])"

text \<open>A virtio operation works on the memory of the board; \<open>None\<close> is one that never returns.\<close>

definition virtio_done ::
  "('v \<Rightarrow> 'f VirtBoard \<Rightarrow> 'f VirtBoard) \<Rightarrow> 'v world \<Rightarrow> 'f VirtBoard \<Rightarrow> 'f VirtBoard \<times> cpu_event list" where
  "virtio_done upd w vm =
     fold OnVirtioIrq (w_calls w) (upd (w_dev w) (vm\<lparr>vb_mem := w_mem w, vb_out := vb_out vm @ w_out w\<rparr>), [])"

definition virtio_world :: "'v \<Rightarrow> 'f VirtBoard \<Rightarrow> 'v world" where
  "virtio_world v vm = \<lparr>w_mem = vb_mem vm, w_dev = v, w_calls = [], w_out = []\<rparr>"

definition set_blk :: "'f VirtioBlk \<Rightarrow> 'f VirtBoard \<Rightarrow> 'f VirtBoard" where
  "set_blk v vm = vm\<lparr>vb_blk := Some v\<rparr>"

definition set_con :: "VirtioConsole \<Rightarrow> 'f VirtBoard \<Rightarrow> 'f VirtBoard" where
  "set_con v vm = vm\<lparr>vb_con := v\<rparr>"

definition set_kbd :: "VirtioInput \<Rightarrow> 'f VirtBoard \<Rightarrow> 'f VirtBoard" where
  "set_kbd v vm = vm\<lparr>vb_kbd := v\<rparr>"

definition set_tablet :: "VirtioInput \<Rightarrow> 'f VirtBoard \<Rightarrow> 'f VirtBoard" where
  "set_tablet v vm = vm\<lparr>vb_tablet := v\<rparr>"

section \<open>Host events\<close>

definition kKeys :: "(u32 \<times> u16) list" where
  "kKeys = map (\<lambda>i. (of_nat i, of_nat i)) ([1..<0x45] @ [0x47..<0x54] @ [0x57, 0x58, 0x45, 0x46])"

definition kKeysExt :: "(u32 \<times> u16) list" where
  "kKeysExt = [(0x1c, 96), (0x1d, 97), (0x35, 98), (0x38, 100), (0x47, 102), (0x48, 103), (0x49, 104), (0x4b, 105),
     (0x4d, 106), (0x4f, 107), (0x50, 108), (0x51, 109), (0x52, 110), (0x53, 111), (0x5b, 125), (0x5c, 126), (0x5d, 127)]"

definition OnHostKey :: "u32 \<Rightarrow> bool \<Rightarrow> bool \<Rightarrow> 'f VirtBoard \<Rightarrow> 'f VirtBoard" where
  "OnHostKey scan extended up vm =
     (case map_of (if extended then kKeysExt else kKeys) scan of
        None \<Rightarrow> vm
      | Some key \<Rightarrow> set_kbd (VirtioInputKey key (\<not> up) (vb_kbd vm)) vm)"

definition tablet_button :: "u32 \<Rightarrow> nat \<Rightarrow> VirtioInput \<Rightarrow> VirtioInput" where
  "tablet_button buttons k v =
     (if bit buttons k \<noteq> bit (in_buttons v) k then VirtioInputButton (int k) (bit buttons k) v else v)"

definition TabletSend :: "int \<Rightarrow> u32 \<Rightarrow> 'f VirtBoard \<Rightarrow> 'f VirtBoard" where
  "TabletSend dz buttons vm =
     (let t1 = VirtioInputPointer (vb_px vm) (vb_py vm) (vb_tablet vm);
          t2 = (if dz \<noteq> 0 then VirtioInputWheel (if 0 < dz then 1 else - 1) t1 else t1) in
      set_tablet (fold (tablet_button buttons) [0, 1, 2] t2) vm)"

definition clamp_px :: "int \<Rightarrow> int" where
  "clamp_px x = (let x1 = (if x < 0 then 0 else x) in if 0x8000 \<le> x1 then 0x7fff else x1)"

definition OnHostMouse :: "int \<Rightarrow> int \<Rightarrow> int \<Rightarrow> u32 \<Rightarrow> 'f VirtBoard \<Rightarrow> 'f VirtBoard" where
  "OnHostMouse dx dy dz buttons vm =
     TabletSend dz buttons (vm\<lparr>vb_px := clamp_px (vb_px vm + (dx * 0x8000) sdiv 1024),
       vb_py := clamp_px (vb_py vm - (dy * 0x8000) sdiv 768)\<rparr>)"

definition OnHostMouseAbs :: "int \<Rightarrow> int \<Rightarrow> int \<Rightarrow> u32 \<Rightarrow> 'f VirtBoard \<Rightarrow> 'f VirtBoard" where
  "OnHostMouseAbs x y dz buttons vm =
     TabletSend dz buttons (vm\<lparr>vb_px := (x * 0x7fff) sdiv 1023, vb_py := (y * 0x7fff) sdiv 767\<rparr>)"

definition OnHostSerial :: "u8 \<Rightarrow> 'f VirtBoard \<Rightarrow> 'f VirtBoard \<times> cpu_event list" where
  "OnHostSerial ch vm =
     (case Uart16550Receive (now_us vm) (vb_uart vm) ch of (u, cs) \<Rightarrow>
        (case uart_done u cs vm of (vm1, es) \<Rightarrow> (set_con (VirtioConsoleReceive ch (vb_con vm1)) vm1, es)))"

section \<open>Poll\<close>

definition poll_con :: "Bus \<Rightarrow> 'f VirtBoard \<Rightarrow> ('f VirtBoard \<times> cpu_event list) option" where
  "poll_con b vm = map_option (\<lambda>w. virtio_done set_con w vm)
     (VirtioConsolePoll (now_us vm) b (virtio_world (vb_con vm) vm))"

definition poll_kbd :: "Bus \<Rightarrow> 'f VirtBoard \<Rightarrow> ('f VirtBoard \<times> cpu_event list) option" where
  "poll_kbd b vm = map_option (\<lambda>w. virtio_done set_kbd w vm) (VirtioInputPoll b (virtio_world (vb_kbd vm) vm))"

definition poll_tablet :: "Bus \<Rightarrow> 'f VirtBoard \<Rightarrow> ('f VirtBoard \<times> cpu_event list) option" where
  "poll_tablet b vm = map_option (\<lambda>w. virtio_done set_tablet w vm) (VirtioInputPoll b (virtio_world (vb_tablet vm) vm))"

definition poll_uart :: "'f VirtBoard \<Rightarrow> 'f VirtBoard \<times> cpu_event list" where
  "poll_uart vm = (case Uart16550Poll (now_us vm) (vb_uart vm) of (u, cs) \<Rightarrow> uart_done u cs vm)"

definition VirtPoll :: "Bus \<Rightarrow> 'f VirtBoard \<Rightarrow> ('f VirtBoard \<times> cpu_event list) option" where
  "VirtPoll b vm =
     (let e0 = OnClintIrq (ClintPoll (of_int (now_us vm)) (vb_clint vm)); (vm1, e1) = poll_uart vm in
      Option.bind (poll_con b vm1) (\<lambda>(vm2, e2).
      Option.bind (poll_kbd b vm2) (\<lambda>(vm3, e3).
      Option.bind (poll_tablet b vm3) (\<lambda>(vm4, e4).
        Some (vm4\<lparr>vb_fb := Ramfb32Poll (now_us vm4) b (vb_mem vm4) (vb_fb vm4)\<rparr>, e0 @ e1 @ e2 @ e3 @ e4)))))"

section \<open>Dispatch of bus accesses\<close>

text \<open>
  \<open>None\<close> is an access outside a RAM block, a configuration access past its
  source, or a virtio queue that never ends.
\<close>

definition slot_read :: "nat \<Rightarrow> u64 \<Rightarrow> nat \<Rightarrow> 'f VirtBoard \<Rightarrow> u64" where
  "slot_read dev a sz vm =
     (if dev = 0 then (case vb_blk vm of None \<Rightarrow> 0 | Some v \<Rightarrow> MmioRead v a sz)
      else if dev = 1 then MmioRead (vb_con vm) a sz
      else if dev = 2 then MmioRead (vb_kbd vm) a sz
      else MmioRead (vb_tablet vm) a sz)"

definition slot_write :: "'f file_ops \<Rightarrow> Bus \<Rightarrow> nat \<Rightarrow> u64 \<Rightarrow> nat \<Rightarrow> u64 \<Rightarrow> 'f VirtBoard \<Rightarrow> ('f VirtBoard \<times> cpu_event list) option" where
  "slot_write F b dev a sz val vm =
     (if dev = 0 then
        (case vb_blk vm of None \<Rightarrow> None
         | Some v \<Rightarrow> Option.bind (MmioWrite (blk_backend F b) b a sz val (virtio_world v vm))
             (map_option (\<lambda>w. virtio_done set_blk w vm)))
      else if dev = 1 then
        Option.bind (MmioWrite (con_backend b) b a sz val (virtio_world (vb_con vm) vm)) (map_option (\<lambda>w. virtio_done set_con w vm))
      else if dev = 2 then
        Option.bind (MmioWrite (input_backend b) b a sz val (virtio_world (vb_kbd vm) vm)) (map_option (\<lambda>w. virtio_done set_kbd w vm))
      else
        Option.bind (MmioWrite (input_backend b) b a sz val (virtio_world (vb_tablet vm) vm)) (map_option (\<lambda>w. virtio_done set_tablet w vm)))"

definition virt_read :: "'f VirtBoard dev_read" where
  "virt_read ops dev a sz vm =
     (if ops = 0 then map_option (\<lambda>v. (v, vm, [])) (RamRead (if dev = 0 then dram vm else mrom vm) a sz)
      else if ops = 1 then Some (ClintRead (of_int (now_us vm)) (vb_clint vm) a sz, vm, [])
      else if ops = 2 then
        (case PlicRead (vb_plic vm) a sz of (v, p, cs) \<Rightarrow> Some (v, vm\<lparr>vb_plic := p\<rparr>, OnPlicIrq cs))
      else if ops = 3 then
        (case UartRead (vb_uart vm) a of (v, u, cs) \<Rightarrow> (case uart_done u cs vm of (vm1, es) \<Rightarrow> Some (v, vm1, es)))
      else if ops = 4 then Some (TestRead a sz, vm, [])
      else if ops = 5 then Some (slot_read dev a sz vm, vm, [])
      else Some (MmioEmptyRead a sz, vm, []))"

definition put_block :: "nat \<Rightarrow> (u64 \<Rightarrow> u8) \<Rightarrow> 'f VirtBoard \<Rightarrow> 'f VirtBoard" where
  "put_block k m vm = vm\<lparr>vb_mem := (vb_mem vm)(k := m)\<rparr>"

definition virt_write :: "'f file_ops \<Rightarrow> Bus \<Rightarrow> 'f VirtBoard dev_write" where
  "virt_write F b ops dev a sz val vm =
     (if ops = 0 then
        map_option (\<lambda>r. (put_block (if dev = 0 then 0 else 1) (ram_mem r) vm, []))
          (RamWrite (if dev = 0 then dram vm else mrom vm) a sz val)
      else if ops = 1 then
        (case ClintWrite (of_int (now_us vm)) (vb_clint vm) a sz val of (c, cs) \<Rightarrow> Some (vm\<lparr>vb_clint := c\<rparr>, OnClintIrq cs))
      else if ops = 2 then
        (case PlicWrite (vb_plic vm) a sz val of (p, cs) \<Rightarrow> Some (vm\<lparr>vb_plic := p\<rparr>, OnPlicIrq cs))
      else if ops = 3 then
        (case UartWrite (now_us vm) (vb_uart vm) a val of (u, cs, out) \<Rightarrow>
           Some (uart_done u cs (vm\<lparr>vb_out := vb_out vm @ out\<rparr>)))
      else if ops = 4 then Some (vm, TestWrite a sz val)
      else if ops = 5 then slot_write F b dev a sz val vm
      else Some (vm, []))"

text \<open>
  A host pointer is a block and an offset; \<open>memcpy\<close> through it stays inside
  the block.  The bus argument is the one the virtio devices hold; its windows
  do not change after the construction.
\<close>

definition block_size :: "nat \<Rightarrow> 'f VirtBoard \<Rightarrow> u64" where
  "block_size k vm = (if k = 0 then vb_ram_size vm else 0x1000)"

definition virt_env :: "'f file_ops \<Rightarrow> 'l host_fp \<Rightarrow> Bus \<Rightarrow> ('f VirtBoard, 'l) env" where
  "virt_env F fp b =
     \<lparr>e_read = virt_read, e_write = virt_write F b,
      e_host_load = (\<lambda>k off n vm. if in_block (block_size k vm) off n then Some (load_le (vb_mem vm k) off n) else None),
      e_host_store = (\<lambda>k off n v vm. if in_block (block_size k vm) off n
        then Some (put_block k (store_le (vb_mem vm k) off n v) vm) else None),
      e_timer = Some ReadTime, e_dbg_mem = False, e_fp = fp\<rparr>"

section \<open>Construction\<close>

text \<open>
  The options that the board uses.  A disk is an open file with its size;
  \<open>None\<close> also stands for a path that cannot be opened.
\<close>

record 'f BoardOpts =
  o_ram_base :: u64
  o_ram_size :: u64
  o_dsk :: "('f \<times> u64) option"
  o_append :: "u8 list option"

definition kResetVec :: "u32 list" where
  "kResetVec = [0x00000297, 0x02828613, 0xf1402573, 0x0202b583, 0x0182b283, 0x00028067]"

definition kFwDynInfo :: "u64 list" where
  "kFwDynInfo = [0x4942534f, 2, 0, 1, 0, 0]"

definition fdt_addr :: "u64 \<Rightarrow> u64" where
  "fdt_addr bytes = (0x80000000 + bytes - 0x200000) AND NOT (0x200000 - 1)"

text \<open>The contents of the mask ROM: the reset vector and the nine data slots behind it, of which the last is never set.\<close>

definition mrom_image :: "u64 \<Rightarrow> u64 \<Rightarrow> u8 list" where
  "mrom_image bytes junk = concat (map (\<lambda>w. le_bytes 4 (ucast w)) kResetVec) @
     concat (map (le_bytes 8) ([0x80000000, fdt_addr bytes] @ kFwDynInfo @ [junk]))"

text \<open>The device tree as it is left in DRAM, with the command line when there is one.\<close>

definition build_fdt :: "u8 list \<Rightarrow> u64 \<Rightarrow> u8 list option \<Rightarrow> blob \<Rightarrow> blob option" where
  "build_fdt dtb bytes app d0 =
     Option.bind (PatchDtbMemorySize bytes (put_string 0 dtb d0)) (\<lambda>d1.
       case app of None \<Rightarrow> Some d1
       | Some a \<Rightarrow> map_option snd (PatchDtbChosenProp (ascii ''bootargs'') a d1))"

text \<open>What \<open>calloc\<close> leaves in the devices that are part of the board struct.\<close>

definition zero_clint :: ClintDevice where
  "zero_clint = \<lparr>cl_base = 0, msip = 0, mtimecmp = 0, mtime0 = 0, host0 = 0, timebase_hz = 0, cl_sink = False\<rparr>"

definition zero_plic :: PlicDevice where
  "zero_plic = \<lparr>pl_base = 0, priority = (\<lambda>_. 0), pending = (\<lambda>_. 0), enable = (\<lambda>_ _. 0), threshold = (\<lambda>_. 0), pl_sink = False\<rparr>"

definition zero_uart :: Uart16550 where
  "zero_uart = \<lparr>ier = 0, iir = 0, lcr = 0, mcr = 0, msr = 0, scr = 0, fcr = 0, lsr = 0, divider = 0,
     rx_fifo = (\<lambda>_. 0), rx_head = 0, rx_tail = 0, rx_count = 0, rx_trigger = 0, rx_timeout_armed = False,
     rx_timeout_at = 0, rx_timeout_ip = False, thr_ip = False, ua_sink = False\<rparr>"

definition zero_fb :: Ramfb32Device where
  "zero_fb = \<lparr>fb_base = 0, fb_width = 0, fb_height = 0, fb_stride = 0, fb_px = (\<lambda>_. 0), fb_shadow = (\<lambda>_. 0),
     shadow_size = 0, fb_version = 0, fb_last_poll_us = 0\<rparr>"

text \<open>The windows of the slots without a device.\<close>

fun add_empty :: "nat list \<Rightarrow> Bus \<Rightarrow> Bus option" where
  "add_empty [] b = Some b"
| "add_empty (i # is) b = Option.bind (BusAddRegion b (0x10001000 + of_nat i * 0x1000) 0x1000 6 0) (add_empty is)"

definition virt_fb :: "bool \<Rightarrow> (nat \<Rightarrow> u8) \<Rightarrow> u64 \<Rightarrow> Ramfb32Device" where
  "virt_fb fb_ok garbage bytes =
     (if 0x0C000000 + 0x300000 \<le> bytes then snd (Ramfb32Init fb_ok garbage 0x8C000000 1024 768 4096) else zero_fb)"

text \<open>
  The construction.  \<open>mem_ok\<close> and \<open>fb_ok\<close> say whether the host allocations
  succeed, \<open>garbage\<close> and \<open>junk\<close> are what uninitialised host memory holds, and
  \<open>dtb\<close> is the device tree of virt_dtb.h.  \<open>None\<close> is the null pointer, the
  \<open>Fatal\<close> of a full bus or a device tree that does not end.
\<close>

definition VirtBoardCreate ::
  "bool \<Rightarrow> bool \<Rightarrow> (nat \<Rightarrow> u8) \<Rightarrow> u64 \<Rightarrow> u8 list \<Rightarrow> HostClock \<Rightarrow> 'f BoardOpts \<Rightarrow> (Bus \<times> 'f VirtBoard) option" where
  "VirtBoardCreate mem_ok fb_ok garbage junk dtb clk opts =
     (let bytes = (if o_ram_size opts \<noteq> 0 then o_ram_size opts else 0x8000000); off = fdt_addr bytes - 0x80000000 in
      if o_ram_base opts \<noteq> 0 \<and> o_ram_base opts \<noteq> 0x80000000 then None
      else if \<not> mem_ok then None
      else if 0x200000 < length dtb \<or> bytes < 0x200000 + of_nat (length dtb) then None
      else
        Option.bind (BusAddRamRegion \<lparr>regions = [], bus_last = None\<rparr> 0x80000000 bytes 0 0 0) (\<lambda>b1.
        Option.bind (BusAddRamRegion b1 0x1000 0x1000 0 1 1) (\<lambda>b2.
        Option.bind (build_fdt dtb bytes (o_append opts) (\<lambda>_. 0)) (\<lambda>fdt.
        Option.bind (ClintRegister b2 (ClintInit (of_int (HostTimerNow clk)) 10000000 zero_clint) 0x02000000 0x10000 1 0) (\<lambda>(b3, cl).
        Option.bind (PlicRegister b3 (PlicInit zero_plic) 0x0c000000 0x600000 2 0) (\<lambda>(b4, pl).
        Option.bind (BusAddRegion b4 0x10000000 0x100 3 0) (\<lambda>b5.
        Option.bind (SifiveTestRegister b5 0x100000 0x1000 4 0) (\<lambda>b6.
        Option.bind (VirtioBlkCreate b6 0x10001000 0x1000 (o_dsk opts) 1 5 0) (\<lambda>(b7, blk).
        Option.bind (VirtioConsoleCreate b7 0x10002000 0x1000 2 5 1) (\<lambda>(b8, con).
        Option.bind (VirtioInputCreate b8 0x10003000 0x1000 kVirtioInputKeyboard 3 5 2) (\<lambda>(b9, kbd).
        Option.bind (VirtioInputCreate b9 0x10004000 0x1000 kVirtioInputTablet 4 5 3) (\<lambda>(b10, tab).
        Option.bind (add_empty ((if blk = None then [0] else []) @ [4, 5, 6, 7]) b10) (\<lambda>b11.
          Some (b11, \<lparr>vb_clock = clk,
            vb_mem = (\<lambda>k a. if k = 0 then (if off \<le> a then fdt (unat (a - off)) else 0)
                            else if k = 1 then put_bytes (\<lambda>_. 0) 0 (mrom_image bytes junk) a else 0),
            vb_ram_size = bytes, vb_clint = ClintSetIrqSink cl, vb_plic = PlicSetIrqSink pl,
            vb_uart = Uart16550SetIrqSink (fst (Uart16550Init zero_uart)), vb_blk = blk, vb_con = con, vb_kbd = kbd,
            vb_tablet = tab, vb_fb = virt_fb fb_ok garbage bytes, vb_px = 0, vb_py = 0, vb_out = []\<rparr>))))))))))))))"

section \<open>The devices stay legal\<close>

definition virt_ok :: "'f VirtBoard \<Rightarrow> bool" where
  "virt_ok vm \<longleftrightarrow> (\<exists>l. uart_ok (vb_uart vm) l) \<and> (\<forall>v. vb_blk vm = Some v \<longrightarrow> virtio_ok v) \<and>
     virtio_ok (vb_con vm) \<and> virtio_ok (vb_kbd vm) \<and> virtio_ok (vb_tablet vm)"

text \<open>Interrupt routing changes the interrupt controller only.\<close>

lemma route_irqs: "\<exists>p es'. fold OnVirtioIrq cs (vm, es) = (vm\<lparr>vb_plic := p\<rparr>, es')"
proof (induction cs arbitrary: vm es)
  case Nil
  show ?case by (auto intro: exI [of _ "vb_plic vm"])
next
  case (Cons c cs)
  obtain p es1 where "OnVirtioIrq c (vm, es) = (vm\<lparr>vb_plic := p\<rparr>, es1)"
    by (auto simp: OnVirtioIrq_def case_prod_unfold)
  then show ?case using Cons [of "vm\<lparr>vb_plic := p\<rparr>" es1] by auto
qed

lemma OnUartIrq_fold: "fold OnUartIrq cs x = fold OnVirtioIrq (map (\<lambda>(_, level). (10, level)) cs) x"
  by (induction cs arbitrary: x) (auto simp: OnUartIrq_def case_prod_unfold)

lemma virt_ok_plic [simp]: "virt_ok (vm\<lparr>vb_plic := p\<rparr>) = virt_ok vm"
  and virt_ok_mem [simp]: "virt_ok (vm\<lparr>vb_mem := m\<rparr>) = virt_ok vm"
  and virt_ok_out [simp]: "virt_ok (vm\<lparr>vb_out := out\<rparr>) = virt_ok vm"
  and virt_ok_clint [simp]: "virt_ok (vm\<lparr>vb_clint := c\<rparr>) = virt_ok vm"
  and virt_ok_clock [simp]: "virt_ok (vm\<lparr>vb_clock := k\<rparr>) = virt_ok vm"
  and virt_ok_fb [simp]: "virt_ok (vm\<lparr>vb_fb := f\<rparr>) = virt_ok vm"
  by (simp_all add: virt_ok_def)

lemma virt_ok_uart_done:
  assumes "uart_done u cs' vm = (vm', es)" "virt_ok vm" "\<And>l. uart_ok (vb_uart vm) l \<Longrightarrow> uart_ok u (line_after l 0 cs)"
  shows "virt_ok vm'"
proof -
  obtain p es' where "uart_done u cs' vm = (vm\<lparr>vb_uart := u, vb_plic := p\<rparr>, es')"
    unfolding uart_done_def OnUartIrq_fold using route_irqs by blast
  then show ?thesis using assms by (auto simp: virt_ok_def)
qed

lemma virtio_done_ok:
  assumes "virtio_done upd w vm = (vm', es)" "\<And>m out. virt_ok (upd (w_dev w) (vm\<lparr>vb_mem := m, vb_out := out\<rparr>))"
  shows "virt_ok vm'"
  using assms route_irqs [of "w_calls w" "upd (w_dev w) (vm\<lparr>vb_mem := w_mem w, vb_out := vb_out vm @ w_out w\<rparr>)" "[]"]
  by (auto simp: virtio_done_def)

lemma slot_done_ok:
  "virtio_done set_blk wb vm = (vm', es) \<Longrightarrow> virt_ok vm \<Longrightarrow> virtio_ok (w_dev wb) \<Longrightarrow> virt_ok vm'"
  "virtio_done set_con wc vm = (vm', es) \<Longrightarrow> virt_ok vm \<Longrightarrow> virtio_ok (w_dev wc) \<Longrightarrow> virt_ok vm'"
  "virtio_done set_kbd wi vm = (vm', es) \<Longrightarrow> virt_ok vm \<Longrightarrow> virtio_ok (w_dev wi) \<Longrightarrow> virt_ok vm'"
  "virtio_done set_tablet wi vm = (vm', es) \<Longrightarrow> virt_ok vm \<Longrightarrow> virtio_ok (w_dev wi) \<Longrightarrow> virt_ok vm'"
  by (erule virtio_done_ok; simp add: virt_ok_def set_blk_def set_con_def set_kbd_def set_tablet_def)+

lemma world_dev [simp]: "w_dev (virtio_world v vm) = v"
  by (simp add: virtio_world_def)

lemma uart_ops_ok:
  "UartRead u a = (v, u', cs) \<Longrightarrow> uart_ok u l \<Longrightarrow> uart_ok u' (line_after l 0 cs)"
  "UartWrite now u a w = (u', cs, out) \<Longrightarrow> uart_ok u l \<Longrightarrow> uart_ok u' (line_after l 0 cs)"
  "Uart16550Receive now u ch = (u', cs) \<Longrightarrow> uart_ok u l \<Longrightarrow> uart_ok u' (line_after l 0 cs)"
  "Uart16550Poll now u = (u', cs) \<Longrightarrow> uart_ok u l \<Longrightarrow> uart_ok u' (line_after l 0 cs)"
  using uart_step_ok [of "(u, l)" "(u', line_after l 0 cs)"] uart_step.intros by auto

lemma virt_ok_read:
  assumes "virt_ok vm" "virt_read ops dev a sz vm = Some (v, vm', es)"
  shows "virt_ok vm'"
proof (cases "ops = 3")
  case True
  obtain u cs where u: "UartRead (vb_uart vm) a = (v, u, cs)" and d: "uart_done u cs vm = (vm', es)"
    using assms(2) True by (auto simp: virt_read_def split: prod.splits)
  show ?thesis by (rule virt_ok_uart_done [OF d assms(1) uart_ops_ok(1) [OF u]])
next
  case False
  then show ?thesis using assms by (auto simp: virt_read_def split: if_splits prod.splits)
qed

lemma virt_ok_slot_write:
  assumes "virt_ok vm" "slot_write F b dev a sz val vm = Some (vm', es)"
  shows "virt_ok vm'"
proof -
  have v: "virtio_ok (vb_con vm)" "virtio_ok (vb_kbd vm)" "virtio_ok (vb_tablet vm)" "\<And>v. vb_blk vm = Some v \<Longrightarrow> virtio_ok v"
    using assms(1) by (auto simp: virt_ok_def)
  show ?thesis
    using assms(2) unfolding slot_write_def
    by (auto simp: bind_eq_Some_conv v split: if_splits option.splits
        dest!: blk.write_ok con.write_ok input.write_ok slot_done_ok [OF _ assms(1)])
qed

lemma virt_ok_write:
  assumes "virt_ok vm" "virt_write F b ops dev a sz val vm = Some (vm', es)"
  shows "virt_ok vm'"
proof (cases "ops = 3")
  case True
  obtain u cs out where u: "UartWrite (now_us vm) (vb_uart vm) a val = (u, cs, out)"
    and d: "uart_done u cs (vm\<lparr>vb_out := vb_out vm @ out\<rparr>) = (vm', es)"
    using assms(2) True by (auto simp: virt_write_def split: prod.splits)
  show ?thesis by (rule virt_ok_uart_done [OF d _ uart_ops_ok(2) [OF u]]) (use assms(1) in simp_all)
next
  case False
  then show ?thesis using assms
    by (auto simp: virt_write_def put_block_def split: if_splits prod.splits dest: virt_ok_slot_write)
qed

interpretation virt: devices "virt_env F fp b" virt_ok for F fp b
  by unfold_locales (auto simp: virt_env_def put_block_def split: if_splits dest: virt_ok_read virt_ok_write)

section \<open>Runs of the board\<close>

lemma virt_ok_poll: "VirtPoll b vm = Some (vm', es) \<Longrightarrow> virt_ok vm \<Longrightarrow> virt_ok vm'"
proof -
  have u: "virt_ok vm'" if "poll_uart vm = (vm', es)" "virt_ok vm" for vm vm' :: "'f VirtBoard" and es
  proof -
    obtain u cs where p: "Uart16550Poll (now_us vm) (vb_uart vm) = (u, cs)" by fastforce
    show ?thesis by (rule virt_ok_uart_done [OF _ that(2) uart_ops_ok(4) [OF p]]) (use that(1) p in \<open>simp add: poll_uart_def\<close>)
  qed
  have c: "virt_ok vm'" if "poll_con b vm = Some (vm', es)" "virt_ok vm" for vm vm' :: "'f VirtBoard" and es
    using that by (auto simp: poll_con_def virt_ok_def [of vm] dest!: virtio_ok_poll(1) intro!: slot_done_ok(2) [OF _ that(2)])
  have k: "virt_ok vm'" if "poll_kbd b vm = Some (vm', es)" "virt_ok vm" for vm vm' :: "'f VirtBoard" and es
    using that by (auto simp: poll_kbd_def virt_ok_def [of vm] dest!: virtio_ok_poll(2) intro!: slot_done_ok(3) [OF _ that(2)])
  have t: "virt_ok vm'" if "poll_tablet b vm = Some (vm', es)" "virt_ok vm" for vm vm' :: "'f VirtBoard" and es
    using that by (auto simp: poll_tablet_def virt_ok_def [of vm] dest!: virtio_ok_poll(2) intro!: slot_done_ok(4) [OF _ that(2)])
  show "VirtPoll b vm = Some (vm', es) \<Longrightarrow> virt_ok vm \<Longrightarrow> virt_ok vm'"
    by (auto simp: VirtPoll_def Let_def bind_eq_Some_conv split: prod.splits dest!: u c k t)
qed

lemma virt_ok_serial: "OnHostSerial ch vm = (vm', es) \<Longrightarrow> virt_ok vm \<Longrightarrow> virt_ok vm'"
proof -
  assume s: "OnHostSerial ch vm = (vm', es)" and v: "virt_ok vm"
  obtain u cs where r: "Uart16550Receive (now_us vm) (vb_uart vm) ch = (u, cs)" by fastforce
  obtain vm1 es1 where d: "uart_done u cs vm = (vm1, es1)" by fastforce
  have "virt_ok vm1" by (rule virt_ok_uart_done [OF d v uart_ops_ok(3) [OF r]])
  then show "virt_ok vm'" using s r d by (auto simp: OnHostSerial_def set_con_def virt_ok_def)
qed

lemma virt_ok_tablet: "virt_ok (TabletSend dz buttons vm) = virt_ok vm"
proof -
  have "virtio_ok (tablet_button buttons k v) = virtio_ok v" for k v by (simp add: tablet_button_def)
  then show ?thesis by (simp add: TabletSend_def set_tablet_def virt_ok_def Let_def)
qed

lemma virt_ok_host:
  "virt_ok (OnHostKey scan ext up vm) = virt_ok vm" "virt_ok (OnHostMouse dx dy dz buttons vm) = virt_ok vm"
  "virt_ok (OnHostMouseAbs x y dz buttons vm) = virt_ok vm"
proof -
  show "virt_ok (OnHostKey scan ext up vm) = virt_ok vm"
    by (simp add: OnHostKey_def set_kbd_def virt_ok_def split: option.splits)
  show "virt_ok (OnHostMouse dx dy dz buttons vm) = virt_ok vm" "virt_ok (OnHostMouseAbs x y dz buttons vm) = virt_ok vm"
    by (simp_all add: OnHostMouse_def OnHostMouseAbs_def virt_ok_tablet) (simp_all add: virt_ok_def)
qed

text \<open>
  What happens to the machine: a step of the processor, a poll of the board, a
  byte, a key or a pointer movement from the host, the count of a retired
  instruction, and the passing of time.
\<close>

inductive virt_step :: "'f file_ops \<Rightarrow> 'l host_fp \<Rightarrow> Bus \<Rightarrow> 'f VirtBoard hart \<Rightarrow> 'f VirtBoard hart \<Rightarrow> bool" for F fp b where
  step: "riscv_step (virt_env F fp b) h = Ok () h' \<Longrightarrow> virt_step F fp b h h'"
| poll: "VirtPoll b (devs h) = Some (vm, es) \<Longrightarrow> virt_step F fp b h (apply_events es (h\<lparr>devs := vm\<rparr>))"
| serial: "OnHostSerial ch (devs h) = (vm, es) \<Longrightarrow> virt_step F fp b h (apply_events es (h\<lparr>devs := vm\<rparr>))"
| key: "virt_step F fp b h (h\<lparr>devs := OnHostKey scan ext up (devs h)\<rparr>)"
| mouse: "virt_step F fp b h (h\<lparr>devs := OnHostMouse dx dy dz buttons (devs h)\<rparr>)"
| mouse_abs: "virt_step F fp b h (h\<lparr>devs := OnHostMouseAbs x y dz buttons (devs h)\<rparr>)"
| retire: "virt_step F fp b h (upd_cpu (\<lambda>c. c\<lparr>inst_count := inst_count c + 1\<rparr>) h)"
| time: "clock_step (vb_clock (devs h)) c \<Longrightarrow> virt_step F fp b h (h\<lparr>devs := (devs h)\<lparr>vb_clock := c\<rparr>\<rparr>)"

lemma hart_inv_events: "hart_inv virt_ok (apply_events es (h\<lparr>devs := vm\<rparr>)) \<longleftrightarrow> hart_ok h \<and> virt_ok vm"
  by (simp add: hart_inv_def hart_ok_def apply_events_view)

lemma virt_step_ok: "virt_step F fp b h h' \<Longrightarrow> hart_inv virt_ok h \<Longrightarrow> hart_inv virt_ok h'"
proof (induction rule: virt_step.induct)
  case (step h h')
  then show ?case by (blast intro: keepsD [OF virt.keeps_riscv_step])
next
  case (poll h vm es)
  then show ?case by (simp add: hart_inv_events) (simp add: hart_inv_def virt_ok_poll)
next
  case (serial ch h vm es)
  then show ?case by (simp add: hart_inv_events) (simp add: hart_inv_def virt_ok_serial)
qed (simp_all add: hart_inv_def hart_ok_def virt_ok_host)

section \<open>The board as built\<close>

text \<open>The processor of a new board, at the reset vector.\<close>

definition virt_hart :: "Bus \<Rightarrow> 'f VirtBoard \<Rightarrow> 'f VirtBoard hart" where
  "virt_hart b vm = \<lparr>cpu = \<lparr>gpr = (\<lambda>_. 0), fpr = (\<lambda>_. 0), pc = 0x1000, image_base = 0, halted = False, wait = False,
      exit_code = 0, inst_count = 0\<rparr>, rs = riscv_init, bus = b, devs = vm\<rparr>"

lemma with_window_Some: "with_window b base sz ops dev x = Some (b', y) \<longleftrightarrow> BusAddRegion b base sz ops dev = Some b' \<and> y = x"
  by (auto simp: with_window_def)

lemma virtio_ok_new:
  "virtio_ok (blk_new f bytes src)" "virtio_ok (con_new src)" "virtio_ok (input_new t src)"
  by (simp_all add: blk_new_def con_new_def input_new_def set_manual_def VirtioInit_def TransportReset_def upd_queue_def
      virtio_ok_def queue_ok_def Let_def)

lemma virt_created:
  assumes "VirtBoardCreate mem_ok fb_ok garbage junk dtb clk opts = Some (b, vm)"
  shows "bus_ok b" and "virt_ok vm"
proof -
  obtain b9 base sz ops dev where "BusAddRegion b9 base sz ops dev = Some b"
    "vb_uart vm = Uart16550SetIrqSink (fst (Uart16550Init zero_uart))" "\<forall>v. vb_blk vm = Some v \<longrightarrow> virtio_ok v"
    "virtio_ok (vb_con vm)" "virtio_ok (vb_kbd vm)" "virtio_ok (vb_tablet vm)"
    using assms
    by (auto simp: VirtBoardCreate_def Let_def bind_eq_Some_conv VirtioInputCreate_def VirtioConsoleCreate_def
        VirtioBlkCreate_def with_window_Some virtio_ok_new split: if_splits option.splits)
  moreover have "uart_ok (Uart16550SetIrqSink (fst (Uart16550Init zero_uart))) False"
    by (simp add: Uart16550Init_def zero_uart_def Uart16550SetIrqSink_def UpdateMsr_def UpdateIrq_def RefreshLsr_def
        uart_source_def kTriggerLevels_def uart_ok_def rx_ok_def lsr_ok_def irq_ok_def)
  ultimately show "bus_ok b" "virt_ok vm"
    by (auto simp: virt_ok_def dest: bus_ok_BusAddRegion)
qed


text \<open>A board without a disk and with an empty device tree.\<close>

definition opts0 :: "unit BoardOpts" where
  "opts0 = \<lparr>o_ram_base = 0, o_ram_size = 0, o_dsk = None, o_append = None\<rparr>"

text \<open>A bus with room takes a window and the construction goes on.\<close>

lemma bind_add:
  assumes "length (regions b) < 32" "\<And>b'. length (regions b') = Suc (length (regions b)) \<Longrightarrow> \<exists>r. f b' = Some r"
  shows "\<exists>r. Option.bind (BusAddRegion b base sz ops dev) f = Some r"
  using assms by (simp add: BusAddRegion_def kBusRegions_def length_RefreshBus)

lemma bind_add_ram:
  assumes "length (regions b) < 32" "\<And>b'. length (regions b') = Suc (length (regions b)) \<Longrightarrow> \<exists>r. f b' = Some r"
  shows "\<exists>r. Option.bind (BusAddRamRegion b base sz ops dev host) f = Some r"
  using assms by (simp add: BusAddRamRegion_def BusAddRegion_def kBusRegions_def length_RefreshBus Let_def)

lemma bind_window:
  assumes "length (regions b) < 32" "\<And>b'. length (regions b') = Suc (length (regions b)) \<Longrightarrow> \<exists>r. f (b', x) = Some r"
  shows "\<exists>r. Option.bind (with_window b base sz ops dev x) f = Some r"
  using assms by (simp add: with_window_def BusAddRegion_def kBusRegions_def length_RefreshBus)

lemma add_empty_room:
  assumes "length (regions b) + length is \<le> 32" "\<And>b'. \<exists>r. f b' = Some r"
  shows "\<exists>r. Option.bind (add_empty is b) f = Some r"
proof -
  have "\<exists>b'. add_empty is b = Some b'" using assms(1)
    by (induction "is" arbitrary: b) (auto simp: BusAddRegion_def kBusRegions_def length_RefreshBus)
  then show ?thesis using assms(2) by auto
qed

lemma virt_created0: "\<exists>r. VirtBoardCreate True True (\<lambda>_. 0) 0 [] clock0 opts0 = Some r"
proof -
  obtain d where d: "build_fdt [] 0x8000000 None (\<lambda>_. 0) = Some d"
    by (simp add: build_fdt_def PatchDtbMemorySize_def put_string_def Be32_def memory_walk.simps)
  show ?thesis
    unfolding VirtBoardCreate_def Let_def ClintRegister_def PlicRegister_def SifiveTestRegister_def VirtioBlkCreate_def
      VirtioConsoleCreate_def VirtioInputCreate_def opts0_def
    apply (simp add: d del: add_empty.simps split_paired_Ex)
    apply (rule bind_add_ram, simp)+
    apply (rule bind_window bind_add, simp, (simp only: split_conv)?)+
    apply (rule add_empty_room; simp)
    done
qed


end
