(* ===== verification/VirtIrq.thy ===== *)
theory VirtIrq
  imports Virt
begin

text \<open>
  Interrupts of the virt board from the device to the trap handler of the
  guest: the timer through the core-local interrupter, and a byte from the
  host through the serial port and the interrupt controller.  The theory puts
  together the lines of the devices, the wiring of the board and the
  interrupt delivery of the processor.
\<close>

unbundle bit_operations_syntax

section \<open>Interrupt lines as events\<close>

lemma bit_line: "bit (kIrqStip) k \<longleftrightarrow> k = 5" "bit (kIrqMtip) k \<longleftrightarrow> k = 7" "bit (kIrqSeip) k \<longleftrightarrow> k = 9" "bit (kIrqMeip) k \<longleftrightarrow> k = 11"
proof -
  have "(0x20 :: u64) = 2 ^ 5" "(0x80 :: u64) = 2 ^ 7" "(0x200 :: u64) = 2 ^ 9" "(0x800 :: u64) = 2 ^ 11" by simp_all
  then show "bit (kIrqStip) k \<longleftrightarrow> k = 5" "bit (kIrqMtip) k \<longleftrightarrow> k = 7" "bit (kIrqSeip) k \<longleftrightarrow> k = 9" "bit (kIrqMeip) k \<longleftrightarrow> k = 11"
    by (auto simp only: bit_exp_iff possible_bit_word) simp_all
qed

lemma lines_off: "k \<noteq> 5 \<Longrightarrow> \<forall>l \<in> set [kIrqStip]. \<not> bit l k" "k \<noteq> 9 \<Longrightarrow> k \<noteq> 11 \<Longrightarrow> \<forall>l \<in> set [kIrqMeip, kIrqSeip]. \<not> bit l k"
  by (metis bit_line empty_iff empty_set set_ConsD)+

lemma bit_u64_less: "bit (w :: u64) k \<Longrightarrow> k < 64"
  using bit_imp_le_length [of w k] by simp

fun is_line :: "u64 list \<Rightarrow> cpu_event \<Rightarrow> bool" where
  "is_line ls (SetIrq l _) \<longleftrightarrow> l \<in> set ls"
| "is_line ls (Halt _) \<longleftrightarrow> False"

abbreviation external :: "cpu_event list \<Rightarrow> bool" where
  "external \<equiv> list_all (is_line [kIrqMeip, kIrqSeip])"

lemma apply_lines:
  assumes "list_all (is_line ls) es"
  shows "\<exists>x. apply_events es h = upd_rs (\<lambda>s. s\<lparr>ext_irq := x\<rparr>) h \<and>
    (\<forall>k. (\<forall>l \<in> set ls. \<not> bit l k) \<longrightarrow> bit x k = bit (ext_irq (rs h)) k)"
  using assms
proof (induction es arbitrary: h)
  case Nil
  show ?case by (auto simp: apply_events_def upd_rs_def intro!: exI [of _ "ext_irq (rs h)"])
next
  case (Cons e es)
  obtain l v where e: "e = SetIrq l v" "l \<in> set ls" using Cons.prems by (cases e) auto
  define y where "y = (if v then ext_irq (rs h) OR l else ext_irq (rs h) AND NOT l)"
  have 1: "apply_event e h = upd_rs (\<lambda>s. s\<lparr>ext_irq := y\<rparr>) h"
    by (simp add: e apply_event_def riscv_set_ext_irq_def upd_rs_def y_def)
  have y: "(\<forall>l \<in> set ls. \<not> bit l k) \<Longrightarrow> bit y k = bit (ext_irq (rs h)) k" for k
    using e(2) by (auto simp: y_def bit_or_iff bit_and_iff bit_not_iff dest: bit_u64_less)
  obtain x where "apply_events es (upd_rs (\<lambda>s. s\<lparr>ext_irq := y\<rparr>) h) = upd_rs (\<lambda>s. s\<lparr>ext_irq := x\<rparr>) (upd_rs (\<lambda>s. s\<lparr>ext_irq := y\<rparr>) h)"
    "\<forall>k. (\<forall>l \<in> set ls. \<not> bit l k) \<longrightarrow> bit x k = bit y k"
    using Cons.IH [of "upd_rs (\<lambda>s. s\<lparr>ext_irq := y\<rparr>) h"] Cons.prems by auto
  then show ?case using 1 y by (auto simp: apply_events_def upd_rs_def intro!: exI [of _ x])
qed

lemma external_plic: "external (OnPlicIrq cs)"
  by (auto simp: OnPlicIrq_def list_all_iff)

lemma external_route: "fold OnVirtioIrq cs (vm, es) = (vm', es') \<Longrightarrow> external es \<Longrightarrow> external es'"
proof (induction cs arbitrary: vm es)
  case (Cons c cs)
  obtain vm1 es1 where c: "OnVirtioIrq c (vm, es) = (vm1, es1)" by fastforce
  then have "external es1" using Cons.prems(2) external_plic by (auto simp: OnVirtioIrq_def case_prod_unfold)
  then show ?case using Cons.IH [of vm1 es1] Cons.prems(1) c by simp
qed simp

lemma external_done:
  "uart_done u cs vm = (vm', es) \<Longrightarrow> external es" "virtio_done upd w vm = (vm', es) \<Longrightarrow> external es"
  by (auto simp: uart_done_def virtio_done_def OnUartIrq_fold dest: external_route)

lemma VirtPoll_events:
  assumes "VirtPoll b vm = Some (vm', es)" "cl_sink (vb_clint vm)"
  obtains es' where "es = SetIrq kIrqMtip (mtimecmp (vb_clint vm) \<le> ReadTime vm) # es'" "external es'"
proof -
  have "external es" if "poll_uart vm = (vm', es)" for vm vm' :: "'a VirtBoard" and es
    using that by (auto simp: poll_uart_def split: prod.splits dest: external_done)
  moreover have "external es" if "poll_con b vm = Some (vm', es) \<or> poll_kbd b vm = Some (vm', es) \<or> poll_tablet b vm = Some (vm', es)"
    for vm vm' :: "'a VirtBoard" and es
    using that by (auto simp: poll_con_def poll_kbd_def poll_tablet_def dest: external_done)
  moreover have "OnClintIrq (ClintPoll (of_int (now_us vm)) (vb_clint vm)) = [SetIrq kIrqMtip (mtimecmp (vb_clint vm) \<le> ReadTime vm)]"
    using assms(2) by (simp add: OnClintIrq_def ClintPoll_def UpdateMtip_def drive_def ReadTime_def)
  ultimately show thesis
    using assms(1) that
    by (auto simp: VirtPoll_def Let_def bind_eq_Some_conv split: prod.splits) blast
qed

section \<open>Delivery\<close>

lemma step_enter_takes:
  assumes "step_boundary h" "irq_ready (rs (riscv_sync_timer E h)) i"
  shows "fst (step_enter E h) = riscv_deliver_interrupt (upd_cpu (\<lambda>c. c\<lparr>wait := False\<rparr>) (riscv_sync_timer E h))"
proof -
  have "MipAll (rs (riscv_sync_timer E h)) AND mie (rs (riscv_sync_timer E h)) \<noteq> 0"
    using assms(2) by (auto simp: irq_ready_def)
  then show ?thesis using assms(1) by (simp add: step_enter_def Let_def)
qed

lemma sync_timer_rs:
  "\<exists>x. riscv_sync_timer E h = upd_rs (\<lambda>s. s\<lparr>ext_irq := x\<rparr>) h \<and> (\<forall>k. k \<noteq> 5 \<longrightarrow> bit x k = bit (ext_irq (rs h)) k)"
proof -
  obtain es where es: "riscv_sync_timer E h = apply_events es h" "list_all (is_line [kIrqStip]) es"
  proof (cases "case e_timer E of None \<Rightarrow> False | Some now \<Rightarrow> stimecmp (rs h) \<noteq> NOT 0")
    case False
    then show thesis using that [of "[]"] by (auto simp: riscv_sync_timer_def apply_events_def split: option.splits if_splits)
  next
    case True
    then obtain now where "riscv_sync_timer E h = apply_events [SetIrq kIrqStip (stimecmp (rs h) \<le> now (devs h))] h"
      by (auto simp: riscv_sync_timer_def apply_events_def apply_event_def split: option.splits)
    then show thesis using that [of "[SetIrq kIrqStip (stimecmp (rs h) \<le> now (devs h))]"] by simp
  qed
  show ?thesis using apply_lines [OF es(2), of h] lines_off(1) unfolding es(1) by metis
qed

lemma not_delegated: "rs_ok s \<Longrightarrow> i \<in> {11, 3, 7} \<Longrightarrow> \<not> bit (mideleg s) i"
proof
  assume a: "rs_ok s" "i \<in> {11, 3, 7}" "bit (mideleg s) i"
  then have "bit (mideleg s AND NOT kMidelegWmask) i" by (auto simp: bit_and_iff bit_not_iff bit_simps)
  then show False using a(1) by (simp add: rs_ok_def)
qed

lemma trap_machine:
  assumes "rs_ok s" "i \<in> {11, 3, 7}"
  shows "snd (riscv_trap p (kIntBit OR of_nat i) 0 s) =
    s\<lparr>mepc := p, mcause := kIntBit OR of_nat i, mtval := 0, mstatus := mstatus_trap_m (mstatus s) (priv s), priv := kPrivMachine\<rparr>"
proof -
  have "\<not> trap_to_s s (kIntBit OR of_nat i)"
    using not_delegated [OF assms] assms(2) by (auto simp: trap_to_s_def drop_bit_and_1)
  then show ?thesis by (simp add: riscv_trap_def)
qed

lemma irq_ready_cong:
  assumes "s' = s\<lparr>ext_irq := x\<rparr>"
  shows "irq_ready s' i \<longleftrightarrow> (bit (mip s) i \<or> bit x i) \<and> bit (mie s) i \<and> irq_take s i"
  by (simp add: assms irq_ready_def MipAll_def irq_take_def bit_or_iff bit_and_iff)

text \<open>
  A board event that leaves interrupt \<open>i\<close> pending makes the next step that looks at interrupts enter a trap handler for
  the first one that is ready.
\<close>

lemma board_enters:
  assumes "g = upd_rs (\<lambda>s. s\<lparr>ext_irq := x\<rparr>) (h\<lparr>devs := vm\<rparr>)" "step_boundary h" "bit x i" "i \<noteq> 5" "bit (mie (rs h)) i"
    "irq_take (rs h) i"
  obtains s where "s = (rs h)\<lparr>ext_irq := ext_irq s\<rparr>" "irq_ready s i"
    "\<And>j. List.find (irq_ready s) irq_order = Some j \<Longrightarrow>
      rs (fst (step_enter E g)) = snd (riscv_trap (pc (cpu h)) (kIntBit OR of_nat j) 0 s)"
proof -
  obtain y where y: "riscv_sync_timer E g = upd_rs (\<lambda>s. s\<lparr>ext_irq := y\<rparr>) g" "bit y i"
    using sync_timer_rs [of E g] assms(3,4) by (auto simp: assms(1))
  define s where "s = (rs h)\<lparr>ext_irq := y\<rparr>"
  define k where "k = riscv_sync_timer E g"
  have k: "rs k = s" "pc (cpu k) = pc (cpu h)" unfolding k_def y(1) by (simp_all add: assms(1) s_def)
  have r: "irq_ready s i" using assms(5,6) y(2) by (simp add: irq_ready_cong [OF s_def])
  have sb: "step_boundary g" using assms(2) by (simp add: assms(1) step_boundary_def)
  have e: "fst (step_enter E g) = riscv_deliver_interrupt (upd_cpu (\<lambda>c. c\<lparr>wait := False\<rparr>) k)"
    unfolding k_def by (rule step_enter_takes [OF sb]) (use r k in \<open>simp add: k_def\<close>)
  show thesis by (rule that [of s]) (use r in \<open>simp_all add: s_def e riscv_deliver_find k [unfolded s_def]\<close>)
qed


section \<open>The serial port\<close>

lemma data_ready: "((y OR 1) OR 0x60) AND (1 :: u8) \<noteq> 0"
proof -
  have "odd ((y OR 1) OR 0x60)" by (simp add: even_or_iff)
  then show ?thesis by (simp add: and_one_eq odd_iff_mod_2_eq_one)
qed

lemma receive_raises:
  assumes "ua_sink u" "mcr u AND 0x10 = 0" "fcr u AND 1 = 0" "ier u AND 1 \<noteq> 0" "rx_count u < 16"
  shows "snd (Uart16550Receive now u ch) = [(0, True)]"
  using assms
  by (simp add: Uart16550Receive_def PushRx_def UpdateIrq_def RefreshLsr_def uart_source_def drive_def Let_def data_ready)

lemma receive_content:
  assumes "rx_ok u" "mcr u AND 0x10 = 0" "rx_count u < 16" "Uart16550Receive now u ch = (u', cs)"
  shows "rx_content u' = rx_content u @ [ch]"
proof -
  have u': "u' = uart_receive now ch u" using assms(4) by (simp add: uart_receive_def)
  have "rx_head u = (rx_tail u + rx_count u) mod 16" "rx_tail u < 16" using assms(1) by (simp_all add: rx_ok_def)
  then show ?thesis using assms(3) ring_push [of "rx_count u" 16 "rx_tail u" "rx_fifo u" ch]
    unfolding u' rx_content_def by (simp add: receive_fields [OF assms(2)])
qed

text \<open>The source of the serial port at the interrupt controller.\<close>

lemma plic_uart:
  assumes "pl_sink p" "bit (enable p 1 0) 10" "threshold p 1 < priority p 10"
  shows "\<exists>c. PlicDeviceIrq p 10 True = (p\<lparr>pending := (pending p)(0 := pending p 0 OR src_bit 10)\<rparr>, [(0, c), (1, True)]) \<and>
    claimable (p\<lparr>pending := (pending p)(0 := pending p 0 OR src_bit 10)\<rparr>) 1 10"
proof -
  define p1 where "p1 = p\<lparr>pending := (pending p)(0 := pending p 0 OR src_bit 10)\<rparr>"
  have c: "claimable p1 1 10"
    using assms(2,3) by (simp add: claimable_bits p1_def bit_or_iff src_bit_def bit_push_bit_iff)
  then have l: "list_ex (claimable p1 1) [1..<96]" unfolding list_ex_iff by (intro bexI [of _ 10]) simp_all
  have u: "[0..<2] = [0, 1 :: nat]" by (simp add: upt_rec)
  have "UpdateOutput p1 = [(0, list_ex (claimable p1 0) [1..<96]), (1, True)]"
    using assms(1) l unfolding UpdateOutput_def drive_def u by (simp add: p1_def)
  then show ?thesis using c unfolding p1_def [symmetric] PlicDeviceIrq_def Let_def
    by (simp add: p1_def)
qed


section \<open>Concrete boards\<close>

definition board0 :: "unit VirtBoard" where
  "board0 = \<lparr>vb_clock = clock0, vb_mem = (\<lambda>_ _. 0), vb_ram_size = 0x8000000, vb_clint = zero_clint\<lparr>cl_sink := True\<rparr>,
     vb_plic = plic0, vb_uart = uart0\<lparr>ier := 1\<rparr>, vb_blk = None, vb_con = con_new 2, vb_kbd = input_new kVirtioInputKeyboard 3,
     vb_tablet = input_new kVirtioInputTablet 4, vb_fb = zero_fb, vb_px = 0, vb_py = 0, vb_out = []\<rparr>"

lemma poll_board0: "\<exists>vm es. VirtPoll b board0 = Some (vm, es)"
proof -
  have 1: "con_count (con_new 2) = 0" "last_tx_poll_us (con_new 2) = 0" "pending_count (input_new t i) = 0" for t i
    by (simp_all add: con_new_def input_new_def set_manual_def upd_queue_def VirtioInit_def TransportReset_def)
  have u: "Uart16550Poll 0 (uart0\<lparr>ier := 1\<rparr>) = (uart0\<lparr>ier := 1\<rparr>, [])" by (simp add: Uart16550Poll_def uart0_value)
  show ?thesis
    by (simp add: VirtPoll_def poll_uart_def poll_con_def poll_kbd_def poll_tablet_def uart_done_def virtio_done_def virtio_world_def
        VirtioConsolePoll_def VirtioInputPoll_def set_con_def set_kbd_def set_tablet_def)
      (simp add: board0_def now_us_def clock0_def HostTimerIcountEnable_def HostTimerNow_def u 1)
qed

definition irq_hart :: "RiscvState \<Rightarrow> unit VirtBoard hart" where
  "irq_hart s = (virt_hart ram_bus board0)\<lparr>rs := s\<rparr>"

lemma irq_hart_simps [simp]: "devs (irq_hart s) = board0" "rs (irq_hart s) = s" "pc (cpu (irq_hart s)) = 0x1000"
  "step_boundary (irq_hart s)" "hart_ok (irq_hart s) = rs_ok s"
  by (simp_all add: irq_hart_def virt_hart_def step_boundary_def hart_ok_def bus_ok_ram_bus)



end
