(* ===== verification/Run.thy ===== *)
theory Run
  imports VirtIrq
begin

text \<open>
  The run loop (src/src/board/run.c, \<open>BoardRunSteps\<close>).  The calls through the
  pointers of the board, the processor model and the host are the fields of a
  record, so the loop is the same for every board; \<open>virt_hooks\<close> fills them in
  for the virt board.  The loop need not end, so it is a
  \<open>partial_function (option)\<close>: \<open>None\<close> is a run that never returns or that
  reaches a \<open>Fatal\<close> error.
\<close>

unbundle bit_operations_syntax

section \<open>The loop\<close>

text \<open>
  \<open>hk_input\<close> is the delivery of host input and of synthetic events to the
  sinks of the board, \<open>hk_closed\<close> says that an attached window was closed,
  \<open>hk_warp\<close> and \<open>hk_sleep\<close> are \<open>HostTimerWarp\<close> and \<open>HostSleepMs(1)\<close>, and
  \<open>hk_stop\<close> is the observer of the debugger stub.
\<close>

record 'd hooks =
  hk_step :: "'d hart \<Rightarrow> 'd hart option"
  hk_poll :: "('d hart \<Rightarrow> 'd hart option) option"
  hk_input :: "'d hart \<Rightarrow> 'd hart"
  hk_closed :: "'d hart \<Rightarrow> bool"
  hk_skip_idle :: "'d hart \<Rightarrow> bool"
  hk_next_event :: "('d hart \<Rightarrow> int) option"
  hk_warp :: "int \<Rightarrow> 'd hart \<Rightarrow> 'd hart"
  hk_sleep :: "'d hart \<Rightarrow> 'd hart"
  hk_advance :: "'d hart \<Rightarrow> 'd hart"
  hk_reset_pending :: "'d hart \<Rightarrow> bool"
  hk_reset_clear :: "'d hart \<Rightarrow> 'd hart"
  hk_reset :: "('d hart \<Rightarrow> 'd hart) option"
  hk_stop :: "('d hart \<Rightarrow> bool \<times> 'd hart) option"

text \<open>Servicing of the host side every 1024 instructions and while the processor sleeps.\<close>

definition run_service :: "'d hooks \<Rightarrow> 'd hart \<Rightarrow> 'd hart option" where
  "run_service K h =
     (if inst_count (cpu h) AND 0x3ff = 0 \<or> wait (cpu h)
      then map_option (hk_input K) (case hk_poll K of None \<Rightarrow> Some h | Some p \<Rightarrow> p h)
      else Some h)"

definition serviced :: "'d hart \<Rightarrow> bool" where
  "serviced h \<longleftrightarrow> inst_count (cpu h) AND 0x3ff = 0 \<or> wait (cpu h)"

definition run_idle :: "'d hooks \<Rightarrow> 'd hart \<Rightarrow> 'd hart" where
  "run_idle K h =
     (if \<not> wait (cpu h) then h
      else let wake = (if hk_skip_idle K h then (case hk_next_event K of None \<Rightarrow> 0 | Some f \<Rightarrow> f h) else 0) in
        if 0 < wake then hk_warp K wake h else hk_sleep K h)"

definition run_stop :: "'d hooks \<Rightarrow> 'd hart \<Rightarrow> bool \<times> 'd hart" where
  "run_stop K h = (case hk_stop K of None \<Rightarrow> (False, h) | Some f \<Rightarrow> f h)"

text \<open>One round of the loop: \<open>Done\<close> returns from the function, \<open>Again\<close> goes round.\<close>

datatype 'd round = Done bool "'d hart" | Again "'d hart"

definition run_retire :: "'d hooks \<Rightarrow> u64 \<Rightarrow> 'd hart \<Rightarrow> 'd round" where
  "run_retire K max_inst h =
     (let h1 = hk_advance K (upd_cpu (\<lambda>c. c\<lparr>inst_count := inst_count c + 1\<rparr>) h) in
      if hk_reset_pending K h1 then
        (let h2 = hk_reset_clear K h1 in Again (case hk_reset K of None \<Rightarrow> h2 | Some f \<Rightarrow> f h2))
      else case run_stop K h1 of (stop, h2) \<Rightarrow>
        if stop then Done True h2
        else if max_inst \<noteq> 0 \<and> max_inst \<le> inst_count (cpu h2) then Done False h2
        else Again h2)"

definition run_round :: "'d hooks \<Rightarrow> u64 \<Rightarrow> 'd hart \<Rightarrow> 'd round option" where
  "run_round K max_inst h =
     (if halted (cpu h) then Some (Done False h)
      else Option.bind (run_service K h) (\<lambda>h1.
        if serviced h \<and> hk_closed K h1 then Some (Done False (upd_cpu (\<lambda>c. c\<lparr>halted := True\<rparr>) h1))
        else Option.bind (hk_step K (run_idle K h1)) (\<lambda>h2.
          if wait (cpu h1) \<and> wait (cpu h2)
          then (case run_stop K h2 of (stop, h3) \<Rightarrow> Some (if stop then Done True h3 else Again h3))
          else Some (run_retire K max_inst h2))))"

partial_function (option) BoardRunSteps :: "'d hooks \<Rightarrow> u64 \<Rightarrow> 'd hart \<Rightarrow> (bool \<times> 'd hart) option" where
  "BoardRunSteps K max_inst h =
     Option.bind (run_round K max_inst h) (\<lambda>r. case r of Done stop h' \<Rightarrow> Some (stop, h') | Again h' \<Rightarrow> BoardRunSteps K max_inst h')"

section \<open>The virt board in the loop\<close>

definition on_devs :: "('d \<Rightarrow> 'd \<times> cpu_event list) \<Rightarrow> 'd hart \<Rightarrow> 'd hart" where
  "on_devs f h = (case f (devs h) of (d, es) \<Rightarrow> apply_events es (h\<lparr>devs := d\<rparr>))"

text \<open>
  The bytes that host input delivers in one round are \<open>input\<close> of the state;
  the board has no reset facility and names no next event.
\<close>

definition virt_hooks :: "'f file_ops \<Rightarrow> 'l host_fp \<Rightarrow> Bus \<Rightarrow> ('f VirtBoard hart \<Rightarrow> u8 list) \<Rightarrow> bool \<Rightarrow> 'f VirtBoard hooks" where
  "virt_hooks F fp b input skip =
     \<lparr>hk_step = (\<lambda>h. case riscv_step (virt_env F fp b) h of Ok _ h' \<Rightarrow> Some h' | _ \<Rightarrow> None),
      hk_poll = Some (\<lambda>h. map_option (\<lambda>(vm, es). apply_events es (h\<lparr>devs := vm\<rparr>)) (VirtPoll b (devs h))),
      hk_input = (\<lambda>h. fold (\<lambda>ch. on_devs (OnHostSerial ch)) (input h) h),
      hk_closed = (\<lambda>_. False),
      hk_skip_idle = (\<lambda>h. skip \<or> HostTimerIcountOn (vb_clock (devs h))), hk_next_event = None,
      hk_warp = (\<lambda>us h. h\<lparr>devs := (devs h)\<lparr>vb_clock := HostTimerWarp us (vb_clock (devs h))\<rparr>\<rparr>),
      hk_sleep = (\<lambda>h. h\<lparr>devs := (devs h)\<lparr>vb_clock := HostSleepMs 1000 1 (vb_clock (devs h))\<rparr>\<rparr>),
      hk_advance = (\<lambda>h. h\<lparr>devs := (devs h)\<lparr>vb_clock := HostTimerIcountAdvance (vb_clock (devs h))\<rparr>\<rparr>),
      hk_reset_pending = (\<lambda>_. False), hk_reset_clear = (\<lambda>h. h), hk_reset = None, hk_stop = None\<rparr>"

section \<open>The instruction limit ends a run\<close>

lemma round_awake:
  assumes "\<not> wait (cpu h)" "\<not> halted (cpu h)" "run_service K h = Some h1" "\<not> wait (cpu h1)" "\<not> hk_closed K h1" "hk_step K h1 = Some h2"
  shows "run_round K n h = Some (run_retire K n h2)"
  using assms by (simp add: run_round_def run_idle_def)


text \<open>A processor with nothing on its bus takes a fetch fault at every step.\<close>

definition lost :: "'d hart \<Rightarrow> bool" where
  "lost h \<longleftrightarrow> bus h = empty_bus \<and> \<not> wait (cpu h) \<and> \<not> halted (cpu h) \<and> priv (rs h) = kPrivMachine \<and> pmpcfg (rs h) = (\<lambda>_. 0) \<and>
     mie (rs h) = 0 \<and> (pc (cpu h) = 0 \<or> pc (cpu h) = 0x1000) \<and> mtvec (rs h) = 0 \<and> misa (rs h) = misa riscv_init \<and> stimecmp (rs h) = NOT 0"

lemma lost_body:
  assumes "lost h"
  shows "step_body E h = Raise \<lparr>t_cause = kExFetchFault, t_tval = pc (cpu h), t_paddr = Some (pc (cpu h))\<rparr> h"
proof -
  have "h\<lparr>bus := empty_bus\<rparr> = h" using assms by (cases h) (simp add: lost_def)
  moreover have "pc (cpu h) AND 1 = 0" "pc (cpu h) AND 3 = 0" using assms by (auto simp: lost_def)
  ultimately show ?thesis using assms
    by (simp add: lost_def step_body_def fetch_def andthen_def hprog_defs reads_def Let_def riscv_mem_load_def ret_def RiscvTranslate_def
        eff_priv_def pmp_off ram_page_def ram_page_empty slow_load_def bus_probe_def BusProbe_def raise_paddr_def fault_cause_def find_empty)
qed

lemma lost_step:
  assumes "lost h"
  shows "\<exists>h'. riscv_step E h = Ok () h' \<and> lost h' \<and> inst_count (cpu h') = inst_count (cpu h)"
proof -
  have t: "riscv_sync_timer E h = h" using assms by (simp add: riscv_sync_timer_def lost_def split: option.splits)
  have d: "riscv_deliver_interrupt h = h" using assms by (simp add: riscv_deliver_interrupt_def lost_def Let_def)
  have u: "upd_cpu (\<lambda>c. c\<lparr>wait := False\<rparr>) h = h" using assms by (simp add: lost_def upd_cpu_def)
  have e: "step_enter E h = (h, True)" using assms by (simp add: step_enter_def Let_def lost_def t d u)
  show ?thesis
    using assms lost_body [OF assms, of E]
    by (simp add: riscv_step_def e) (simp add: lost_def take_trap_def riscv_trap_def trap_to_s_def vector_base_def count_def)
qed

definition lost_hooks :: "(unit, unit) env \<Rightarrow> unit hooks" where
  "lost_hooks E = \<lparr>hk_step = (\<lambda>h. case riscv_step E h of Ok _ h' \<Rightarrow> Some h' | _ \<Rightarrow> None), hk_poll = None, hk_input = (\<lambda>h. h),
     hk_closed = (\<lambda>_. False), hk_skip_idle = (\<lambda>_. False), hk_next_event = None, hk_warp = (\<lambda>_ h. h), hk_sleep = (\<lambda>h. h),
     hk_advance = (\<lambda>h. h), hk_reset_pending = (\<lambda>_. False), hk_reset_clear = (\<lambda>h. h), hk_reset = None, hk_stop = None\<rparr>"


section \<open>The loop runs the board\<close>

text \<open>Each part of a round is a sequence of steps of the machine.\<close>

lemma virt_input_steps: "(virt_step F fp b)\<^sup>*\<^sup>* h (fold (\<lambda>ch. on_devs (OnHostSerial ch)) cs h)"
proof (induction cs arbitrary: h)
  case (Cons c cs)
  have "virt_step F fp b h (on_devs (OnHostSerial c) h)"
    by (auto simp: on_devs_def split: prod.splits intro: virt_step.serial)
  then show ?case using Cons [of "on_devs (OnHostSerial c) h"] by (simp add: converse_rtranclp_into_rtranclp)
qed simp

lemma virt_service_steps:
  assumes "run_service (virt_hooks F fp b input skip) h = Some h'"
  shows "(virt_step F fp b)\<^sup>*\<^sup>* h h'"
proof (cases "serviced h")
  case True
  then obtain vm es where p: "VirtPoll b (devs h) = Some (vm, es)"
    and h': "h' = fold (\<lambda>ch. on_devs (OnHostSerial ch)) (input (apply_events es (h\<lparr>devs := vm\<rparr>))) (apply_events es (h\<lparr>devs := vm\<rparr>))"
    using assms by (auto simp: run_service_def serviced_def virt_hooks_def)
  show ?thesis unfolding h' by (rule converse_rtranclp_into_rtranclp [where r = "virt_step F fp b", OF virt_step.poll [OF p] virt_input_steps])
next
  case False
  then show ?thesis using assms by (simp add: run_service_def serviced_def)
qed

lemma virt_clock_steps:
  "(virt_step F fp b)\<^sup>*\<^sup>* h (run_idle (virt_hooks F fp b input skip) h)"
  "virt_step F fp b h (hk_advance (virt_hooks F fp b input skip) h)"
proof -
  have t: "clock_step (vb_clock (devs h)) c \<Longrightarrow> (virt_step F fp b)\<^sup>*\<^sup>* h (h\<lparr>devs := (devs h)\<lparr>vb_clock := c\<rparr>\<rparr>)" for c
    by (rule r_into_rtranclp) (rule virt_step.time)
  show "(virt_step F fp b)\<^sup>*\<^sup>* h (run_idle (virt_hooks F fp b input skip) h)"
    by (auto simp: run_idle_def virt_hooks_def Let_def intro!: t clock_step.sleep)
  show "virt_step F fp b h (hk_advance (virt_hooks F fp b input skip) h)"
    by (simp add: virt_hooks_def) (rule virt_step.time, rule clock_step.retire)
qed

lemma virt_retire_steps:
  assumes "run_retire (virt_hooks F fp b input skip) n h = r" "r = Done stop h' \<or> r = Again h'"
  shows "(virt_step F fp b)\<^sup>*\<^sup>* h h'" and "r = Done stop h' \<Longrightarrow> \<not> stop \<and> n \<noteq> 0 \<and> n \<le> inst_count (cpu h')"
proof -
  have h': "h' = hk_advance (virt_hooks F fp b input skip) (upd_cpu (\<lambda>c. c\<lparr>inst_count := inst_count c + 1\<rparr>) h)"
    using assms by (auto simp: run_retire_def Let_def run_stop_def virt_hooks_def split: if_splits)
  show "(virt_step F fp b)\<^sup>*\<^sup>* h h'" unfolding h'
    by (rule converse_rtranclp_into_rtranclp [where r = "virt_step F fp b", OF virt_step.retire]) (rule r_into_rtranclp, rule virt_clock_steps(2))
  show "r = Done stop h' \<Longrightarrow> \<not> stop \<and> n \<noteq> 0 \<and> n \<le> inst_count (cpu h')"
    using assms(1) by (auto simp: run_retire_def Let_def run_stop_def virt_hooks_def split: if_splits)
qed

lemma virt_round_steps:
  assumes "run_round (virt_hooks F fp b input skip) n h = Some r" "r = Done stop h' \<or> r = Again h'"
  shows "(virt_step F fp b)\<^sup>*\<^sup>* h h' \<and> (r = Done stop h' \<longrightarrow> \<not> stop \<and> (halted (cpu h') \<or> n \<noteq> 0 \<and> n \<le> inst_count (cpu h')))"
proof (cases "halted (cpu h)")
  case True
  then show ?thesis using assms by (auto simp: run_round_def)
next
  case False
  let ?K = "virt_hooks F fp b input skip"
  obtain h1 h2 where h1: "run_service ?K h = Some h1" and h2: "hk_step ?K (run_idle ?K h1) = Some h2"
    and r: "r = (if wait (cpu h1) \<and> wait (cpu h2) then Again h2 else run_retire ?K n h2)"
    using assms(1) False
    by (auto simp: run_round_def bind_eq_Some_conv run_stop_def split: if_splits) (auto simp: virt_hooks_def)
  have "riscv_step (virt_env F fp b) (run_idle ?K h1) = Ok () h2"
    using h2 by (auto simp: virt_hooks_def split: outcome.splits)
  then have s: "(virt_step F fp b)\<^sup>*\<^sup>* h h2"
    by (meson virt_service_steps [OF h1] virt_clock_steps(1) virt_step.step rtranclp.rtrancl_into_rtrancl rtranclp_trans)
  show ?thesis
  proof (cases "wait (cpu h1) \<and> wait (cpu h2)")
    case True
    then show ?thesis using s r assms(2) by auto
  next
    case False
    then show ?thesis using s virt_retire_steps [OF _ assms(2), of F fp b input skip n h2] r by (auto intro: rtranclp_trans)
  qed
qed

text \<open>
  C5. The run loop implements the steps of the machine: when it returns on the virt board, the final state is reached
  from the initial one by processor steps, polls, host input and clock advances only, and the loop stopped because the
  processor halted or the instruction limit was reached.
\<close>

theorem virt_loop_refines:
  assumes "BoardRunSteps (virt_hooks F fp b input skip) n h = Some (stop, h')"
  shows "(virt_step F fp b)\<^sup>*\<^sup>* h h' \<and> \<not> stop \<and> (halted (cpu h') \<or> n \<noteq> 0 \<and> n \<le> inst_count (cpu h'))"
proof -
  let ?K = "virt_hooks F fp b input skip"
  let ?Q = "\<lambda>h stop h'. (virt_step F fp b)\<^sup>*\<^sup>* h h' \<and> \<not> stop \<and> (halted (cpu h') \<or> n \<noteq> 0 \<and> n \<le> inst_count (cpu h'))"
  from assms have "?K = ?K \<longrightarrow> n = n \<longrightarrow> ?Q h (fst (stop, h')) (snd (stop, h'))"
  proof (rule BoardRunSteps.raw_induct [where P = "\<lambda>L m h r. L = ?K \<longrightarrow> m = n \<longrightarrow> ?Q h (fst r) (snd r)", rotated])
    fix f L m and h :: "'a VirtBoard hart" and res
    assume IH: "\<And>L m h r. f L m h = Some r \<Longrightarrow> L = ?K \<longrightarrow> m = n \<longrightarrow> ?Q h (fst r) (snd r)"
      and eq: "Option.bind (run_round L m h) (\<lambda>r. case r of Done stop h' \<Rightarrow> Some (stop, h') | Again h' \<Rightarrow> f L m h') = Some res"
    show "L = ?K \<longrightarrow> m = n \<longrightarrow> ?Q h (fst res) (snd res)"
    proof (intro impI)
      assume L: "L = ?K" "m = n"
      obtain r where r: "run_round ?K n h = Some r" using eq L by (auto simp: bind_eq_Some_conv)
      show "?Q h (fst res) (snd res)"
      proof (cases r)
        case (Done stop h1)
        then show ?thesis using eq L r virt_round_steps [OF r, of stop h1] by auto
      next
        case (Again h1)
        then show ?thesis using eq L r virt_round_steps [OF r, of False h1] IH [of ?K n h1 res] by (auto intro: rtranclp_trans)
      qed
    qed
  qed
  then show ?thesis by simp
qed

text \<open>A virt machine with nothing on its bus, for one instruction.\<close>

theorem virt_loop_refines_witness:
  "\<forall>(F :: unit file_ops) (fp :: unit host_fp). let h = virt_hart empty_bus board0 in
     \<exists>h'. BoardRunSteps (virt_hooks F fp ram_bus (\<lambda>_. []) False) 1 h = Some (False, h') \<and> (virt_step F fp ram_bus)\<^sup>*\<^sup>* h h' \<and>
       1 \<le> inst_count (cpu h')"
proof (intro allI)
  fix F :: "unit file_ops" and fp :: "unit host_fp"
  let ?h = "virt_hart empty_bus board0" and ?K = "virt_hooks F fp ram_bus (\<lambda>_. []) False"
  obtain vm es where p: "VirtPoll ram_bus board0 = Some (vm, es)" using poll_board0 [of ram_bus] by auto
  obtain es' where es: "es = SetIrq kIrqMtip (mtimecmp (vb_clint board0) \<le> ReadTime board0) # es'" "external es'"
    by (rule VirtPoll_events [OF p]) (simp add: board0_def)
  define h1 where "h1 = apply_events es (?h\<lparr>devs := vm\<rparr>)"
  have "list_all (is_line [kIrqMtip, kIrqMeip, kIrqSeip]) es"
    using es by (auto simp: list_all_iff elim!: ballE) (metis is_line.elims(2) is_line.simps(1) list.set_intros(2))
  from apply_lines [OF this, of "?h\<lparr>devs := vm\<rparr>"]
  obtain x where h1: "h1 = upd_rs (\<lambda>s. s\<lparr>ext_irq := x\<rparr>) (?h\<lparr>devs := vm\<rparr>)" by (auto simp: h1_def)
  have l: "lost h1" by (simp add: h1 lost_def virt_hart_def riscv_init_def)
  obtain h2 where h2: "riscv_step (virt_env F fp ram_bus) h1 = Ok () h2" "lost h2" "inst_count (cpu h2) = inst_count (cpu h1)"
    using lost_step [OF l] by blast
  have c: "inst_count (cpu h1) = 0" "\<not> wait (cpu h1)" using l by (simp_all add: h1 virt_hart_def)
  have s: "run_service ?K ?h = Some h1" using p by (simp add: run_service_def virt_hooks_def virt_hart_def h1_def)
  have "run_round ?K 1 ?h = Some (run_retire ?K 1 h2)"
    using round_awake [OF _ _ s, of h2 1] h2 c by (simp add: virt_hart_def) (simp add: virt_hooks_def)
  then have r: "\<exists>h'. BoardRunSteps ?K 1 ?h = Some (False, h')"
    using h2(3) c by (subst BoardRunSteps.simps) (simp add: run_retire_def run_stop_def virt_hooks_def)
  then obtain h' where h': "BoardRunSteps ?K 1 ?h = Some (False, h')" by blast
  from virt_loop_refines [OF h'] have "(virt_step F fp ram_bus)\<^sup>*\<^sup>* ?h h'" "halted (cpu h') \<or> 1 \<le> inst_count (cpu h')" by auto
  moreover have "1 \<le> inst_count (cpu h')"
    using h' \<open>run_round ?K 1 ?h = Some (run_retire ?K 1 h2)\<close> h2(3) c
    by (subst (asm) BoardRunSteps.simps) (auto simp: run_retire_def run_stop_def virt_hooks_def)
  ultimately show "let h = ?h in \<exists>h'. BoardRunSteps ?K 1 h = Some (False, h') \<and> (virt_step F fp ram_bus)\<^sup>*\<^sup>* h h' \<and>
       1 \<le> inst_count (cpu h')" using h' unfolding Let_def by blast
qed

end
