(* ===== verification/Elf.thy ===== *)
theory Elf
  imports VirtioDev
begin

text \<open>
  Image loading (src/src/board/elf.c and loader.c).  The file is the list of
  its bytes; a read past its end is undefined behaviour, as is a copy past the
  end of a host block.  The state is host memory, the result \<open>None\<close> the error
  return.  The table of processor models is a parameter of the loader.
\<close>

unbundle bit_operations_syntax

section \<open>Reading the file\<close>

definition rd_le :: "nat \<Rightarrow> u8 list \<Rightarrow> nat \<Rightarrow> ('s, u64) prog" where
  "rd_le n d off = (if off + n \<le> length d then ret (le_value (take n (drop off d))) else undef)"

definition Rd16 :: "u8 list \<Rightarrow> nat \<Rightarrow> ('s, u16) prog" where
  "Rd16 d off = andthen (rd_le 2 d off) (\<lambda>v. ret (ucast v))"

definition Rd32 :: "u8 list \<Rightarrow> nat \<Rightarrow> ('s, u64) prog" where
  "Rd32 d off = rd_le 4 d off"

definition Rd64 :: "u8 list \<Rightarrow> nat \<Rightarrow> ('s, u64) prog" where
  "Rd64 d off = rd_le 8 d off"

text \<open>\<open>strcmp\<close> with a name, byte by byte up to the first difference.\<close>

fun NameIs :: "u8 list \<Rightarrow> nat \<Rightarrow> u8 list \<Rightarrow> ('s, bool) prog" where
  "NameIs d off [] = (if off < length d then ret (d ! off = 0) else undef)"
| "NameIs d off (c # cs) = (if off < length d then (if d ! off = c then NameIs d (off + 1) cs else ret False) else undef)"

record ElfInfo =
  ei_entry :: u64
  ei_base :: u64
  ei_machine :: u16
  ei_is64 :: bool
  ei_has_tohost :: bool
  ei_tohost :: u64
  ei_fromhost :: u64

section \<open>The symbols of the host-target interface\<close>

text \<open>
  The two functions of the code differ in the layout of headers and symbols:
  where a section header has its offset, size, entry size and link, and where
  a symbol has its value.
\<close>

record layout =
  l_off :: nat
  l_size :: nat
  l_ent :: nat
  l_link :: nat
  l_wide :: bool
  l_sym :: nat
  l_val :: nat

definition rd_word :: "layout \<Rightarrow> u8 list \<Rightarrow> nat \<Rightarrow> ('s, u64) prog" where
  "rd_word L d off = (if l_wide L then Rd64 d off else Rd32 d off)"

text \<open>The loop over the section headers: symbol table, string table and number of symbols, all of the last match.\<close>

definition shdr :: "layout \<Rightarrow> u8 list \<Rightarrow> nat \<Rightarrow> nat \<Rightarrow> nat \<Rightarrow> nat \<Rightarrow> (nat \<times> nat \<times> nat) option \<Rightarrow> ('s, (nat \<times> nat \<times> nat) option) prog" where
  "shdr L d shoff shentsize shstr i found =
     (let sh = shoff + i * shentsize in
      andthen (Rd32 d (sh + 4)) (\<lambda>ty. andthen (Rd32 d sh) (\<lambda>name_off.
      andthen (rd_word L d (sh + l_off L)) (\<lambda>offset. andthen (rd_word L d (sh + l_size L)) (\<lambda>shsize.
      andthen (rd_word L d (sh + l_ent L)) (\<lambda>entsize.
      andthen (if ty = 2 then NameIs d (shstr + unat name_off) (ascii ''.symtab'') else ret False) (\<lambda>is_symtab.
      if \<not> is_symtab then ret found
      else andthen (Rd32 d (sh + l_link L)) (\<lambda>link.
        andthen (rd_word L d (shoff + unat link * shentsize + l_off L)) (\<lambda>stroff.
        ret (Some (unat offset, unat stroff, if entsize = 0 then 0 else unat (shsize div entsize))))))))))))"

fun shdrs :: "layout \<Rightarrow> u8 list \<Rightarrow> nat \<Rightarrow> nat \<Rightarrow> nat \<Rightarrow> nat list \<Rightarrow> (nat \<times> nat \<times> nat) option \<Rightarrow> ('s, (nat \<times> nat \<times> nat) option) prog" where
  "shdrs L d shoff shentsize shstr [] found = ret found"
| "shdrs L d shoff shentsize shstr (i # is) found =
     andthen (shdr L d shoff shentsize shstr i found) (shdrs L d shoff shentsize shstr is)"

text \<open>The loop over the symbols.\<close>

fun symbols :: "layout \<Rightarrow> u8 list \<Rightarrow> nat \<Rightarrow> nat \<Rightarrow> nat \<Rightarrow> ElfInfo \<Rightarrow> ('s, ElfInfo) prog" where
  "symbols L d at strtab 0 info = ret info"
| "symbols L d at strtab (Suc n) info =
     andthen (Rd32 d at) (\<lambda>name_off. andthen (rd_word L d (at + l_val L)) (\<lambda>value.
     andthen (if name_off = 0 then ret info
       else andthen (NameIs d (strtab + unat name_off) (ascii ''tohost'')) (\<lambda>t.
         if t then ret (info\<lparr>ei_tohost := value, ei_has_tohost := True\<rparr>)
         else andthen (NameIs d (strtab + unat name_off) (ascii ''fromhost'')) (\<lambda>f.
           ret (if f then info\<lparr>ei_fromhost := value\<rparr> else info))))
       (symbols L d (at + l_sym L) strtab n)))"

definition find_symbols :: "layout \<Rightarrow> u8 list \<Rightarrow> u64 \<Rightarrow> u16 \<Rightarrow> u16 \<Rightarrow> u16 \<Rightarrow> ElfInfo \<Rightarrow> ('s, ElfInfo) prog" where
  "find_symbols L d shoff shentsize shnum shstrndx info =
     (if shoff = 0 \<or> shnum = 0 \<or> of_nat (length d) < shoff + ucast shnum * ucast shentsize then ret info
      else let hdr = unat shoff + unat shstrndx * unat shentsize in
        andthen (rd_word L d (hdr + l_off L)) (\<lambda>shstr_off. andthen (rd_word L d (hdr + l_size L)) (\<lambda>shstr_size.
        if of_nat (length d) < shstr_off + shstr_size then ret info
        else andthen (shdrs L d (unat shoff) (unat shentsize) (unat shstr_off) [0..<unat shnum] None) (\<lambda>found.
          case found of None \<Rightarrow> ret info
          | Some (symtab, strtab, count) \<Rightarrow> symbols L d symtab strtab count info))))"

definition FindHtifSymbols :: "u8 list \<Rightarrow> u64 \<Rightarrow> u16 \<Rightarrow> u16 \<Rightarrow> u16 \<Rightarrow> ElfInfo \<Rightarrow> ('s, ElfInfo) prog" where
  "FindHtifSymbols =
     find_symbols \<lparr>l_off = 24, l_size = 32, l_ent = 56, l_link = 40, l_wide = True, l_sym = 24, l_val = 8\<rparr>"

definition FindHtifSymbols32 :: "u8 list \<Rightarrow> u64 \<Rightarrow> u16 \<Rightarrow> u16 \<Rightarrow> u16 \<Rightarrow> ElfInfo \<Rightarrow> ('s, ElfInfo) prog" where
  "FindHtifSymbols32 =
     find_symbols \<lparr>l_off = 16, l_size = 20, l_ent = 36, l_link = 24, l_wide = False, l_sym = 16, l_val = 4\<rparr>"

section \<open>Segments\<close>

record phdr =
  p_type :: u64
  p_offset :: u64
  p_vaddr :: u64
  p_filesz :: u64
  p_memsz :: u64

definition read_phdr :: "bool \<Rightarrow> u8 list \<Rightarrow> nat \<Rightarrow> ('s, phdr) prog" where
  "read_phdr is64 d ph =
     (if is64 then
        andthen (Rd32 d ph) (\<lambda>t. andthen (Rd64 d (ph + 8)) (\<lambda>off. andthen (Rd64 d (ph + 16)) (\<lambda>va.
        andthen (Rd64 d (ph + 32)) (\<lambda>fs. andthen (Rd64 d (ph + 40)) (\<lambda>ms.
        ret \<lparr>p_type = t, p_offset = off, p_vaddr = va, p_filesz = fs, p_memsz = ms\<rparr>)))))
      else
        andthen (Rd32 d ph) (\<lambda>t. andthen (Rd32 d (ph + 4)) (\<lambda>off. andthen (Rd32 d (ph + 8)) (\<lambda>va.
        andthen (Rd32 d (ph + 16)) (\<lambda>fs. andthen (Rd32 d (ph + 20)) (\<lambda>ms.
        ret \<lparr>p_type = t, p_offset = off, p_vaddr = va, p_filesz = fs, p_memsz = ms\<rparr>))))))"

text \<open>\<open>memcpy\<close> and \<open>memset\<close> into a host block; \<open>bsz\<close> is the size of each block.\<close>

definition host_put :: "(nat \<Rightarrow> u64) \<Rightarrow> nat \<times> u64 \<Rightarrow> u8 list \<Rightarrow> (hmem, unit) prog" where
  "host_put bsz p bs = (\<lambda>m. if in_block (bsz (fst p)) (snd p) (length bs)
     then Ok () (m(fst p := put_bytes (m (fst p)) (snd p) bs)) else Undef)"

text \<open>The body of the loop: \<open>None\<close> is the error return, \<open>Some\<close> the new image base.\<close>

definition load_segment :: "(nat \<Rightarrow> u64) \<Rightarrow> Bus \<Rightarrow> u8 list \<Rightarrow> phdr \<Rightarrow> u64 \<Rightarrow> (hmem, u64 option) prog" where
  "load_segment bsz b d s base =
     (if p_type s \<noteq> 1 then ret (Some base)
      else let base1 = (if base = 0 \<or> p_vaddr s < base then p_vaddr s else base) in
        case BusRamRange b (p_vaddr s) (p_memsz s) of
          None \<Rightarrow> ret None
        | Some (h, off) \<Rightarrow>
            if of_nat (length d) < p_offset s + p_filesz s then ret None
            else if length d < unat (p_offset s) + unat (p_filesz s) then undef
            else andthen (host_put bsz (h, off) (take (unat (p_filesz s)) (drop (unat (p_offset s)) d))) (\<lambda>_.
              andthen (if p_filesz s < p_memsz s
                then host_put bsz (h, off + p_filesz s) (replicate (unat (p_memsz s - p_filesz s)) 0) else ret ()) (\<lambda>_.
              ret (Some base1))))"

fun load_segments :: "(nat \<Rightarrow> u64) \<Rightarrow> Bus \<Rightarrow> u8 list \<Rightarrow> bool \<Rightarrow> nat \<Rightarrow> nat \<Rightarrow> nat list \<Rightarrow> u64 \<Rightarrow> (hmem, u64 option) prog" where
  "load_segments bsz b d is64 phoff phentsize [] base = ret (Some base)"
| "load_segments bsz b d is64 phoff phentsize (i # is) base =
     andthen (read_phdr is64 d (phoff + i * phentsize)) (\<lambda>s.
     andthen (load_segment bsz b d s base) (\<lambda>r.
       case r of None \<Rightarrow> ret None | Some base1 \<Rightarrow> load_segments bsz b d is64 phoff phentsize is base1))"

definition ElfLoad :: "(nat \<Rightarrow> u64) \<Rightarrow> Bus \<Rightarrow> u8 list \<Rightarrow> (hmem, ElfInfo option) prog" where
  "ElfLoad bsz b d =
     (if length d < 64 \<or> take 4 d \<noteq> [0x7f, 0x45, 0x4c, 0x46] then ret None
      else if d ! 4 \<noteq> 1 \<and> d ! 4 \<noteq> 2 then ret None
      else let is64 = (d ! 4 = 2) in
        andthen (Rd16 d 18) (\<lambda>machine.
        andthen (if is64 then Rd64 d 24 else Rd32 d 24) (\<lambda>entry.
        andthen (if is64 then Rd64 d 32 else Rd32 d 28) (\<lambda>phoff.
        andthen (if is64 then Rd64 d 40 else Rd32 d 32) (\<lambda>shoff.
        andthen (Rd16 d (if is64 then 54 else 42)) (\<lambda>phentsize.
        andthen (Rd16 d (if is64 then 56 else 44)) (\<lambda>phnum.
        andthen (Rd16 d (if is64 then 58 else 46)) (\<lambda>shentsize.
        andthen (Rd16 d (if is64 then 60 else 48)) (\<lambda>shnum.
        andthen (Rd16 d (if is64 then 62 else 50)) (\<lambda>shstrndx.
        andthen (load_segments bsz b d is64 (unat phoff) (unat phentsize) [0..<unat phnum] 0) (\<lambda>r.
          case r of None \<Rightarrow> ret None
          | Some base \<Rightarrow>
              andthen ((if is64 then FindHtifSymbols else FindHtifSymbols32) d shoff shentsize shnum shstrndx
                \<lparr>ei_entry = entry, ei_base = base, ei_machine = machine, ei_is64 = is64, ei_has_tohost = False,
                 ei_tohost = 0, ei_fromhost = 0\<rparr>) (\<lambda>info. ret (Some info)))))))))))))"

section \<open>The loader\<close>

text \<open>What the loader reads of a processor model; its name and its machine number.\<close>

record isa_ops =
  isa_name :: string
  isa_machine :: u32
  isa_class :: nat

definition FindIsaByMachine :: "isa_ops list \<Rightarrow> u32 \<Rightarrow> nat \<Rightarrow> isa_ops option" where
  "FindIsaByMachine tab machine cls =
     List.find (\<lambda>p. isa_machine p = machine \<and> (isa_class p = 0 \<or> isa_class p = cls)) tab"

definition FindIsaByName :: "isa_ops list \<Rightarrow> string \<Rightarrow> isa_ops option" where
  "FindIsaByName tab name = List.find (\<lambda>p. isa_name p = name) tab"

definition PickIsa :: "isa_ops list \<Rightarrow> string option \<Rightarrow> (u32 \<times> nat) option \<Rightarrow> isa_ops option" where
  "PickIsa tab name elf =
     (case elf of
        Some (machine, cls) \<Rightarrow>
          Option.bind (FindIsaByMachine tab machine cls) (\<lambda>p. if name \<noteq> None \<and> name \<noteq> Some (isa_name p) then None else Some p)
      | None \<Rightarrow> FindIsaByName tab (case name of None \<Rightarrow> ''riscv64'' | Some n \<Rightarrow> n))"

record LoadResult =
  lr_isa :: isa_ops
  lr_entry :: u64
  lr_base :: u64
  lr_htif :: "(u64 \<times> u64) option"

text \<open>The file is \<open>None\<close> when it cannot be opened or read whole.\<close>

definition LoaderLoadImage ::
  "isa_ops list \<Rightarrow> (nat \<Rightarrow> u64) \<Rightarrow> Bus \<Rightarrow> u8 list option \<Rightarrow> string option \<Rightarrow> u64 \<Rightarrow> u64 \<Rightarrow> bool \<Rightarrow> (hmem, LoadResult option) prog" where
  "LoaderLoadImage tab bsz b file name bin_base bin_tohost bin_uses_htif =
     (case file of None \<Rightarrow> ret None
      | Some d \<Rightarrow>
          if d = [] then ret None
          else if take 4 d = [0x7f, 0x45, 0x4c, 0x46] then
            andthen (ElfLoad bsz b d) (\<lambda>r. case r of None \<Rightarrow> ret None
              | Some info \<Rightarrow> (case PickIsa tab name (Some (ucast (ei_machine info), if ei_is64 info then 2 else 1)) of
                  None \<Rightarrow> ret None
                | Some isa \<Rightarrow> ret (Some \<lparr>lr_isa = isa, lr_entry = ei_entry info, lr_base = ei_base info,
                    lr_htif = (if ei_has_tohost info then Some (ei_tohost info, ei_fromhost info) else None)\<rparr>)))
          else (case PickIsa tab name None of None \<Rightarrow> ret None
            | Some isa \<Rightarrow> (case BusRamRange b bin_base (of_nat (length d)) of
                None \<Rightarrow> ret None
              | Some p \<Rightarrow> andthen (host_put bsz p d) (\<lambda>_.
                  let t = (if bin_tohost \<noteq> 0 then bin_tohost else bin_base + 0x1000) in
                  ret (Some \<lparr>lr_isa = isa, lr_entry = bin_base, lr_base = bin_base,
                    lr_htif = (if bin_uses_htif then Some (t, t + 0x40) else None)\<rparr>)))))"

section \<open>What a successful load leaves in memory\<close>

lemma u64_lt: "unat (w :: u64) < 2 ^ 64"
  using unsigned_less [of w, where ?'a = nat] by simp

lemma put_bytes_at:
  assumes "length bs \<le> 2 ^ 64"
  shows "put_bytes f off bs a = (if unat (a - off) < length bs then bs ! unat (a - off) else f a)"
proof -
  have "foldl (\<lambda>g i. g(off + of_nat i := bs ! i)) f [0..<n] a = (if unat (a - off) < n then bs ! unat (a - off) else f a)"
    if "n \<le> length bs" for n
    using that
  proof (induction n)
    case (Suc n)
    have "a = off + of_nat n \<longleftrightarrow> a - off = of_nat n" by (auto simp: algebra_simps)
    also have "\<dots> \<longleftrightarrow> unat (a - off) = n" using Suc.prems assms by (auto simp: word_unat_eq_iff unat_of_nat take_bit_nat_eq_self)
    finally show ?case using Suc by (auto simp: less_Suc_eq)
  qed simp
  then show ?thesis by (simp add: put_bytes_def)
qed

text \<open>The abstract effect of a segment: its image, that is the bytes of the file and then zeros, replaces the range.\<close>

definition seg_byte :: "u8 list \<Rightarrow> phdr \<Rightarrow> nat \<Rightarrow> u8" where
  "seg_byte d s k = (if k < unat (p_filesz s) then d ! (unat (p_offset s) + k) else 0)"

definition place :: "Bus \<Rightarrow> u8 list \<Rightarrow> phdr \<Rightarrow> hmem \<Rightarrow> hmem" where
  "place b d s m = (if p_type s \<noteq> 1 then m else
     case BusRamRange b (p_vaddr s) (p_memsz s) of None \<Rightarrow> m
     | Some (h, off) \<Rightarrow> m(h := \<lambda>a. if unat (a - off) < unat (p_memsz s) then seg_byte d s (unat (a - off)) else m h a))"

definition fits :: "Bus \<Rightarrow> u8 list \<Rightarrow> phdr \<Rightarrow> bool" where
  "fits b d s \<longleftrightarrow> p_type s = 1 \<longrightarrow> BusRamRange b (p_vaddr s) (p_memsz s) \<noteq> None \<and> p_filesz s \<le> p_memsz s \<and>
     unat (p_vaddr s) + unat (p_memsz s) < 2 ^ 64 \<and> unat (p_offset s) + unat (p_filesz s) \<le> length d"

definition blocks_ok :: "(nat \<Rightarrow> u64) \<Rightarrow> Bus \<Rightarrow> bool" where
  "blocks_ok bsz b \<longleftrightarrow> (\<forall>r \<in> set (regions b). unat (r_base r) + unat (r_size r) < 2 ^ 64 \<and>
     (case r_host r of None \<Rightarrow> True | Some h \<Rightarrow> r_size r \<le> bsz h))"

lemma range_in_block:
  assumes "BusRamRange b a n = Some (h, off)" "blocks_ok bsz b" "unat a + unat n < 2 ^ 64"
  shows "unat off + unat n \<le> unat (bsz h)"
proof -
  obtain i where "i < length (regions b)" "r_host (regions b ! i) = Some h" "in_window (regions b ! i) a n" "off = a - r_base (regions b ! i)"
    using assms(1) by (auto simp: BusRamRange_def smallest_match_iff is_smallest_def split: option.splits)
  then obtain r where r: "r \<in> set (regions b)" "r_host r = Some h" "in_window r a n" "off = a - r_base r"
    using nth_mem by blast
  have ok: "unat (r_base r) + unat (r_size r) < 2 ^ 64" "unat (r_size r) \<le> unat (bsz h)"
    using assms(2) r(1,2) by (auto simp: blocks_ok_def word_le_nat_alt)
  have w: "unat (r_base r) \<le> unat a" "unat a + unat n \<le> unat (r_base r) + unat (r_size r)"
    using r(3) assms(3) ok(1) by (auto simp: in_window_def word_le_nat_alt unat_word_ariths)
  have "unat off = unat a - unat (r_base r)" using w(1) by (simp add: r(4) unat_sub word_le_nat_alt)
  then show ?thesis using w ok(2) by linarith
qed

lemma seg_image:
  fixes g :: "u64 \<Rightarrow> u8" and off :: u64
  assumes "p_filesz s \<le> p_memsz s" "unat (p_offset s) + unat (p_filesz s) \<le> length d" "length d < 2 ^ 64"
  defines "f \<equiv> put_bytes g off (take (unat (p_filesz s)) (drop (unat (p_offset s)) d))"
  shows "(if p_filesz s < p_memsz s then put_bytes f (off + p_filesz s) (replicate (unat (p_memsz s - p_filesz s)) 0) else f) a =
    (if unat (a - off) < unat (p_memsz s) then seg_byte d s (unat (a - off)) else g a)"
proof -
  define k where "k = unat (a - off)"
  have k: "k < 2 ^ 64" using u64_lt [of "a - off"] by (simp add: k_def)
  have f: "f a = (if k < unat (p_filesz s) then d ! (unat (p_offset s) + k) else g a)"
    unfolding f_def using assms(2,3) by (subst put_bytes_at) (auto simp: k_def)
  show ?thesis
  proof (cases "p_filesz s < p_memsz s")
    case True
    have n: "unat (p_memsz s - p_filesz s) = unat (p_memsz s) - unat (p_filesz s)" using True by (simp add: unat_sub)
    have sub: "unat (x - y) = (if unat y \<le> unat x then unat x - unat y else 2 ^ 64 + unat x - unat y)" for x y :: u64
      using unat_sub_if_size [of x y] by (auto simp: word_size)
    have "unat (a - (off + p_filesz s)) = (if unat (p_filesz s) \<le> k then k - unat (p_filesz s) else 2 ^ 64 + k - unat (p_filesz s))"
      using sub [of "a - off" "p_filesz s"] by (simp add: k_def diff_diff_eq)
    then have "unat (a - (off + p_filesz s)) < unat (p_memsz s) - unat (p_filesz s) \<longleftrightarrow> unat (p_filesz s) \<le> k \<and> k < unat (p_memsz s)"
      using u64_lt [of "p_memsz s"] u64_lt [of "p_filesz s"] by auto
    moreover have "put_bytes f (off + p_filesz s) (replicate (unat (p_memsz s - p_filesz s)) 0) a =
      (if unat (a - (off + p_filesz s)) < unat (p_memsz s) - unat (p_filesz s) then 0 else f a)"
      using u64_lt [of "p_memsz s"] by (subst put_bytes_at) (auto simp: n)
    ultimately show ?thesis using True f unfolding k_def [symmetric] by (auto simp: seg_byte_def word_less_nat_alt)
  qed (use f assms(1) in \<open>auto simp: k_def [symmetric] seg_byte_def word_less_nat_alt word_le_nat_alt\<close>)
qed

lemma load_segment_fits:
  assumes "fits b d s" "blocks_ok bsz b" "length d < 2 ^ 64"
  shows "\<exists>base'. load_segment bsz b d s base m = Ok (Some base') (place b d s m)"
proof (cases "p_type s = 1")
  case True
  then obtain h off where r: "BusRamRange b (p_vaddr s) (p_memsz s) = Some (h, off)" and f: "p_filesz s \<le> p_memsz s"
    and o: "unat (p_offset s) + unat (p_filesz s) \<le> length d" and va: "unat (p_vaddr s) + unat (p_memsz s) < 2 ^ 64"
    using assms(1) by (auto simp: fits_def)
  have blk: "unat off + unat (p_memsz s) \<le> unat (bsz h)" by (rule range_in_block [OF r assms(2) va])
  have nf: "unat (p_filesz s) \<le> unat (p_memsz s)" using f by (simp add: word_le_nat_alt)
  have sz: "\<not> of_nat (length d) < p_offset s + p_filesz s"
    using o assms(3) by (simp add: word_less_nat_alt unat_of_nat take_bit_nat_eq_self unat_word_ariths not_less)
  let ?bs = "take (unat (p_filesz s)) (drop (unat (p_offset s)) d)"
  have lb: "length ?bs = unat (p_filesz s)" using o by simp
  have uf: "unat (off + p_filesz s) = unat off + unat (p_filesz s)"
    using blk nf u64_lt [of "bsz h"] by (subst unat_add_lem [THEN iffD1]) auto
  have lz: "unat (p_memsz s - p_filesz s) = unat (p_memsz s) - unat (p_filesz s)" using f by (simp add: unat_sub)
  define m1 where "m1 = m(h := put_bytes (m h) off ?bs)"
  define m2 where "m2 = (if p_filesz s < p_memsz s then
    m1(h := put_bytes (m1 h) (off + p_filesz s) (replicate (unat (p_memsz s - p_filesz s)) 0)) else m1)"
  have "host_put bsz (h, off) ?bs m = Ok () m1"
    using blk nf o by (simp add: host_put_def in_block_def m1_def)
  moreover have "(if p_filesz s < p_memsz s then host_put bsz (h, off + p_filesz s) (replicate (unat (p_memsz s - p_filesz s)) 0)
      else ret ()) m1 = Ok () m2"
    using blk nf by (simp add: host_put_def in_block_def m2_def ret_def uf lz)
  moreover have "m2 = place b d s m"
  proof -
    have "m2 h = (\<lambda>a. if unat (a - off) < unat (p_memsz s) then seg_byte d s (unat (a - off)) else m h a)"
      using seg_image [OF f o assms(3), of "m h" off] by (auto simp: m2_def m1_def fun_eq_iff)
    moreover have "m2 = m(h := m2 h)" by (simp add: m2_def m1_def)
    ultimately show ?thesis using True r by (simp add: place_def)
  qed
  ultimately show ?thesis using True r o sz
    by (simp add: load_segment_def andthen_def ret_def Let_def)
qed (simp add: load_segment_def place_def ret_def)

lemma load_segments_fits:
  assumes "\<forall>i < length ss. read_phdr is64 d (phoff + (n + i) * ent) = (ret (ss ! i) :: (hmem, phdr) prog)" "\<forall>s \<in> set ss. fits b d s" "blocks_ok bsz b" "length d < 2 ^ 64"
  shows "\<exists>base'. load_segments bsz b d is64 phoff ent [n..<n + length ss] base m = Ok (Some base') (fold (place b d) ss m)"
  using assms(1,2)
proof (induction ss arbitrary: n base m)
  case (Cons s ss)
  have "fits b d s" using Cons.prems(2) by simp
  from load_segment_fits [OF this assms(3,4)]
  obtain base1 where 1: "load_segment bsz b d s base m = Ok (Some base1) (place b d s m)" by blast
  have h: "read_phdr is64 d (phoff + n * ent) = (ret s :: (hmem, phdr) prog)" using spec [OF Cons.prems(1), of 0] by simp
  have "read_phdr is64 d (phoff + (Suc n + i) * ent) = (ret (ss ! i) :: (hmem, phdr) prog)" if "i < length ss" for i
    using spec [OF Cons.prems(1), of "Suc i"] that by simp
  then obtain base2 where "load_segments bsz b d is64 phoff ent [Suc n..<Suc n + length ss] base1 (place b d s m) = Ok (Some base2) (fold (place b d) ss (place b d s m))"
    using Cons.IH [of "Suc n" base1 "place b d s m"] Cons.prems(2) by auto
  moreover have "[n..<n + length (s # ss)] = n # [Suc n..<Suc n + length ss]"
    using upt_conv_Cons [of n "n + length (s # ss)"] by simp
  ultimately show ?case using 1 h by (simp add: andthen_def ret_def)
qed (simp add: ret_def)

text \<open>The search for symbols only reads the file: it keeps memory, the entry and the image base.\<close>

definition quiet :: "('a \<Rightarrow> bool) \<Rightarrow> ('s, 'a) prog \<Rightarrow> bool" where
  "quiet Q p \<longleftrightarrow> (\<forall>m. p m = Undef \<or> (\<exists>v. Q v \<and> p m = Ok v m))"

named_theorems quiet_intros

lemma quiet_ret [quiet_intros]: "Q v \<Longrightarrow> quiet Q (ret v)" and quiet_undef [quiet_intros]: "quiet Q undef"
  by (simp_all add: quiet_def ret_def undef_def)

lemma quiet_bind: "quiet R p \<Longrightarrow> (\<And>v. R v \<Longrightarrow> quiet Q (f v)) \<Longrightarrow> quiet Q (andthen p f)"
  unfolding quiet_def andthen_def by (metis outcome.case(1,4))

lemmas quiet_andthen [quiet_intros] = quiet_bind [where R = "\<lambda>_. True", simplified]

lemma quiet_if [quiet_intros]: "(c \<Longrightarrow> quiet Q p) \<Longrightarrow> (\<not> c \<Longrightarrow> quiet Q q) \<Longrightarrow> quiet Q (if c then p else q)"
  by simp

lemma quiet_rd [quiet_intros]: "quiet (\<lambda>_. True) (rd_le n d off)" "quiet (\<lambda>_. True) (Rd32 d off)" "quiet (\<lambda>_. True) (rd_word L d off)"
  unfolding rd_le_def Rd32_def rd_word_def Rd64_def by (intro quiet_intros TrueI)+

lemma quiet_NameIs [quiet_intros]: "quiet (\<lambda>_. True) (NameIs d off cs)"
  by (induction cs arbitrary: off) (auto intro!: quiet_intros)

lemma quiet_shdr [quiet_intros]: "quiet (\<lambda>_. True) (shdr L d shoff ent shstr i found)"
  unfolding shdr_def Let_def by (intro quiet_intros TrueI)

lemma quiet_shdrs [quiet_intros]: "quiet (\<lambda>_. True) (shdrs L d shoff ent shstr is found)"
  by (induction "is" arbitrary: found) (auto intro!: quiet_intros)

definition same_image :: "ElfInfo \<Rightarrow> ElfInfo \<Rightarrow> bool" where
  "same_image i j \<longleftrightarrow> ei_entry j = ei_entry i \<and> ei_base j = ei_base i \<and> ei_machine j = ei_machine i \<and> ei_is64 j = ei_is64 i"

lemma quiet_symbols: "same_image i info \<Longrightarrow> quiet (same_image i) (symbols L d at strtab n info)"
proof (induction n arbitrary: at info)
  case (Suc n)
  show ?case unfolding symbols.simps
    by (intro quiet_andthen quiet_rd quiet_bind [where R = "same_image i"] Suc.IH)
      (use Suc.prems in \<open>auto intro!: quiet_intros simp: same_image_def\<close>)
qed (simp add: quiet_ret)

lemma quiet_find_symbols: "quiet (same_image info) (find_symbols L d shoff ent n strndx info)"
proof -
  have "same_image info info" by (simp add: same_image_def)
  then show ?thesis unfolding find_symbols_def Let_def
    by (intro quiet_if quiet_andthen quiet_rd quiet_shdrs) (auto simp: quiet_symbols quiet_ret split: option.splits)
qed

section \<open>The whole file\<close>

text \<open>A field of the file header at its place in a 64-bit and in a 32-bit file.\<close>

definition elf_field :: "u8 list \<Rightarrow> nat \<times> nat \<Rightarrow> nat \<times> nat \<Rightarrow> u64" where
  "elf_field d = (\<lambda>(o64, n64) (o32, n32). if d ! 4 = 2 then le_value (take n64 (drop o64 d)) else le_value (take n32 (drop o32 d)))"

definition elf_half :: "u8 list \<Rightarrow> nat \<Rightarrow> nat \<Rightarrow> u16" where
  "elf_half d o64 o32 = ucast (elf_field d (o64, 2) (o32, 2))"

definition elf_magic :: "u8 list \<Rightarrow> bool" where
  "elf_magic d \<longleftrightarrow> 64 \<le> length d \<and> take 4 d = [0x7f, 0x45, 0x4c, 0x46] \<and> (d ! 4 = 1 \<or> d ! 4 = 2)"

text \<open>\<open>ss\<close> are the program headers of the file, all of them inside it.\<close>

definition elf_headers :: "u8 list \<Rightarrow> phdr list \<Rightarrow> bool" where
  "elf_headers d ss \<longleftrightarrow> length ss = unat (elf_half d 56 44) \<and>
     (\<forall>i < length ss. read_phdr (d ! 4 = 2) d (unat (elf_field d (32, 8) (28, 4)) + i * unat (elf_half d 54 42)) =
        (ret (ss ! i) :: (hmem, phdr) prog))"

definition elf_symbols :: "u8 list \<Rightarrow> ElfInfo \<Rightarrow> (hmem, ElfInfo) prog" where
  "elf_symbols d = (if d ! 4 = 2 then FindHtifSymbols else FindHtifSymbols32) d
     (elf_field d (40, 8) (32, 4)) (elf_half d 58 46) (elf_half d 60 48) (elf_half d 62 50)"

lemma rd_inside: "off + n \<le> length d \<Longrightarrow> rd_le n d off = ret (le_value (take n (drop off d)))"
  by (simp add: rd_le_def)

lemma ElfLoad_steps:
  assumes "elf_magic d"
  shows "ElfLoad bsz b d =
    andthen (load_segments bsz b d (d ! 4 = 2) (unat (elf_field d (32, 8) (28, 4))) (unat (elf_half d 54 42)) [0..<unat (elf_half d 56 44)] 0)
      (\<lambda>r. case r of None \<Rightarrow> ret None | Some base \<Rightarrow> andthen (elf_symbols d \<lparr>ei_entry = elf_field d (24, 8) (24, 4), ei_base = base,
         ei_machine = ucast (le_value (take 2 (drop 18 d))), ei_is64 = (d ! 4 = 2), ei_has_tohost = False, ei_tohost = 0, ei_fromhost = 0\<rparr>)
         (\<lambda>info. ret (Some info)))"
  using assms unfolding ElfLoad_def elf_magic_def Let_def
  by (cases "d ! 4 = 2") (simp_all add: Rd16_def Rd32_def Rd64_def rd_inside elf_field_def elf_half_def elf_symbols_def cong: option.case_cong)

text \<open>
  C8. Loading an executable refines its abstract meaning: if the program headers lie in the file, every loadable segment
  fits into RAM, is in the file and is not longer there than in memory, then the load succeeds, memory changes exactly
  by placing the segments in order (their bytes, then zeros up to the memory size, nothing else), and the entry point is
  the one of the file header.
\<close>

theorem elf_loads:
  assumes "elf_magic d" "length d < 2 ^ 64" "elf_headers d ss" "\<forall>s \<in> set ss. fits b d s" "blocks_ok bsz b"
    and "\<forall>info m. elf_symbols d info m \<noteq> Undef"
  shows "\<exists>info. ElfLoad bsz b d m = Ok (Some info) (fold (place b d) ss m) \<and> ei_entry info = elf_field d (24, 8) (24, 4)"
proof -
  obtain base where l: "load_segments bsz b d (d ! 4 = 2) (unat (elf_field d (32, 8) (28, 4))) (unat (elf_half d 54 42))
      [0..<unat (elf_half d 56 44)] 0 m = Ok (Some base) (fold (place b d) ss m)"
    using load_segments_fits [where n = 0 and ss = ss, OF _ assms(4,5,2)] assms(3) unfolding elf_headers_def by fastforce
  define info where "info = \<lparr>ei_entry = elf_field d (24, 8) (24, 4), ei_base = base,
    ei_machine = ucast (le_value (take 2 (drop 18 d))), ei_is64 = (d ! 4 = 2), ei_has_tohost = False, ei_tohost = 0, ei_fromhost = 0\<rparr>"
  have "quiet (same_image info) (elf_symbols d info)"
    by (simp add: elf_symbols_def FindHtifSymbols_def FindHtifSymbols32_def quiet_find_symbols)
  then obtain j where "same_image info j" "elf_symbols d info (fold (place b d) ss m) = Ok j (fold (place b d) ss m)"
    using assms(6) unfolding quiet_def by metis
  then show ?thesis
    unfolding ElfLoad_steps [OF assms(1)] andthen_def l info_def [symmetric] by (simp add: ret_def same_image_def info_def)
qed

text \<open>
  C35. The range check of a segment uses its size in memory while the copy uses its size in the file: a file whose first
  segment is longer in the file passes the check, and the copy runs past the end of the host block.
\<close>

theorem elf_overflow:
  assumes "elf_magic d" "elf_headers d (s # ss)" "p_type s = 1" "BusRamRange b (p_vaddr s) (p_memsz s) = Some (h, off)"
    and "unat (p_offset s) + unat (p_filesz s) \<le> length d" "length d < 2 ^ 64" "unat (bsz h) < unat off + unat (p_filesz s)"
  shows "ElfLoad bsz b d m = Undef"
proof -
  have sz: "\<not> of_nat (length d) < p_offset s + p_filesz s"
    using assms(5,6) by (simp add: word_less_nat_alt unat_of_nat take_bit_nat_eq_self unat_word_ariths not_less)
  then have "load_segment bsz b d s 0 m = Undef"
    using assms by (simp add: load_segment_def host_put_def in_block_def andthen_def not_le)
  moreover have "[0..<unat (elf_half d 56 44)] = 0 # [1..<unat (elf_half d 56 44)]"
    using assms(2) by (simp add: elf_headers_def upt_conv_Cons)
  moreover have "read_phdr (d ! 4 = 2) d (unat (elf_field d (32, 8) (28, 4))) = (ret s :: (hmem, phdr) prog)"
    using assms(2) by (auto simp: elf_headers_def)
  ultimately show ?thesis unfolding ElfLoad_steps [OF assms(1)] by (simp add: andthen_def ret_def)
qed

text \<open>A 64-bit file of one segment, which is the file itself, with its two sizes, and the low half of its address.\<close>

definition elf_file :: "u16 \<Rightarrow> u8 \<Rightarrow> u8 \<Rightarrow> u8 list" where
  "elf_file va fs ms =
    [127, 69, 76, 70, 2, 1, 1, 0, 0, 0, 0, 0, 0, 0, 0, 0, 2, 0, 243, 0, 1, 0, 0, 0, 0, 0, 0, 128, 0, 0, 0, 0, 64,
     0, 0, 0, 0, 0, 0, 0, 0, 0, 0, 0, 0, 0, 0, 0, 0, 0, 0, 0, 64, 0, 56, 0, 1, 0, 64, 0, 0, 0, 0, 0, 1, 0, 0, 0, 5,
     0, 0, 0, 0, 0, 0, 0, 0, 0, 0, 0, ucast va, ucast (drop_bit 8 va), 0, 128, 0, 0, 0, 0, 0, 0, 0, 128, 0, 0, 0,
     0, fs, 0, 0, 0, 0, 0, 0, 0, ms, 0, 0, 0, 0, 0, 0, 0, 16, 0, 0, 0, 0, 0, 0, 0]"

lemma elf_file_headers:
  assumes "va = 0 \<or> va = 0xfff0"
  defines "s \<equiv> \<lambda>va fs ms. \<lparr>p_type = 1, p_offset = 0, p_vaddr = 0x80000000 OR ucast (va :: u16), p_filesz = ucast fs, p_memsz = ucast ms\<rparr>"
  shows "elf_magic (elf_file va fs ms)" "length (elf_file va fs ms) = 120" "elf_headers (elf_file va fs ms) [s va fs ms]"
    "elf_symbols (elf_file va fs ms) info m = Ok info m" "elf_field (elf_file va fs ms) (24, 8) (24, 4) = 0x80000000"
proof -
  note f = elf_field_def elf_half_def elf_file_def
  show l: "length (elf_file va fs ms) = 120" by (simp add: elf_file_def)
  show "elf_magic (elf_file va fs ms)" unfolding elf_magic_def l by (simp add: elf_file_def)
  show "elf_symbols (elf_file va fs ms) info m = Ok info m" by (simp add: elf_symbols_def f FindHtifSymbols_def find_symbols_def ret_def)
  show "elf_field (elf_file va fs ms) (24, 8) (24, 4) = 0x80000000" by (simp add: f)
  have "elf_half (elf_file va fs ms) 56 44 = 1" "elf_field (elf_file va fs ms) (32, 8) (28, 4) = 64" "elf_file va fs ms ! 4 = 2" by (simp_all add: f)
  moreover have "le_value (take 8 (drop 80 (elf_file va fs ms))) = 0x80000000 OR ucast va"
    using assms(1) by (elim disjE) (simp_all add: elf_file_def)
  then have "read_phdr True (elf_file va fs ms) 64 = ret (s va fs ms)"
    by (simp add: read_phdr_def Rd32_def Rd64_def rd_inside l s_def) (simp add: elf_file_def)
  ultimately show "elf_headers (elf_file va fs ms) [s va fs ms]" by (simp add: elf_headers_def)
qed

theorem elf_loads_witness:
  "\<exists>info. ElfLoad (\<lambda>_. 0x10000) ram_bus (elf_file 0 120 200) (\<lambda>_ _. 1) =
      Ok (Some info) (fold (place ram_bus (elf_file 0 120 200)) [\<lparr>p_type = 1, p_offset = 0, p_vaddr = 0x80000000, p_filesz = 120, p_memsz = 200\<rparr>] (\<lambda>_ _. 1)) \<and>
    ei_entry info = 0x80000000"
proof -
  let ?s = "\<lparr>p_type = 1, p_offset = 0, p_vaddr = 0x80000000, p_filesz = 120, p_memsz = 200\<rparr>"
  have h: "elf_headers (elf_file 0 120 200) [?s]" using elf_file_headers(3) [of 0 120 200] by simp
  have "BusRamRange ram_bus 0x80000000 200 = Some (0, 0)" by (simp add: BusRamRange_def ram_bus_def smallest_match_def better_def in_window_def)
  then have "\<forall>s \<in> set [?s]. fits ram_bus (elf_file 0 120 200) s" by (simp add: fits_def elf_file_headers(2))
  moreover have "blocks_ok (\<lambda>_. 0x10000) ram_bus" by (simp add: blocks_ok_def ram_bus_def)
  ultimately show ?thesis
    using elf_loads [OF _ _ h, of ram_bus "\<lambda>_. 0x10000" "\<lambda>_ _. 1"] elf_file_headers(5) [of 0 120 200] by (simp add: elf_file_headers)
qed

theorem elf_overflow_witness:
  "BusRamRange ram_bus 0x8000fff0 0x10 = Some (0, 0xfff0) \<and> ElfLoad (\<lambda>_. 0x10000) ram_bus (elf_file 0xfff0 120 16) (\<lambda>_ _. 0) = Undef"
proof
  show r: "BusRamRange ram_bus 0x8000fff0 0x10 = Some (0, 0xfff0)"
    by (simp add: BusRamRange_def ram_bus_def smallest_match_def better_def in_window_def)
  have h: "elf_headers (elf_file 0xfff0 120 16) [\<lparr>p_type = 1, p_offset = 0, p_vaddr = 0x8000fff0, p_filesz = 120, p_memsz = 16\<rparr>]"
    using elf_file_headers(3) [of "0xfff0" 120 16] by simp
  show "ElfLoad (\<lambda>_. 0x10000) ram_bus (elf_file 0xfff0 120 16) (\<lambda>_ _. 0) = Undef"
    by (rule elf_overflow [where h = 0 and off = "0xfff0", OF _ h]) (use r in \<open>simp_all add: elf_file_headers(1,2)\<close>)
qed
end
