(* ===== verification/Boot.thy ===== *)
theory Boot
  imports Run Elf
begin

text \<open>
  The way from the construction of the virt board to the first instruction of
  the firmware: the windows of the bus, the contents of the mask ROM
  (src/src/board/virt.c, \<open>kResetVec\<close> and the slots behind it), the first poll,
  and the six instructions of the trampoline in the run loop.
\<close>

unbundle bit_operations_syntax

section \<open>The windows of the board\<close>

definition shape :: "Bus \<Rightarrow> (u64 \<times> u64 \<times> nat option) list" where
  "shape b = map (\<lambda>r. (r_base r, r_size r, r_host r)) (regions b)"

lemma length_shape [simp]: "length (shape b) = length (regions b)"
  by (simp add: shape_def)

lemma shape_RefreshBus [simp]: "shape (RefreshBus b) = shape b"
  by (auto simp: shape_def RefreshBus_def intro!: nth_equalityI)

lemma shape_add: "BusAddRegion b base sz ops dev = Some b' \<Longrightarrow> shape b' = shape b @ [(base, sz, None)]"
  by (auto simp: BusAddRegion_def split: if_splits) (simp add: shape_def)

lemma shape_add_ram: "BusAddRamRegion b base sz ops dev host = Some b' \<Longrightarrow> shape b' = shape b @ [(base, sz, Some host)]"
proof -
  assume a: "BusAddRamRegion b base sz ops dev host = Some b'"
  then obtain c where c: "BusAddRegion b base sz ops dev = Some c"
    and b': "b' = c\<lparr>regions := (regions c)[length (regions c) - 1 := (regions c ! (length (regions c) - 1))\<lparr>r_host := Some host\<rparr>]\<rparr>"
    by (auto simp: BusAddRamRegion_def Let_def split: option.splits)
  have s: "shape c = shape b @ [(base, sz, None)]" by (rule shape_add [OF c])
  from arg_cong [OF this, of length] have l: "length (regions c) = Suc (length (regions b))" by (simp add: shape_def)
  have n: "shape c ! length (regions b) = (base, sz, None)" unfolding s by (simp add: nth_append shape_def)
  have "shape b' = (shape c)[length (regions b) := (base, sz, Some host)]"
    using n l by (simp add: b' shape_def map_update)
  then show ?thesis unfolding s using list_update_length [of "shape b" "(base, sz, None)" "[]" "(base, sz, Some host)"]
    by (simp add: length_shape)
qed


text \<open>Windows are only added, and all but the two of RAM lie above the mask ROM.\<close>

definition grows :: "Bus \<Rightarrow> Bus \<Rightarrow> bool" where
  "grows b b' \<longleftrightarrow> (\<exists>rest. shape b' = shape b @ rest \<and> (\<forall>r \<in> set rest. 0x2000 \<le> fst r))"

lemma grows_refl: "grows b b" by (simp add: grows_def)

lemma grows_trans: "grows a b \<Longrightarrow> grows b c \<Longrightarrow> grows a c"
  unfolding grows_def by (elim exE conjE, rule_tac x = "rest @ resta" in exI) auto

lemma grows_add: "BusAddRegion b base sz ops dev = Some b' \<Longrightarrow> 0x2000 \<le> base \<Longrightarrow> grows b b'"
  unfolding grows_def by (rule exI [of _ "[(base, sz, None)]"]) (simp add: shape_add)

lemma grows_window: "with_window b base sz ops dev x = Some (b', y) \<Longrightarrow> 0x2000 \<le> base \<Longrightarrow> grows b b'"
  by (auto simp: with_window_Some grows_add)

lemma grows_blk: "VirtioBlkCreate b base sz f src ops dev = Some (b', y) \<Longrightarrow> 0x2000 \<le> base \<Longrightarrow> grows b b'"
  by (auto simp: VirtioBlkCreate_def grows_refl split: option.splits prod.splits dest: grows_window)

lemma grows_empty:
  "add_empty is b = Some b' \<Longrightarrow> \<forall>i \<in> set is. i < 8 \<Longrightarrow> grows b b'"
proof (induction "is" arbitrary: b)
  case (Cons i "is")
  then obtain c where c: "BusAddRegion b (0x10001000 + of_nat i * 0x1000) 0x1000 6 0 = Some c" "add_empty is c = Some b'"
    by (auto simp: bind_eq_Some_conv)
  have "i \<in> {0, 1, 2, 3, 4, 5, 6, 7}" using Cons.prems(2) by auto
  then have "(0x2000 :: u64) \<le> 0x10001000 + of_nat i * 0x1000" by auto
  then show ?case using grows_add [OF c(1)] Cons.IH [OF c(2)] Cons.prems(2) by (auto intro: grows_trans)
qed (simp add: grows_refl)

lemma created_shape:
  assumes "VirtBoardCreate mem_ok fb_ok garbage junk dtb clk opts = Some (b, vm)"
  obtains rest where "shape b = (0x80000000, vb_ram_size vm, Some 0) # (0x1000, 0x1000, Some 1) # rest" "\<forall>r \<in> set rest. 0x2000 \<le> fst r"
proof -
  define n :: u64 where "n = (if o_ram_size opts \<noteq> 0 then o_ram_size opts else 0x8000000)"
  obtain b1 b2 b3 b4 b5 b6 b7 b8 b9 b10 cl pl blk con kbd tab where b: "vb_ram_size vm = n"
    "BusAddRamRegion \<lparr>regions = [], bus_last = None\<rparr> 0x80000000 n 0 0 0 = Some b1"
    "BusAddRamRegion b1 0x1000 0x1000 0 1 1 = Some b2"
    and w: "with_window b2 0x02000000 0x10000 1 0 cl = Some (b3, cl)"
    "with_window b3 0x0c000000 0x600000 2 0 pl = Some (b4, pl)"
    "BusAddRegion b4 0x10000000 0x100 3 0 = Some b5"
    "BusAddRegion b5 0x100000 0x1000 4 0 = Some b6"
    "VirtioBlkCreate b6 0x10001000 0x1000 (o_dsk opts) 1 5 0 = Some (b7, blk)"
    "with_window b7 0x10002000 0x1000 5 1 con = Some (b8, con)"
    "with_window b8 0x10003000 0x1000 5 2 kbd = Some (b9, kbd)"
    "with_window b9 0x10004000 0x1000 5 3 tab = Some (b10, tab)"
    "add_empty ((if blk = None then [0] else []) @ [4, 5, 6, 7]) b10 = Some b"
    using assms unfolding VirtBoardCreate_def Let_def n_def [symmetric]
    by (auto simp: bind_eq_Some_conv VirtioInputCreate_def VirtioConsoleCreate_def ClintRegister_def PlicRegister_def
        SifiveTestRegister_def with_window_Some simp del: add_empty.simps split: if_splits)
  have "grows b2 b"
    by (rule grows_trans [OF grows_window [OF w(1)] grows_trans [OF grows_window [OF w(2)] grows_trans [OF grows_add [OF w(3)]
       grows_trans [OF grows_add [OF w(4)] grows_trans [OF grows_blk [OF w(5)] grows_trans [OF grows_window [OF w(6)]
       grows_trans [OF grows_window [OF w(7)] grows_trans [OF grows_window [OF w(8)] grows_empty [OF w(9)]]]]]]]]]) auto
  moreover have "shape b2 = [(0x80000000, n, Some 0), (0x1000, 0x1000, Some 1)]"
    using shape_add_ram [OF b(2)] shape_add_ram [OF b(3)] by (simp add: shape_def)
  ultimately show thesis using b(1) that by (auto simp: grows_def)
qed

lemma rom_page:
  assumes "VirtBoardCreate mem_ok fb_ok garbage junk dtb clk opts = Some (b, vm)"
  shows "BusRamPage b 0x1000 = Some (1, 0)"
proof -
  obtain rest where s: "shape b = (0x80000000, vb_ram_size vm, Some 0) # (0x1000, 0x1000, Some 1) # rest"
    and r: "\<forall>r \<in> set rest. 0x2000 \<le> fst r" using created_shape [OF assms] .
  then obtain r0 r1 ts where b: "regions b = r0 # r1 # ts" "r_base r0 = 0x80000000" "r_base r1 = 0x1000" "r_size r1 = 0x1000" "r_host r1 = Some 1"
    and ts: "\<forall>r \<in> set ts. 0x2000 \<le> r_base r"
    by (fastforce simp: shape_def)
  have free: "\<not> r_base (regions b ! j) < 0x2000" if j: "j < length (regions b)" "j \<noteq> 1" for j
  proof (cases j)
    case (Suc k)
    then obtain l where "j = Suc (Suc l)" using j(2) by (cases k) auto
    then show ?thesis using j(1) ts b(1) nth_mem [of l ts] by (auto simp: not_less)
  qed (simp add: b)
  have "page_free (regions b) 1 0x1000" unfolding page_free_def list_ex_iff using free by fastforce
  then have "ram_page_at (regions b) 0x1000 1" by (simp add: ram_page_at_def b)
  moreover have "\<not> ram_page_at (regions b) 0x1000 0" by (simp add: ram_page_at_def b)
  moreover have "0 < length (regions b)" "Suc 0 < length (regions b)" by (simp_all add: b(1))
  then have "[0..<length (regions b)] = 0 # 1 # [Suc (Suc 0)..<length (regions b)]" by (simp add: upt_conv_Cons)
  ultimately have "List.find (ram_page_at (regions b) 0x1000) [0..<length (regions b)] = Some 1" by simp
  then show ?thesis by (simp add: BusRamPage_def b)
qed

section \<open>Instructions from the mask ROM\<close>

definition booting :: "Bus \<Rightarrow> (u64 \<Rightarrow> u8) \<Rightarrow> 'f VirtBoard hart \<Rightarrow> bool" where
  "booting b m h \<longleftrightarrow> priv (rs h) = kPrivMachine \<and> mstatus (rs h) = 0x200000000 \<and> mie (rs h) = 0 \<and> misa (rs h) = kMisaSupported \<and>
     pmpcfg (rs h) = (\<lambda>_. 0) \<and> stimecmp (rs h) = NOT 0 \<and> bus h = b \<and> BusRamPage b 0x1000 = Some (1, 0) \<and> vb_mem (devs h) 1 = m \<and> \<not> wait (cpu h) \<and> \<not> halted (cpu h)"

lemma boot_load:
  assumes "booting b m h" "a AND NOT 0xFFF = 0x1000" "(a AND 0xfff) + of_nat n \<le> 0x1000" "in_block 0x1000 (a AND 0xfff) n"
  shows "riscv_mem_load (virt_env F fp c) a n acc h = Ok (load_le m (a AND 0xfff) n) h"
  using assms by (simp add: booting_def riscv_mem_load_def RiscvTriggerCheck_def TrigReentryOk_def andthen_def get_rs_def reads_def ret_def
     RiscvTranslate_def eff_priv_def pmp_off ram_page_def fast_path_def host_load_def virt_env_def block_size_def Let_def)

lemma boot_enter: "booting b m h \<Longrightarrow> step_enter (virt_env F fp c) h = (h, True)"
  by (simp add: booting_def step_enter_def riscv_sync_timer_def virt_env_def riscv_deliver_interrupt_def Let_def upd_cpu_def)

lemma boot_step:
  assumes "booting b m h" "k \<in> {0, 1, 2, 3, 4, 5}" "pc (cpu h) = 0x1000 + 4 * of_nat k" "ucast (load_le m (4 * of_nat k) 4) = i" "i AND 3 = 3"
    and "gpr (cpu h) 0 = 0" "riscv_exec_inst (virt_env F fp c) i h = Ok npc h2"
  shows "riscv_step (virt_env F fp c) h = Ok () (upd_rs count (upd_cpu (\<lambda>c. c\<lparr>pc := npc\<rparr>) h2))"
proof -
  have p: "pc (cpu h) AND NOT 0xFFF = 0x1000" "pc (cpu h) AND 0xfff = 4 * of_nat k" "pc (cpu h) AND 1 = 0" "pc (cpu h) AND 3 = 0"
    "(pc (cpu h) AND 0xfff) + of_nat 4 \<le> 0x1000" "in_block 0x1000 (pc (cpu h) AND 0xfff) 4"
    using assms(2) unfolding assms(3) by (auto simp: in_block_def)
  define v where "v = load_le m (4 * of_nat k) 4"
  have v: "riscv_mem_load (virt_env F fp c) (pc (cpu h)) 4 acc_ifetch h = Ok v h" "ucast v = i"
    using boot_load [OF assms(1) p(1,5,6), where acc = acc_ifetch] assms(4) unfolding p(2) v_def by auto
  have "fetch (virt_env F fp c) h = Ok (Word32 i) h"
    using assms(1,5) p(3,4) v
    by (simp add: fetch_def andthen_def get_pc_def get_rs_def reads_def ret_def booting_def Let_def)
  moreover have "RiscvTriggerCheck kTrigOpExecute p h = Ok () h" for p
    using assms(1) by (simp add: booting_def RiscvTriggerCheck_def TrigReentryOk_def andthen_def get_rs_def reads_def ret_def)
  moreover have "set_x 0 0 h = Ok () h"
    using assms(6) by (simp add: set_x_def set_cpu_def updates_def upd_cpu_def fun_upd_idem)
  ultimately have "step_body (virt_env F fp c) h = Ok () (upd_cpu (\<lambda>c. c\<lparr>pc := npc\<rparr>) h2)"
    using assms(7) by (simp add: step_body_def andthen_def get_pc_def reads_def execute_def set_cpu_def updates_def)
  then show ?thesis by (simp add: riscv_step_def boot_enter [OF assms(1)])
qed


lemmas boot_exec = riscv_exec_inst_def exec_upper_def exec_alu_def exec_jump_def exec_load_def imm_u_def imm_i_def sext_def andthen_def
  get_pc_def get_x_def get_rs_def reads_def fall_def set_x_def set_cpu_def updates_def ret_def rd_def rs1_def rs2_def f3_def

lemma boot_auipc: "riscv_exec_inst E 0x00000297 h = Ok (pc (cpu h) + 4) (upd_cpu (\<lambda>c. c\<lparr>gpr := (gpr (cpu h))(5 := pc (cpu h))\<rparr>) h)"
  by (simp add: boot_exec upd_cpu_def)

lemma boot_addi: "riscv_exec_inst E 0x02828613 h = Ok (pc (cpu h) + 4) (upd_cpu (\<lambda>c. c\<lparr>gpr := (gpr (cpu h))(12 := gpr (cpu h) 5 + 40)\<rparr>) h)"
  by (simp add: boot_exec op_imm_def put_x_def upd_cpu_def Let_def)

lemma read_mhartid: "priv (rs h) = kPrivMachine \<Longrightarrow> riscv_csr_read E h 0xF14 = CsrOk 0"
  by (simp add: riscv_csr_read_def CsrPriv_def ReadCounter_def csr_read_user_def csr_read_super_def csr_read_machine_def
      csr_read_debug_def orelse_def Let_def)

lemma boot_csrr:
  "priv (rs h) = kPrivMachine \<Longrightarrow> gpr (cpu h) 0 = 0 \<Longrightarrow>
   riscv_exec_inst E 0xf1402573 h = Ok (pc (cpu h) + 4) (upd_cpu (\<lambda>c. c\<lparr>gpr := (gpr (cpu h))(10 := 0)\<rparr>) h)"
  by (simp add: boot_exec csr_op_def csr_get_def read_mhartid upd_cpu_def Let_def)

lemma boot_ld:
  assumes "booting b m h" "gpr (cpu h) 5 = 0x1000"
  shows "riscv_exec_inst (virt_env F fp c) 0x0202b583 h = Ok (pc (cpu h) + 4) (upd_cpu (\<lambda>c. c\<lparr>gpr := (gpr (cpu h))(11 := load_le m 32 8)\<rparr>) h)"
    and "riscv_exec_inst (virt_env F fp c) 0x0182b283 h = Ok (pc (cpu h) + 4) (upd_cpu (\<lambda>c. c\<lparr>gpr := (gpr (cpu h))(5 := load_le m 24 8)\<rparr>) h)"
proof -
  have l: "riscv_mem_load (virt_env F fp c) 0x1020 8 acc_read h = Ok (load_le m 32 8) h"
    "riscv_mem_load (virt_env F fp c) 0x1018 8 acc_read h = Ok (load_le m 24 8) h"
    using boot_load [OF assms(1), of "0x1020" 8 F fp c acc_read] boot_load [OF assms(1), of "0x1018" 8 F fp c acc_read]
    by (simp_all add: in_block_def del: load_le_numeral)
  show "riscv_exec_inst (virt_env F fp c) 0x0202b583 h = Ok (pc (cpu h) + 4) (upd_cpu (\<lambda>c. c\<lparr>gpr := (gpr (cpu h))(11 := load_le m 32 8)\<rparr>) h)"
    "riscv_exec_inst (virt_env F fp c) 0x0182b283 h = Ok (pc (cpu h) + 4) (upd_cpu (\<lambda>c. c\<lparr>gpr := (gpr (cpu h))(5 := load_le m 24 8)\<rparr>) h)"
    using assms(2) by (simp_all add: boot_exec load_def l upd_cpu_def Let_def del: load_le_numeral)
qed

lemma boot_jr:
  assumes "booting b m h" "gpr (cpu h) 0 = 0"
  shows "riscv_exec_inst E 0x00028067 h = Ok (gpr (cpu h) 5 AND NOT 1) (upd_cpu (\<lambda>c. c\<lparr>gpr := (gpr (cpu h))(0 := pc (cpu h) + 4)\<rparr>) h)"
  using assms by (simp add: boot_exec upd_cpu_def booting_def Let_def)

section \<open>The contents of the mask ROM\<close>

lemma put_bytes_nth:
  assumes "length bs < 2 ^ 64" "i < length bs"
  shows "put_bytes f 0 bs (of_nat i) = bs ! i"
  using assms by (simp add: put_bytes_at unat_of_nat take_bit_nat_eq_self)

lemma load_le_bytes:
  assumes "take n (drop i bs) = le_bytes n v" "i + n \<le> length bs" "length bs < 2 ^ 64" "n \<le> 8"
  shows "load_le (put_bytes f 0 bs) (of_nat i) n = take_bit (8 * n) v"
proof (rule bit_word_eqI)
  fix k assume "k < LENGTH(64)"
  show "bit (load_le (put_bytes f 0 bs) (of_nat i) n) k = bit (take_bit (8 * n) v) k"
  proof (cases "k < 8 * n")
    case True
    then have d: "k div 8 < n" by auto
    have "put_bytes f 0 bs (of_nat (i + k div 8)) = bs ! (i + k div 8)" using d assms(2,3) by (intro put_bytes_nth) auto
    also have "\<dots> = take n (drop i bs) ! (k div 8)" using d assms(2) by simp
    also have "\<dots> = ucast (drop_bit (8 * (k div 8)) v)" unfolding assms(1) using d by (simp add: le_bytes_def)
    finally have "put_bytes f 0 bs (of_nat i + of_nat (k div 8)) = ucast (drop_bit (8 * (k div 8)) v)" by simp
    then show ?thesis using True \<open>k < LENGTH(64)\<close> by (simp add: bit_load_le bit_take_bit_iff bit_simps)
  qed (simp add: bit_load_le bit_take_bit_iff)
qed

lemma length_le_bytes [simp]: "length (le_bytes n v) = n"
  by (simp add: le_bytes_def)

lemma rom_words:
  fixes bytes junk :: u64
  defines "m \<equiv> put_bytes (\<lambda>_. 0) 0 (mrom_image bytes junk)"
  shows "\<And>k. k \<in> {0, 1, 2, 3, 4, 5} \<Longrightarrow> ucast (load_le m (4 * of_nat k) 4) = kResetVec ! k"
    and "load_le m 24 8 = 0x80000000" "load_le m 32 8 = fdt_addr bytes" "load_le m 40 8 = 0x4942534f"
proof -
  have len: "length (mrom_image bytes junk) = 96" by (simp add: mrom_image_def kResetVec_def kFwDynInfo_def)
  note at = load_le_bytes [where bs = "mrom_image bytes junk" and f = "\<lambda>_. 0", folded m_def, unfolded len]
  note sl = mrom_image_def kResetVec_def kFwDynInfo_def
  show "ucast (load_le m (4 * of_nat k) 4) = kResetVec ! k" if "k \<in> {0, 1, 2, 3, 4, 5}" for k
  proof -
    have "take 4 (drop (4 * k) (mrom_image bytes junk)) = le_bytes 4 (ucast (kResetVec ! k))"
      using that by (auto simp: sl)
    from at [OF this] have "load_le m (4 * of_nat k) 4 = take_bit 32 (ucast (kResetVec ! k))" using that by (auto simp del: load_le_numeral)
    then show ?thesis by (simp only:) (rule bit_word_eqI, simp add: bit_simps)
  qed
  show "load_le m 24 8 = 0x80000000" using at [of 8 24 "0x80000000"] by (simp add: sl del: load_le_numeral)
  show "load_le m 32 8 = fdt_addr bytes" using at [of 8 32 "fdt_addr bytes"] by (simp add: sl take_bit_word_eq_self del: load_le_numeral)
  show "load_le m 40 8 = 0x4942534f" using at [of 8 40 "0x4942534f"] by (simp add: sl del: load_le_numeral)
qed

section \<open>The first poll\<close>

lemma created_parts:
  assumes "VirtBoardCreate mem_ok fb_ok garbage junk dtb clk opts = Some (b, vm)"
  shows "vb_con vm = con_new 2" "vb_kbd vm = input_new kVirtioInputKeyboard 3" "vb_tablet vm = input_new kVirtioInputTablet 4"
    "vb_mem vm 1 = put_bytes (\<lambda>_. 0) 0 (mrom_image (vb_ram_size vm) junk)" "cl_sink (vb_clint vm)"
  using assms
  by (auto simp: VirtBoardCreate_def Let_def bind_eq_Some_conv VirtioInputCreate_def VirtioConsoleCreate_def ClintSetIrqSink_def
      with_window_Some split: if_splits)

lemma first_poll:
  assumes "vb_con vm = con_new 2" "vb_kbd vm = input_new t 3" "vb_tablet vm = input_new t' 4"
  obtains vm' es where "VirtPoll b vm = Some (vm', es)" "vb_mem vm' = vb_mem vm" "vb_ram_size vm' = vb_ram_size vm"
proof -
  have q: "q_num (v_queue (con_new 2) 1) = 0" "con_count (con_new 2) = 0" "pending_count (input_new t s) = 0" for t s
    by (simp_all add: con_new_def input_new_def set_manual_def VirtioInit_def TransportReset_def upd_queue_def Let_def)
  note poll = virtio_world_def virtio_done_def VirtioConsolePoll_def VirtioInputPoll_def VirtioNotifyQueue_def
  obtain u es1 p where u: "poll_uart vm = (vm\<lparr>vb_uart := u, vb_plic := p\<rparr>, es1)"
    using route_irqs by (fastforce simp: poll_uart_def uart_done_def OnUartIrq_fold split: prod.splits)
  have "\<exists>c. poll_con b v = Some (v\<lparr>vb_con := c\<rparr>, [])" if "vb_con v = con_new 2" for v :: "'a VirtBoard"
    using q that by (auto simp: poll_con_def poll set_con_def Let_def)
  then obtain c where c: "poll_con b (vm\<lparr>vb_uart := u, vb_plic := p\<rparr>) = Some (vm\<lparr>vb_uart := u, vb_plic := p, vb_con := c\<rparr>, [])"
    using assms(1) by fastforce
  have k: "poll_kbd b v = Some (v, [])" if "vb_kbd v = input_new t 3" for v :: "'a VirtBoard"
    using q that by (simp add: poll_kbd_def poll set_kbd_def)
  have l: "poll_tablet b v = Some (v, [])" if "vb_tablet v = input_new t' 4" for v :: "'a VirtBoard"
    using q that by (simp add: poll_tablet_def poll set_tablet_def)
  have "\<exists>vm' es. VirtPoll b vm = Some (vm', es) \<and> vb_mem vm' = vb_mem vm \<and> vb_ram_size vm' = vb_ram_size vm"
    by (simp add: VirtPoll_def u c k l assms)
  then show thesis using that by blast
qed

section \<open>The trampoline\<close>

text \<open>A round of the loop that executes the next instruction of the trampoline.\<close>

lemma boot_round:
  assumes h0: "\<not> halted (cpu h0)" "\<not> wait (cpu h0)" "run_service (virt_hooks F fp c inp skip) h0 = Some h"
    and h: "booting b m h" "gpr (cpu h) 0 = 0" "pc (cpu h) = 0x1000 + 4 * of_nat k" "inst_count (cpu h) = of_nat k"
    and k: "k \<in> {0, 1, 2, 3, 4, 5}" "ucast (load_le m (4 * of_nat k) 4) = kResetVec ! k"
    and e: "riscv_exec_inst (virt_env F fp c) (kResetVec ! k) h = Ok npc (upd_cpu (\<lambda>c. c\<lparr>gpr := g\<rparr>) h)"
  obtains h' where "run_round (virt_hooks F fp c inp skip) 6 h0 = Some (if k = 5 then Done False h' else Again h')"
    "booting b m h'" "pc (cpu h') = npc" "gpr (cpu h') = g" "inst_count (cpu h') = of_nat k + 1" "vb_mem (devs h') = vb_mem (devs h)"
proof -
  have "kResetVec ! k AND 3 = 3" using k(1) by (auto simp: kResetVec_def)
  note s = boot_step [OF h(1) k(1) h(3) k(2) this h(2) e]
  have lim: "(6 :: u64) \<le> of_nat k + 1 \<longleftrightarrow> k = 5" using k(1) by (auto simp: word_le_nat_alt)
  have K: "hk_step (virt_hooks F fp c inp skip) = (\<lambda>h. case riscv_step (virt_env F fp c) h of Ok _ h' \<Rightarrow> Some h' | _ \<Rightarrow> None)"
    "\<not> hk_closed (virt_hooks F fp c inp skip) x" "\<not> hk_reset_pending (virt_hooks F fp c inp skip) x" "hk_stop (virt_hooks F fp c inp skip) = None"
    "cpu (hk_advance (virt_hooks F fp c inp skip) x) = cpu x" for x by (simp_all add: virt_hooks_def)
  define h' where "h' = hk_advance (virt_hooks F fp c inp skip) (upd_cpu (\<lambda>c. c\<lparr>inst_count := inst_count c + 1\<rparr>)
    (upd_rs count (upd_cpu (\<lambda>c. c\<lparr>pc := npc\<rparr>) (upd_cpu (\<lambda>c. c\<lparr>gpr := g\<rparr>) h))))"
  have "run_round (virt_hooks F fp c inp skip) 6 h0 = Some (if k = 5 then Done False h' else Again h')"
    using h0 h(1,4) lim
    by (simp add: booting_def run_round_def run_idle_def run_retire_def run_stop_def Let_def h'_def K s)
  then show thesis using that [of h'] h by (auto simp: h'_def virt_hooks_def booting_def count_def)
qed

lemma boot_service:
  "inst_count (cpu h) \<in> {1, 2, 3, 4, 5} \<Longrightarrow> \<not> wait (cpu h) \<Longrightarrow> run_service K h = Some h"
  by (auto simp: run_service_def)

lemma first_service:
  assumes "VirtBoardCreate mem_ok fb_ok garbage junk dtb clk opts = Some (b, vm)"
  obtains h where "run_service (virt_hooks F fp b (\<lambda>_. []) skip) (virt_hart b vm) = Some h"
    "booting b (vb_mem vm 1) h" "cpu h = cpu (virt_hart b vm)" "vb_mem (devs h) = vb_mem vm"
proof -
  obtain vm' es where p: "VirtPoll b vm = Some (vm', es)" "vb_mem vm' = vb_mem vm"
    using first_poll [OF created_parts(1-3) [OF assms]] by metis
  obtain es' where "es = SetIrq kIrqMtip (mtimecmp (vb_clint vm) \<le> ReadTime vm) # es'" "external es'"
    using VirtPoll_events [OF p(1) created_parts(5) [OF assms]] by metis
  then have "list_all (is_line [kIrqMtip, kIrqMeip, kIrqSeip]) es" by (auto simp: list_all_iff elim!: is_line.elims)
  then obtain x where x: "apply_events es ((virt_hart b vm)\<lparr>devs := vm'\<rparr>) = upd_rs (\<lambda>s. s\<lparr>ext_irq := x\<rparr>) ((virt_hart b vm)\<lparr>devs := vm'\<rparr>)"
    using apply_lines by blast
  show thesis
    by (rule that [of "upd_rs (\<lambda>s. s\<lparr>ext_irq := x\<rparr>) ((virt_hart b vm)\<lparr>devs := vm'\<rparr>)"])
      (use p x rom_page [OF assms] in \<open>simp_all add: run_service_def virt_hooks_def booting_def\<close>,
       simp_all add: virt_hart_def)
qed

text \<open>The memory block \<open>m\<close> holds the trampoline.\<close>

definition trampoline :: "(u64 \<Rightarrow> u8) \<Rightarrow> bool" where
  "trampoline m \<longleftrightarrow> (\<forall>k \<in> {0, 1, 2, 3, 4, 5}. ucast (load_le m (4 * of_nat k) 4) = kResetVec ! k)"

lemma boot_next:
  assumes h: "booting b m h" "inst_count (cpu h) = of_nat k" "pc (cpu h) = 0x1000 + 4 * of_nat k" "gpr (cpu h) 0 = 0" "trampoline m"
    and k: "k \<in> {1, 2, 3, 4, 5}"
    and e: "riscv_exec_inst (virt_env F fp c) (kResetVec ! k) h = Ok npc (upd_cpu (\<lambda>c. c\<lparr>gpr := g\<rparr>) h)"
  obtains h' where "run_round (virt_hooks F fp c inp skip) 6 h = Some (if k = 5 then Done False h' else Again h')"
    "booting b m h'" "pc (cpu h') = npc" "gpr (cpu h') = g" "inst_count (cpu h') = of_nat k + 1" "vb_mem (devs h') = vb_mem (devs h)"
proof -
  have "\<not> halted (cpu h)" "\<not> wait (cpu h)" using h(1) by (simp_all add: booting_def)
  moreover have "run_service (virt_hooks F fp c inp skip) h = Some h"
    using k h(2) by (intro boot_service) (use h(1) in \<open>auto simp: booting_def\<close>)
  moreover have "k \<in> {0, 1, 2, 3, 4, 5}" "ucast (load_le m (4 * of_nat k) 4) = kResetVec ! k"
    using k h(5) unfolding trampoline_def by auto
  ultimately show thesis using boot_round [of h F fp c inp skip h b m k npc g] h e that by metis
qed

lemma reset_words: "kResetVec ! 0 = 0x297" "kResetVec ! 1 = 0x02828613" "kResetVec ! 2 = 0xf1402573" "kResetVec ! 3 = 0x0202b583"
  "kResetVec ! 4 = 0x0182b283" "kResetVec ! 5 = 0x00028067" by (simp_all add: kResetVec_def)

text \<open>The five instructions after the first.\<close>

lemma trampoline_runs:
  assumes "booting b m h1" "inst_count (cpu h1) = 1" "pc (cpu h1) = 0x1004" "gpr (cpu h1) = (\<lambda>_. 0)(5 := 0x1000)" "trampoline m"
    "load_le m 24 8 = start" "start AND NOT 1 = start"
  obtains h where "BoardRunSteps (virt_hooks F fp c inp skip) 6 h1 = Some (False, h)" "booting b m h" "pc (cpu h) = start"
    "gpr (cpu h) 10 = 0" "gpr (cpu h) 11 = load_le m 32 8" "gpr (cpu h) 12 = 0x1028" "vb_mem (devs h) = vb_mem (devs h1)"
proof -
  let ?K = "virt_hooks F fp c inp skip" and ?E = "virt_env F fp c"
  let ?g3 = "(\<lambda>_. 0)(5 := 0x1000, 12 := 0x1028, 10 := 0)"
  obtain h2 where h2: "run_round ?K 6 h1 = Some (Again h2)" "booting b m h2" "pc (cpu h2) = 0x1008"
    "gpr (cpu h2) = (\<lambda>_. 0)(5 := 0x1000, 12 := 0x1028)" "inst_count (cpu h2) = 2" "vb_mem (devs h2) = vb_mem (devs h1)"
    using boot_next [of b m h1 1 F fp c "0x1008" "(\<lambda>_. 0)(5 := 0x1000, 12 := 0x1028)" inp skip] assms
      boot_addi [of ?E h1] reset_words by auto
  obtain h3 where h3: "run_round ?K 6 h2 = Some (Again h3)" "booting b m h3" "pc (cpu h3) = 0x100c"
    "gpr (cpu h3) = ?g3" "inst_count (cpu h3) = 3" "vb_mem (devs h3) = vb_mem (devs h1)"
    using boot_next [of b m h2 2 F fp c "0x100c" ?g3 inp skip] assms(5) h2 boot_csrr [of h2 ?E] reset_words by (auto simp: booting_def)
  obtain h4 where h4: "run_round ?K 6 h3 = Some (Again h4)" "booting b m h4" "pc (cpu h4) = 0x1010"
    "gpr (cpu h4) = ?g3(11 := load_le m 32 8)" "inst_count (cpu h4) = 4" "vb_mem (devs h4) = vb_mem (devs h1)"
    using boot_next [of b m h3 3 F fp c "0x1010" "?g3(11 := load_le m 32 8)" inp skip] assms(5) h3
      boot_ld(1) [OF h3(2), of F fp c] reset_words by (auto simp del: load_le_numeral)
  obtain h5 where h5: "run_round ?K 6 h4 = Some (Again h5)" "booting b m h5" "pc (cpu h5) = 0x1014"
    "gpr (cpu h5) = ?g3(11 := load_le m 32 8, 5 := start)" "inst_count (cpu h5) = 5" "vb_mem (devs h5) = vb_mem (devs h1)"
    using boot_next [of b m h4 4 F fp c "0x1014" "?g3(11 := load_le m 32 8, 5 := start)" inp skip] assms(5,6) h4
      boot_ld(2) [OF h4(2), of F fp c] reset_words by (auto simp del: load_le_numeral)
  obtain h6 where h6: "run_round ?K 6 h5 = Some (Done False h6)" "booting b m h6" "pc (cpu h6) = start"
    "gpr (cpu h6) = ?g3(11 := load_le m 32 8, 5 := start, 0 := 0x1018)" "vb_mem (devs h6) = vb_mem (devs h1)"
    using boot_next [of b m h5 5 F fp c start "?g3(11 := load_le m 32 8, 5 := start, 0 := 0x1018)" inp skip] assms(5) h5
      boot_jr [OF h5(2), of ?E] reset_words assms(7) by (auto simp del: load_le_numeral)
  have "BoardRunSteps ?K 6 h1 = Some (False, h6)"
    by (simp add: BoardRunSteps.simps [of ?K 6 h1] BoardRunSteps.simps [of ?K 6 h2] BoardRunSteps.simps [of ?K 6 h3]
        BoardRunSteps.simps [of ?K 6 h4] BoardRunSteps.simps [of ?K 6 h5] h2(1) h3(1) h4(1) h5(1) h6(1))
  then show thesis using that [of h6] h6 by (simp del: load_le_numeral)
qed

text \<open>
  C6. The machine boots: from every successful construction of the virt board, the run loop executes the six
  instructions of the mask ROM and arrives at the start of DRAM in machine mode, with the hart number 0 in \<open>a0\<close>, the
  address of the device tree in \<open>a1\<close> and in \<open>a2\<close> the address of the firmware information, which starts with its magic
  number; memory is as it was built.
\<close>

theorem virt_boots:
  assumes "VirtBoardCreate mem_ok fb_ok garbage junk dtb clk opts = Some (b, vm)"
  shows "\<exists>h. BoardRunSteps (virt_hooks F fp b (\<lambda>_. []) skip) 6 (virt_hart b vm) = Some (False, h) \<and> pc (cpu h) = 0x80000000 \<and>
    priv (rs h) = kPrivMachine \<and> gpr (cpu h) 10 = 0 \<and> gpr (cpu h) 11 = fdt_addr (vb_ram_size vm) \<and> gpr (cpu h) 12 = 0x1028 \<and>
    vb_mem (devs h) = vb_mem vm \<and> load_le (vb_mem (devs h) 1) 0x28 8 = 0x4942534f"
proof -
  define m where "m = vb_mem vm 1"
  have rom: "trampoline m" "load_le m 24 8 = 0x80000000" "load_le m 32 8 = fdt_addr (vb_ram_size vm)" "load_le m 40 8 = 0x4942534f"
    unfolding m_def created_parts(4) [OF assms] trampoline_def by (intro ballI rom_words, assumption) (rule rom_words)+
  let ?K = "virt_hooks F fp b (\<lambda>_. []) skip"
  obtain h0 where h0: "run_service ?K (virt_hart b vm) = Some h0" "booting b m h0" "cpu h0 = cpu (virt_hart b vm)" "vb_mem (devs h0) = vb_mem vm"
    using first_service [OF assms] unfolding m_def by blast
  have c: "gpr (cpu h0) = (\<lambda>_. 0)" "pc (cpu h0) = 0x1000" "inst_count (cpu h0) = 0" "\<not> halted (cpu (virt_hart b vm))" "\<not> wait (cpu (virt_hart b vm))"
    using h0(3) by (simp_all add: virt_hart_def)
  obtain h1 where h1: "run_round ?K 6 (virt_hart b vm) = Some (Again h1)" "booting b m h1" "pc (cpu h1) = 0x1004"
    "gpr (cpu h1) = (\<lambda>_. 0)(5 := 0x1000)" "inst_count (cpu h1) = 1" "vb_mem (devs h1) = vb_mem vm"
    by (rule boot_round [where k = 0, unfolded reset_words, OF c(4,5) h0(1,2) _ _ _ _ _ boot_auipc])
      (use c h0(4) rom(1) reset_words in \<open>simp_all add: trampoline_def\<close>)
  obtain h where h: "BoardRunSteps ?K 6 h1 = Some (False, h)" "booting b m h" "pc (cpu h) = 0x80000000"
    "gpr (cpu h) 10 = 0" "gpr (cpu h) 11 = load_le m 32 8" "gpr (cpu h) 12 = 0x1028" "vb_mem (devs h) = vb_mem (devs h1)"
    by (rule trampoline_runs [OF h1(2,5,3,4) rom(1,2)]) simp_all
  have "load_le (vb_mem (devs h) 1) 0x28 8 = 0x4942534f" using h(7) h1(6) rom(4) by (simp add: m_def del: load_le_numeral)
  moreover have "BoardRunSteps ?K 6 (virt_hart b vm) = Some (False, h)"
    by (simp add: BoardRunSteps.simps [of ?K 6 "virt_hart b vm"] h1(1) h(1))
  ultimately show ?thesis using h h1(6) rom(3) by (intro exI [of _ h]) (simp add: booting_def del: load_le_numeral)
qed

theorem virt_boots_witness:
  "\<forall>(F :: unit file_ops) (fp :: unit host_fp). \<exists>b vm h. VirtBoardCreate True True (\<lambda>_. 0) 0 [] clock0 opts0 = Some (b, vm) \<and>
     BoardRunSteps (virt_hooks F fp b (\<lambda>_. []) False) 6 (virt_hart b vm) = Some (False, h) \<and> pc (cpu h) = 0x80000000 \<and> gpr (cpu h) 12 = 0x1028"
proof (intro allI)
  fix F :: "unit file_ops" and fp :: "unit host_fp"
  obtain b and vm :: "unit VirtBoard" where c: "VirtBoardCreate True True (\<lambda>_. 0) 0 [] clock0 opts0 = Some (b, vm)"
    using virt_created0 by auto
  with virt_boots [OF c, of F fp False]
  show "\<exists>b vm h. VirtBoardCreate True True (\<lambda>_. 0) 0 [] clock0 opts0 = Some (b, vm) \<and>
     BoardRunSteps (virt_hooks F fp b (\<lambda>_. []) False) 6 (virt_hart b vm) = Some (False, h) \<and> pc (cpu h) = 0x80000000 \<and> gpr (cpu h) 12 = 0x1028"
    by blast
qed

end
