(* ===== verification/Spike.thy ===== *)
theory Spike
  imports Run Elf
begin

text \<open>
  The spike board (src/src/board/spike_min.c): one block of DRAM and the
  host-target interface, whose two mailboxes are windows of eight bytes laid
  over DRAM.  The theory also has the part of src/src/main.c that loads an
  image, attaches the interface and sets the processor up, and it shows that
  a store of the guest to the mailbox reaches the device.
\<close>

unbundle bit_operations_syntax

section \<open>The board\<close>

text \<open>
  \<open>sp_stopped\<close> is the halt flag of the processor as the interface sees it: on
  this board only the interface sets it.  \<open>sp_out\<close> are the bytes written to
  the host console.
\<close>

record SpikeBoard =
  sp_ram :: RamDevice
  sp_htif :: HtifDevice
  sp_stopped :: bool
  sp_out :: "u8 list"

definition spike_read :: "SpikeBoard dev_read" where
  "spike_read ops dev a sz sp =
     map_option (\<lambda>v. (v, sp, [])) (if ops = 0 then RamRead (sp_ram sp) a sz else HtifRead (sp_htif sp) a sz)"

definition spike_write :: "SpikeBoard dev_write" where
  "spike_write ops dev a sz val sp =
     (if ops = 0 then map_option (\<lambda>r. (sp\<lparr>sp_ram := r\<rparr>, [])) (RamWrite (sp_ram sp) a sz val)
      else map_option (\<lambda>(d, es, out). (sp\<lparr>sp_htif := d, sp_stopped := sp_stopped sp \<or> es \<noteq> [], sp_out := sp_out sp @ out\<rparr>, es))
        (HtifWrite (sp_stopped sp) (sp_htif sp) a sz val))"

definition spike_env :: "'l host_fp \<Rightarrow> (SpikeBoard, 'l) env" where
  "spike_env fp =
     \<lparr>e_read = spike_read, e_write = spike_write,
      e_host_load = (\<lambda>k off n sp. if in_block (ram_size (sp_ram sp)) off n then Some (load_le (ram_mem (sp_ram sp)) off n) else None),
      e_host_store = (\<lambda>k off n v sp. if in_block (ram_size (sp_ram sp)) off n
        then Some (sp\<lparr>sp_ram := (sp_ram sp)\<lparr>ram_mem := store_le (ram_mem (sp_ram sp)) off n v\<rparr>\<rparr>) else None),
      e_timer = None, e_dbg_mem = False, e_fp = fp\<rparr>"

text \<open>The two flags say whether the host allocations succeed.\<close>

definition SpikeBoardCreate :: "bool \<Rightarrow> bool \<Rightarrow> 'f BoardOpts \<Rightarrow> (Bus \<times> SpikeBoard) option" where
  "SpikeBoardCreate board_ok ram_ok opts =
     (let base = (if o_ram_base opts \<noteq> 0 then o_ram_base opts else 0x80000000);
          bytes = (if o_ram_size opts \<noteq> 0 then o_ram_size opts else 0x10000000) in
      if \<not> board_ok then None
      else Option.bind (RamCreate ram_ok ram_ok base bytes) (\<lambda>ram.
        Option.bind (BusAddRamRegion \<lparr>regions = [], bus_last = None\<rparr> base bytes 0 0 0) (\<lambda>b.
          Some (b, \<lparr>sp_ram = ram, sp_htif = \<lparr>tohost = 0, fromhost = 0, tohost_addr = 0, fromhost_addr = 0\<rparr>,
            sp_stopped = False, sp_out = []\<rparr>))))"

section \<open>Program start\<close>

text \<open>
  What main does with a new board and an image: load it, register the
  interface where the image asks for it, and reset the processor at the entry
  point.  The board has no reset address of its own.  \<open>bin_base0\<close> and
  \<open>bin_tohost\<close> are the options of the same names, zero when not given.
\<close>

definition spike_start ::
  "isa_ops list \<Rightarrow> Bus \<Rightarrow> SpikeBoard \<Rightarrow> u8 list option \<Rightarrow> string option \<Rightarrow> u64 \<Rightarrow> u64 \<Rightarrow> (isa_ops \<times> SpikeBoard hart) option" where
  "spike_start tab b sp file name bin_base0 bin_tohost =
     (let ram = sp_ram sp; bin_base = (if bin_base0 \<noteq> 0 then bin_base0 else ram_base ram) in
      case LoaderLoadImage tab (\<lambda>_. ram_size ram) b file name bin_base bin_tohost True (\<lambda>_. ram_mem ram) of
        Ok (Some lr) m \<Rightarrow>
          Option.bind (case lr_htif lr of None \<Rightarrow> Some (b, sp_htif sp) | Some (t, f) \<Rightarrow> HtifRegister b (sp_htif sp) t f 1 0) (\<lambda>(b1, d).
            Some (lr_isa lr, \<lparr>cpu = \<lparr>gpr = (\<lambda>_. 0), fpr = (\<lambda>_. 0), pc = lr_entry lr, image_base = lr_base lr, halted = False,
                wait = False, exit_code = 0, inst_count = 0\<rparr>, rs = riscv_init, bus = b1,
              devs = sp\<lparr>sp_ram := ram\<lparr>ram_mem := m 0\<rparr>, sp_htif := d\<rparr>\<rparr>))
      | _ \<Rightarrow> None)"

section \<open>The exit of a test program\<close>

lemma spike_regions:
  assumes "BusAddRamRegion \<lparr>regions = [], bus_last = None\<rparr> base n 0 0 0 = Some b" "HtifRegister b h t f 1 0 = Some (b1, d)"
  shows "map (\<lambda>r. (r_base r, r_size r, r_ops r, r_host r)) (regions b1) = [(base, n, 0, Some 0), (t, 8, 1, None), (f, 8, 1, None)]"
    and "d = h\<lparr>tohost_addr := t, fromhost_addr := f\<rparr>"
  using assms by (auto simp: BusAddRamRegion_def BusAddRegion_def HtifRegister_def RefreshBus_def kBusRegions_def with_window_def Let_def)

lemma unat_page: "unat (t AND NOT 0xFFF) = unat t - unat t mod 0x1000" for t :: u64
proof -
  have m: "(0xFFF :: u64) = mask 12" by (simp add: mask_eq_exp_minus_1)
  have "t = (t AND NOT (mask 12)) + take_bit 12 t"
    unfolding take_bit_eq_mask by (subst disjunctive_add) (auto simp: bit_simps bit_eq_iff)
  then have e: "t AND NOT (mask 12) = t - take_bit 12 t" by (metis add_diff_cancel)
  have u: "unat (take_bit 12 t) = unat t mod 0x1000" by (simp add: take_bit_eq_mod unat_mod_distrib)
  then have "take_bit 12 t \<le> t" by (simp add: word_le_nat_alt)
  then show ?thesis unfolding m e by (simp add: unat_sub u)
qed

lemma mailbox_page:
  assumes r: "map (\<lambda>r. (r_base r, r_size r, r_ops r, r_host r)) (regions b) = [(base, n, 0, Some 0), (t, 8, 1, None), (f, 8, 1, None)]"
    and "bus_ok b" "base \<le> t" "unat t + 8 \<le> unat base + unat n" "unat base + unat n + 0x1000 < 2 ^ 64"
  shows "BusRamPage b (t AND NOT 0xFFF) = None"
proof -
  obtain r0 r1 r2 where b: "regions b = [r0, r1, r2]" "r_base r0 = base" "r_size r0 = n" "r_base r1 = t" "r_size r1 = 8"
    "r_host r1 = None" "r_host r2 = None" using r by (auto simp: map_eq_Cons_conv)
  have bt: "unat base \<le> unat t" using assms(3) by (simp add: word_le_nat_alt)
  have i: "intersects r0 r1" using assms(4,5) bt
    by (simp add: intersects_def b word_less_nat_alt unat_word_ariths)
  have "r_overlaps r0 = overlaps_at (regions b) 0" using assms(2) unfolding bus_ok_def b by force
  then have o: "r_overlaps r0" using i by (auto simp: overlaps_at_iff b intro!: exI [of _ 1])
  define p where "p = t AND NOT 0xFFF"
  have u: "unat p = unat t - unat t mod 0x1000" unfolding p_def by (rule unat_page)
  have "p < t + 8" "t < p + 0x1000" using assms(4,5) u mod_less_divisor [of "0x1000" "unat t"]
    by (auto simp: word_less_nat_alt unat_word_ariths)
  then have "\<not> page_free (regions b) 0 p" by (auto simp: page_free_def b list_ex_iff intro!: bexI [of _ 1])
  then have "\<not> ram_page_at (regions b) p i" if "i < 3" for i
    using that b o by (auto simp: ram_page_at_def less_Suc_eq numeral_3_eq_3)
  then have "List.find (ram_page_at (regions b) p) [0..<length (regions b)] = None" by (auto simp: find_None_iff b)
  then show ?thesis unfolding BusRamPage_def p_def by simp
qed

lemma mailbox_found:
  assumes r: "map (\<lambda>r. (r_base r, r_size r, r_ops r, r_host r)) (regions b) = [(base, n, 0, Some 0), (t, 8, 1, None), (f, 8, 1, None)]"
    and "bus_ok b" "8 < n" "unat t + 8 < 2 ^ 64" "unat f + 8 < 2 ^ 64" "t \<noteq> f"
  shows "fst (FindRegion b t 8) = Some 1"
proof -
  obtain r0 r1 r2 where b: "regions b = [r0, r1, r2]" "r_size r0 = n" "r_base r1 = t" "r_size r1 = 8" "r_base r2 = f" "r_size r2 = 8"
    using r by (auto simp: map_eq_Cons_conv)
  have "\<not> in_window r2 t 8" using assms(4-6) by (auto simp: in_window_def b word_le_nat_alt unat_word_ariths word_unat_eq_iff)
  then have "smallest_match (regions b) (\<lambda>r. in_window r t 8) = Some 1"
    unfolding smallest_match_iff is_smallest_def using assms(3)
    by (auto simp: b in_window_def less_Suc_eq numeral_3_eq_3)
  moreover have "\<not> NOT t < 8"
  proof -
    have "NOT t = - 1 - t" by (simp add: not_eq_complement)
    then have "unat (NOT t) = 2 ^ 64 - 1 - unat t" by (simp add: unat_sub unsigned_minus_1_eq_mask mask_eq_exp_minus_1)
    then show ?thesis using assms(4) by (simp add: word_less_nat_alt)
  qed
  ultimately show ?thesis using assms(2) by (simp add: FindRegion_decode decode_def)
qed

text \<open>A store of the processor in machine mode without protection goes to the bus when the page is not plain RAM.\<close>

lemma store_to_bus:
  assumes "priv (rs g) = kPrivMachine" "mstatus (rs g) AND kMstatusMprv = 0" "pmpcfg (rs g) = (\<lambda>_. 0)"
    "RiscvTriggerCheck kTrigOpStore a g = Ok () g" "BusRamPage (bus g) (a AND NOT 0xFFF) = None"
  shows "riscv_mem_store E a sz v g = slow_store E a a sz v g"
  using assms by (simp add: riscv_mem_store_def andthen_def RiscvTranslate_def get_rs_def reads_def eff_priv_def pmp_off ram_page_def ret_def Let_def)

lemma find_again:
  assumes "bus_ok b" "0 < n"
  shows "FindRegion (snd (FindRegion b a n)) a n = (fst (FindRegion b a n), snd (FindRegion (snd (FindRegion b a n)) a n))"
  using assms by (simp add: prod_eq_iff FindRegion_decode bus_ok_FindRegion)

text \<open>The mailbox \<open>t\<close> is aligned, lies in DRAM and is not the other one; DRAM ends below the last page.\<close>

definition mailbox_in :: "RamDevice \<Rightarrow> u64 \<Rightarrow> u64 \<Rightarrow> bool" where
  "mailbox_in ram t f \<longleftrightarrow> t AND 7 = 0 \<and> t \<noteq> f \<and> unat f + 8 < 2 ^ 64 \<and> 8 < ram_size ram \<and> ram_base ram \<le> t \<and>
     unat t + 8 \<le> unat (ram_base ram) + unat (ram_size ram) \<and> unat (ram_base ram) + unat (ram_size ram) + 0x1000 < 2 ^ 64"

text \<open>
  C9. A test program ends the emulation by a store to the mailbox: on a spike board with the interface attached, an
  8-byte store of an exit command by the processor in machine mode is not taken by the DRAM under the mailbox, it
  reaches the interface through the bus, the processor halts with the exit code, DRAM is unchanged, and the run loop
  returns.
\<close>

theorem spike_exit:
  assumes "SpikeBoardCreate board_ok ram_ok opts = Some (b, sp)" "HtifRegister b (sp_htif sp) t f 1 0 = Some (b1, d)"
    and m: "mailbox_in (sp_ram sp) t f"
    and g: "bus_ok (bus g)" "regions (bus g) = regions b1" "tohost_addr (sp_htif (devs g)) = tohost_addr d" "\<not> sp_stopped (devs g)"
    and "priv (rs g) = kPrivMachine" "mstatus (rs g) AND kMstatusMprv = 0" "pmpcfg (rs g) = (\<lambda>_. 0)"
    and "RiscvTriggerCheck kTrigOpStore t g = Ok () g" "code < 2 ^ 31"
  shows "\<exists>g'. riscv_mem_store (spike_env fp) t 8 (2 * of_nat code + 1) g = Ok () g' \<and> exit_code (cpu g') = int code \<and>
    sp_ram (devs g') = sp_ram (devs g) \<and> BoardRunSteps K n g' = Some (False, g')"
proof -
  let ?v = "2 * of_nat code + 1 :: u64"
  obtain base n0 where "BusAddRamRegion \<lparr>regions = [], bus_last = None\<rparr> base n0 0 0 0 = Some b" "ram_base (sp_ram sp) = base" "ram_size (sp_ram sp) = n0"
    using assms(1) by (auto simp: SpikeBoardCreate_def RamCreate_def Let_def bind_eq_Some_conv split: if_splits)
  with spike_regions [OF _ assms(2)]
  have r: "map (\<lambda>r. (r_base r, r_size r, r_ops r, r_host r)) (regions (bus g)) =
      [(ram_base (sp_ram sp), ram_size (sp_ram sp), 0, Some 0), (t, 8, 1, None), (f, 8, 1, None)]" and "tohost_addr d = t"
    using g(2) by simp_all
  then have t: "tohost_addr (sp_htif (devs g)) = t" using g(3) by simp
  have "BusRamPage (bus g) (t AND NOT 0xFFF) = None" by (rule mailbox_page [OF r g(1)]) (use m in \<open>simp_all add: mailbox_in_def\<close>)
  then have "riscv_mem_store (spike_env fp) t 8 ?v g = slow_store (spike_env fp) t t 8 ?v g"
    using assms by (intro store_to_bus) simp_all
  moreover have f: "fst (FindRegion (bus g) t 8) = Some 1" by (rule mailbox_found [OF r g(1)]) (use m in \<open>simp_all add: mailbox_in_def\<close>)
  define b2 where "b2 = snd (FindRegion (snd (FindRegion (bus g) t 8)) t 8)"
  have f2: "FindRegion (snd (FindRegion (bus g) t 8)) t 8 = (Some 1, b2)" using find_again [OF g(1), of 8 t] f by (simp add: b2_def)
  have ops: "r_ops (regions b2 ! 1) = 1" using r by (auto simp: b2_def map_eq_Cons_conv)
  have w: "HtifWrite False (sp_htif (devs g)) t 8 ?v = Some ((sp_htif (devs g))\<lparr>tohost := 0\<rparr>, [Halt (int code)], [])"
    using htif_commands [of "sp_htif (devs g)", THEN conjunct1] m assms(12) t by (simp add: mailbox_in_def)
  define g' where "g' = upd_cpu (\<lambda>c. c\<lparr>exit_code := int code, halted := True\<rparr>)
    (g\<lparr>bus := b2, devs := (devs g)\<lparr>sp_htif := (sp_htif (devs g))\<lparr>tohost := 0\<rparr>, sp_stopped := True\<rparr>\<rparr>)"
  have "slow_store (spike_env fp) t t 8 ?v g = Ok () g'"
    using f f2 ops w g(4) by (simp add: slow_store_def andthen_def bus_probe_def BusProbe_def bus_write_def on_bus_def BusWrite_def
        spike_env_def spike_write_def ret_def apply_events_def apply_event_def g'_def case_prod_unfold)
  moreover have "BoardRunSteps K n g' = Some (False, g')" by (subst BoardRunSteps.simps) (simp add: run_round_def g'_def)
  ultimately show ?thesis by (intro exI [of _ g']) (simp add: g'_def)
qed

theorem spike_exit_witness:
  "\<forall>(fp :: unit host_fp) (K :: SpikeBoard hooks). \<exists>b sp b1 d g g'. SpikeBoardCreate True True opts0 = Some (b, sp) \<and>
     HtifRegister b (sp_htif sp) 0x80001000 0x80001040 1 0 = Some (b1, d) \<and> bus g = b1 \<and>
     riscv_mem_store (spike_env fp) 0x80001000 8 7 g = Ok () g' \<and> exit_code (cpu g') = 3 \<and> BoardRunSteps K 0 g' = Some (False, g')"
proof (intro allI)
  fix fp :: "unit host_fp" and K :: "SpikeBoard hooks"
  obtain b sp where c: "SpikeBoardCreate True True opts0 = Some (b, sp)"
    by (auto simp: SpikeBoardCreate_def RamCreate_def opts0_def BusAddRamRegion_def BusAddRegion_def kBusRegions_def Let_def)
  then have ram: "ram_base (sp_ram sp) = 0x80000000" "ram_size (sp_ram sp) = 0x10000000" "length (regions b) = 1" "\<not> sp_stopped sp"
    by (auto simp: SpikeBoardCreate_def RamCreate_def opts0_def BusAddRamRegion_def BusAddRegion_def kBusRegions_def RefreshBus_def Let_def)
  obtain b1 d where r: "HtifRegister b (sp_htif sp) 0x80001000 0x80001040 1 0 = Some (b1, d)"
    using ram(3) by (auto simp: HtifRegister_def BusAddRegion_def with_window_def kBusRegions_def length_RefreshBus)
  then have "bus_ok b1" by (auto simp: HtifRegister_def with_window_def bind_eq_Some_conv bus_ok_BusAddRegion)
  moreover define g where "g = \<lparr>cpu = cpu hart0, rs = riscv_init, bus = b1, devs = sp\<lparr>sp_htif := d\<rparr>\<rparr>"
  moreover have "RiscvTriggerCheck kTrigOpStore 0x80001000 g = Ok () g"
    by (simp add: g_def RiscvTriggerCheck_def andthen_def get_rs_def reads_def TrigReentryOk_def ret_def)
  ultimately have "\<exists>g'. riscv_mem_store (spike_env fp) 0x80001000 8 (2 * of_nat 3 + 1) g = Ok () g' \<and> exit_code (cpu g') = int 3 \<and>
      sp_ram (devs g') = sp_ram (devs g) \<and> BoardRunSteps K 0 g' = Some (False, g')"
    using ram by (intro spike_exit [OF c r]) (simp_all add: mailbox_in_def g_def)
  moreover have "bus g = b1" by (simp add: g_def)
  ultimately show "\<exists>b sp b1 d g g'. SpikeBoardCreate True True opts0 = Some (b, sp) \<and>
     HtifRegister b (sp_htif sp) 0x80001000 0x80001040 1 0 = Some (b1, d) \<and> bus g = b1 \<and>
     riscv_mem_store (spike_env fp) 0x80001000 8 7 g = Ok () g' \<and> exit_code (cpu g') = 3 \<and> BoardRunSteps K 0 g' = Some (False, g')"
    using c r by - (rule exI [of _ b], rule exI [of _ sp], rule exI [of _ b1], rule exI [of _ d], rule exI [of _ g], auto)
qed
end
