(* ===== verification/Pic.thy ===== *)
theory Pic
  imports Device
begin

text \<open>
  The interrupt controller of the PC (src/src/device/intc/i8259.c): two chips
  in cascade, with request, mask and service registers, rotating priority,
  the initialisation handshake and the end-of-interrupt commands.  A line
  number of -1 is \<open>None\<close>.  The first result of a read is its value; the line
  calls go to the interrupt input of the processor.
\<close>

unbundle bit_operations_syntax

section \<open>State\<close>

record PicState =
  last_irr :: u8
  irr :: u8
  imr :: u8
  isr :: u8
  priority_add :: nat
  irq_base :: u8
  read_reg_select :: bool
  pic_poll :: bool
  special_mask :: bool
  init_state :: nat
  auto_eoi :: bool
  rotate_on_auto_eoi :: bool
  special_fully_nested_mode :: bool
  init4 :: bool
  single_mode :: bool
  ltim :: bool
  elcr :: u8
  elcr_mask :: u8

record PicDevice =
  pics :: "nat \<Rightarrow> PicState"
  pic_sink :: bool

definition irq_bit :: "nat \<Rightarrow> u8" where
  "irq_bit i = push_bit i 1"

definition upd_pic :: "nat \<Rightarrow> (PicState \<Rightarrow> PicState) \<Rightarrow> PicDevice \<Rightarrow> PicDevice" where
  "upd_pic k f d = d\<lparr>pics := (pics d)(k := f (pics d k))\<rparr>"

section \<open>Priority\<close>

text \<open>
  The loop of \<open>GetPriority\<close> has no bound; on a mask with a bit set it stops
  before eight rounds, so the bound of the model is never reached
  (lemma \<open>GetPriority_least\<close>).
\<close>

function scan :: "u8 \<Rightarrow> nat \<Rightarrow> nat \<Rightarrow> nat" where
  "scan m add p = (if p < 8 \<and> m AND irq_bit ((p + add) mod 8) = 0 then scan m add (p + 1) else p)"
  by pat_completeness auto
termination
  by (relation "measure (\<lambda>(_, _, p). 8 - p)") auto

declare scan.simps [simp del]

definition GetPriority :: "PicState \<Rightarrow> u8 \<Rightarrow> nat" where
  "GetPriority s m = (if m = 0 then 8 else scan m (priority_add s) 0)"

definition PicGetIrq :: "PicDevice \<Rightarrow> nat \<Rightarrow> nat option" where
  "PicGetIrq d k =
     (let s = pics d k; m = irr s AND NOT (imr s); priority = GetPriority s m in
      if priority = 8 then None
      else let m1 = (if special_mask s then isr s AND NOT (imr s) else isr s);
               m2 = (if special_fully_nested_mode s \<and> k = 0 then m1 AND NOT (irq_bit 2) else m1);
               cur_priority = GetPriority s m2 in
        if priority < cur_priority then Some ((priority + priority_add s) mod 8) else None)"

section \<open>Requests and acknowledge\<close>

definition PicUpdateIrq :: "PicDevice \<Rightarrow> PicDevice \<times> line_call list" where
  "PicUpdateIrq d =
     (let d1 = upd_pic 0 (\<lambda>s. if PicGetIrq d 1 \<noteq> None
                 then s\<lparr>last_irr := last_irr s OR irq_bit 2, irr := irr s OR irq_bit 2\<rparr>
                 else s\<lparr>last_irr := last_irr s AND NOT (irq_bit 2)\<rparr>) d in
      (d1, drive (pic_sink d1) [case PicGetIrq d1 0 of None \<Rightarrow> (0, False) | Some i \<Rightarrow> (int i, True)]))"

definition PicSetIrq1 :: "nat \<Rightarrow> bool \<Rightarrow> PicState \<Rightarrow> PicState" where
  "PicSetIrq1 irq level s =
     (let m = irq_bit irq; level_mode = ((elcr s AND elcr_mask s) OR (if ltim s then 0xff else 0)) AND m \<noteq> 0 in
      if level_mode then
        s\<lparr>irr := (if level then irr s OR m else irr s AND NOT m),
          last_irr := (last_irr s AND NOT m) OR (if level then m else 0)\<rparr>
      else if level then
        s\<lparr>irr := (if last_irr s AND m = 0 then irr s OR m else irr s), last_irr := last_irr s OR m\<rparr>
      else s\<lparr>last_irr := last_irr s AND NOT m\<rparr>)"

definition PicSetIrq :: "nat \<Rightarrow> bool \<Rightarrow> PicDevice \<Rightarrow> PicDevice \<times> line_call list" where
  "PicSetIrq irq level d = PicUpdateIrq (upd_pic (irq div 8) (PicSetIrq1 (irq mod 8) level) d)"

definition PicIntack :: "nat \<Rightarrow> PicState \<Rightarrow> PicState" where
  "PicIntack irq s =
     (let s1 = (if auto_eoi s then (if rotate_on_auto_eoi s then s\<lparr>priority_add := (irq + 1) mod 8\<rparr> else s)
                else s\<lparr>isr := isr s OR irq_bit irq\<rparr>) in
      s1\<lparr>irr := irr s1 AND NOT (irq_bit irq)\<rparr>)"

definition PicAcknowledge :: "PicDevice \<Rightarrow> nat \<times> PicDevice \<times> line_call list" where
  "PicAcknowledge d =
     (case PicGetIrq d 0 of
        Some irq \<Rightarrow>
          (let d1 = upd_pic 0 (PicIntack irq) d in
           if irq = 2 then
             (let (irq2, d2) = (case PicGetIrq d1 1 of Some i \<Rightarrow> (i, upd_pic 1 (PicIntack i) d1) | None \<Rightarrow> (7, d1)) in
              (unat (irq_base (pics d2 1)) + irq2, PicUpdateIrq d2))
           else (unat (irq_base (pics d1 0)) + irq, PicUpdateIrq d1))
      | None \<Rightarrow> (unat (irq_base (pics d 0)) + 7, PicUpdateIrq d))"

definition PicHasPending :: "PicDevice \<Rightarrow> bool" where
  "PicHasPending d \<longleftrightarrow> PicGetIrq d 0 \<noteq> None"

section \<open>Registers\<close>

definition PicReset :: "PicState \<Rightarrow> PicState" where
  "PicReset s = s\<lparr>last_irr := 0, irr := 0, imr := 0, isr := 0, priority_add := 0, irq_base := 0, read_reg_select := False,
     pic_poll := False, special_mask := False, init_state := 0, auto_eoi := False, rotate_on_auto_eoi := False,
     special_fully_nested_mode := False, init4 := False, single_mode := False, ltim := False, elcr := 0\<rparr>"

definition icw1 :: "u8 \<Rightarrow> PicState \<Rightarrow> PicState" where
  "icw1 val s = (PicReset s)\<lparr>init_state := 1, init4 := bit val 0, single_mode := bit val 1, ltim := bit val 3\<rparr>"

definition ocw3 :: "u8 \<Rightarrow> PicState \<Rightarrow> PicState" where
  "ocw3 val s =
     s\<lparr>pic_poll := (bit val 2 \<or> pic_poll s), read_reg_select := (if bit val 1 then bit val 0 else read_reg_select s),
       special_mask := (if bit val 6 then bit val 5 else special_mask s)\<rparr>"

definition ocw2 :: "u8 \<Rightarrow> PicState \<Rightarrow> PicState" where
  "ocw2 val s =
     (let cmd = unat (drop_bit 5 val); low = unat (val AND 7) in
      if cmd = 0 \<or> cmd = 4 then s\<lparr>rotate_on_auto_eoi := (cmd = 4)\<rparr>
      else if cmd = 1 \<or> cmd = 5 then
        (let priority = GetPriority s (isr s) in
         if priority = 8 then s
         else let irq = (priority + priority_add s) mod 8 in
           s\<lparr>isr := isr s AND NOT (irq_bit irq), priority_add := (if cmd = 5 then (irq + 1) mod 8 else priority_add s)\<rparr>)
      else if cmd = 3 then s\<lparr>isr := isr s AND NOT (irq_bit low)\<rparr>
      else if cmd = 6 then s\<lparr>priority_add := (low + 1) mod 8\<rparr>
      else if cmd = 7 then s\<lparr>isr := isr s AND NOT (irq_bit low), priority_add := (low + 1) mod 8\<rparr>
      else s)"

definition icw_data :: "u8 \<Rightarrow> PicState \<Rightarrow> PicState" where
  "icw_data val s =
     (if init_state s = 1 then
        s\<lparr>irq_base := val AND 0xf8, init_state := (if single_mode s then (if init4 s then 3 else 0) else 2)\<rparr>
      else if init_state s = 2 then s\<lparr>init_state := (if init4 s then 3 else 0)\<rparr>
      else if init_state s = 3 then
        s\<lparr>special_fully_nested_mode := bit val 4, auto_eoi := bit val 1, init_state := 0\<rparr>
      else s)"

definition PicIoWrite :: "nat \<Rightarrow> u64 \<Rightarrow> u8 \<Rightarrow> PicDevice \<Rightarrow> PicDevice \<times> line_call list" where
  "PicIoWrite k addr val d =
     (if addr = 0 then
        (if bit val 4 then (upd_pic k (icw1 val) d, [])
         else if bit val 3 then (upd_pic k (ocw3 val) d, [])
         else PicUpdateIrq (upd_pic k (ocw2 val) d))
      else if init_state (pics d k) = 0 then PicUpdateIrq (upd_pic k (\<lambda>s. s\<lparr>imr := val\<rparr>) d)
      else (upd_pic k (icw_data val) d, []))"

definition PicIoRead :: "nat \<Rightarrow> u64 \<Rightarrow> PicDevice \<Rightarrow> u8 \<times> PicDevice" where
  "PicIoRead k addr d =
     (let s = pics d k in
      if pic_poll s then
        (let d1 = upd_pic k (\<lambda>s. s\<lparr>pic_poll := False\<rparr>) d in
         case PicGetIrq d1 k of
           Some i \<Rightarrow> (of_nat i OR 0x80, upd_pic k (\<lambda>s. s\<lparr>irr := irr s AND NOT (irq_bit i), isr := isr s AND NOT (irq_bit i)\<rparr>) d1)
         | None \<Rightarrow> (7, d1))
      else (if addr = 0 then (if read_reg_select s then isr s else irr s) else imr s, d))"

definition PicMasterRead :: "u64 \<Rightarrow> PicDevice \<Rightarrow> u8 \<times> PicDevice" where
  "PicMasterRead addr d = PicIoRead 0 (addr AND 1) d"

definition PicMasterWrite :: "u64 \<Rightarrow> u64 \<Rightarrow> PicDevice \<Rightarrow> PicDevice \<times> line_call list" where
  "PicMasterWrite addr val d = PicIoWrite 0 (addr AND 1) (ucast val) d"

definition PicSlaveRead :: "u64 \<Rightarrow> PicDevice \<Rightarrow> u8 \<times> PicDevice" where
  "PicSlaveRead addr d = PicIoRead 1 (addr AND 1) d"

definition PicSlaveWrite :: "u64 \<Rightarrow> u64 \<Rightarrow> PicDevice \<Rightarrow> PicDevice \<times> line_call list" where
  "PicSlaveWrite addr val d = PicIoWrite 1 (addr AND 1) (ucast val) d"

definition ElcrRead :: "u64 \<Rightarrow> PicDevice \<Rightarrow> u8" where
  "ElcrRead addr d = elcr (pics d (unat ((addr - 0x4d0) AND 1)))"

definition ElcrWrite :: "u64 \<Rightarrow> u64 \<Rightarrow> PicDevice \<Rightarrow> PicDevice" where
  "ElcrWrite addr val d = upd_pic (unat ((addr - 0x4d0) AND 1)) (\<lambda>s. s\<lparr>elcr := ucast val AND elcr_mask s\<rparr>) d"

text \<open>The initialisation also removes the sink, which the board sets afterwards.\<close>

definition PicInit :: "PicDevice \<Rightarrow> PicDevice" where
  "PicInit d = \<lparr>pics = (pics d)(0 := (PicReset (pics d 0))\<lparr>elcr_mask := 0xf8\<rparr>, 1 := (PicReset (pics d 1))\<lparr>elcr_mask := 0xde\<rparr>),
     pic_sink = False\<rparr>"

definition PicSetIrqSink :: "PicDevice \<Rightarrow> PicDevice" where
  "PicSetIrqSink d = d\<lparr>pic_sink := True\<rparr>"

definition PicRegister :: "Bus \<Rightarrow> u64 \<Rightarrow> u64 \<Rightarrow> nat \<Rightarrow> nat \<Rightarrow> nat \<Rightarrow> Bus option" where
  "PicRegister io master_base slave_base master_ops slave_ops dev =
     Option.bind (BusAddRegion io master_base 2 master_ops dev) (\<lambda>b. BusAddRegion b slave_base 2 slave_ops dev)"

definition PicRegisterElcr :: "Bus \<Rightarrow> nat \<Rightarrow> nat \<Rightarrow> Bus option" where
  "PicRegisterElcr io ops dev = BusAddRegion io 0x4d0 2 ops dev"

section \<open>Which request is delivered\<close>

lemma bit_irq_bit: "i < 8 \<Longrightarrow> bit (irq_bit i) j \<longleftrightarrow> j = i"
  by (auto simp: irq_bit_def bit_simps)

lemma and_irq_bit: "i < 8 \<Longrightarrow> m AND irq_bit i = 0 \<longleftrightarrow> \<not> bit m i"
  by (auto simp: u8_eq_iff bit_and_iff bit_irq_bit)

lemma scan_least:
  assumes "p \<le> q" "q < 8" "bit m ((q + add) mod 8)" "\<And>r. p \<le> r \<Longrightarrow> r < q \<Longrightarrow> \<not> bit m ((r + add) mod 8)"
  shows "scan m add p = q"
  using assms
proof (induction m add p rule: scan.induct)
  case (1 m add p)
  show ?case
  proof (cases "p = q")
    case True
    then show ?thesis using "1.prems" by (subst scan.simps) (simp add: and_irq_bit)
  next
    case False
    then have "\<not> bit m ((p + add) mod 8)" "p < 8" using "1.prems" by auto
    then show ?thesis using 1 False by (subst scan.simps) (simp add: and_irq_bit)
  qed
qed

definition rank :: "PicState \<Rightarrow> nat \<Rightarrow> nat" where
  "rank s i = (i + 8 - priority_add s) mod 8"

lemma rank_inverse:
  assumes "priority_add s < 8"
  shows "i < 8 \<Longrightarrow> (rank s i + priority_add s) mod 8 = i" "p < 8 \<Longrightarrow> rank s ((p + priority_add s) mod 8) = p" "rank s i < 8"
proof -
  show "rank s i < 8" by (simp add: rank_def)
  show "(rank s i + priority_add s) mod 8 = i" if "i < 8"
    using that assms unfolding rank_def by (simp add: mod_add_left_eq)
  show "rank s ((p + priority_add s) mod 8) = p" if "p < 8"
    using that assms by (cases "p + priority_add s < 8") (auto simp: rank_def mod_if [of "p + priority_add s"])
qed

text \<open>\<open>GetPriority\<close> is the least rank of a bit of the mask, or 8.\<close>

lemma GetPriority_least:
  assumes "priority_add s < 8" "m \<noteq> 0"
  obtains i where "i < 8" "bit m i" "GetPriority s m = rank s i" "\<And>j. j < 8 \<Longrightarrow> bit m j \<Longrightarrow> rank s i \<le> rank s j"
proof -
  let ?P = "\<lambda>q. bit m ((q + priority_add s) mod 8)"
  obtain i0 where "i0 < 8" "bit m i0" using assms(2) by (auto simp: u8_eq_iff)
  then have w: "?P (rank s i0)" by (simp add: rank_inverse(1) [OF assms(1)])
  define q where "q = (LEAST q. ?P q)"
  have q: "?P q" "q < 8" unfolding q_def
    using LeastI [of ?P, OF w] Least_le [of ?P, OF w] rank_inverse(3) [OF assms(1), of i0] by auto
  have "scan m (priority_add s) 0 = q" by (rule scan_least) (use q in \<open>auto simp: q_def dest: not_less_Least\<close>)
  then have g: "GetPriority s m = q" using assms(2) by (simp add: GetPriority_def)
  show thesis
  proof (rule that [of "(q + priority_add s) mod 8"])
    show "rank s ((q + priority_add s) mod 8) \<le> rank s j" if "j < 8" "bit m j" for j
      using that rank_inverse [OF assms(1)] q(2) unfolding q_def by (auto intro: Least_le)
  qed (use q g rank_inverse(2) [OF assms(1)] in auto)
qed

lemma GetPriority_none: "priority_add s < 8 \<Longrightarrow> GetPriority s m = 8 \<longleftrightarrow> m = 0"
  using GetPriority_least [of s m] rank_inverse(3) [of s] by (metis GetPriority_def less_irrefl)

text \<open>The requests a chip could deliver, and the interrupts in service that stand in their way.\<close>

definition requested :: "PicState \<Rightarrow> nat \<Rightarrow> bool" where
  "requested s i \<longleftrightarrow> bit (irr s) i \<and> \<not> bit (imr s) i"

definition blocking :: "nat \<Rightarrow> PicState \<Rightarrow> nat \<Rightarrow> bool" where
  "blocking k s j \<longleftrightarrow> bit (isr s) j \<and> \<not> (special_mask s \<and> bit (imr s) j) \<and> \<not> (special_fully_nested_mode s \<and> k = 0 \<and> j = 2)"

lemma rank_inj: "priority_add s < 8 \<Longrightarrow> i < 8 \<Longrightarrow> j < 8 \<Longrightarrow> rank s i = rank s j \<longleftrightarrow> i = j"
  by (metis rank_inverse(1))

lemma PicGetIrq_iff:
  assumes "priority_add (pics d k) < 8"
  shows "PicGetIrq d k = Some i \<longleftrightarrow> i < 8 \<and> requested (pics d k) i \<and>
    (\<forall>j < 8. requested (pics d k) j \<longrightarrow> rank (pics d k) i \<le> rank (pics d k) j) \<and>
    (\<forall>j < 8. blocking k (pics d k) j \<longrightarrow> rank (pics d k) i < rank (pics d k) j)"
proof -
  define s where "s = pics d k"
  define r where "r = irr s AND NOT (imr s)"
  define c where "c = (let m1 = (if special_mask s then isr s AND NOT (imr s) else isr s) in
    if special_fully_nested_mode s \<and> k = 0 then m1 AND NOT (irq_bit 2) else m1)"
  have s: "priority_add s < 8" using assms by (simp add: s_def)
  have r: "bit r j \<longleftrightarrow> requested s j" if "j < 8" for j using that by (simp add: r_def requested_def bit_simps)
  have c: "bit c j \<longleftrightarrow> blocking k s j" if "j < 8" for j
    using that by (auto simp: c_def blocking_def Let_def bit_and_iff bit_not_iff bit_irq_bit)
  have g: "PicGetIrq d k = (if GetPriority s r = 8 then None
      else if GetPriority s r < GetPriority s c then Some ((GetPriority s r + priority_add s) mod 8) else None)"
    unfolding PicGetIrq_def r_def c_def s_def Let_def by (rule refl)
  show ?thesis unfolding s_def [symmetric]
  proof (cases "r = 0")
    case True
    then have "\<not> requested s j" if "j < 8" for j using r [OF that] by simp
    then show "PicGetIrq d k = Some i \<longleftrightarrow> i < 8 \<and> requested s i \<and> (\<forall>j < 8. requested s j \<longrightarrow> rank s i \<le> rank s j) \<and> (\<forall>j < 8. blocking k s j \<longrightarrow> rank s i < rank s j)"
      using True g by (auto simp: GetPriority_def)
  next
    case False
    then obtain a where a: "a < 8" "bit r a" "GetPriority s r = rank s a" "\<And>j. j < 8 \<Longrightarrow> bit r j \<Longrightarrow> rank s a \<le> rank s j"
      using GetPriority_least [OF s] by metis
    have b: "rank s a < GetPriority s c \<longleftrightarrow> (\<forall>j < 8. blocking k s j \<longrightarrow> rank s a < rank s j)"
    proof (cases "c = 0")
      case True
      then show ?thesis using c rank_inverse(3) [OF s, of a] by (auto simp: GetPriority_def)
    next
      case False
      then obtain e where "e < 8" "bit c e" "GetPriority s c = rank s e" "\<And>j. j < 8 \<Longrightarrow> bit c j \<Longrightarrow> rank s e \<le> rank s j"
        using GetPriority_least [OF s] by metis
      then show ?thesis using c by (metis le_less_trans less_le_trans)
    qed
    have "PicGetIrq d k = (if rank s a < GetPriority s c then Some a else None)"
      using g a rank_inverse [OF s] by (simp add: less_imp_neq)
    moreover have "(i < 8 \<and> requested s i \<and> (\<forall>j < 8. requested s j \<longrightarrow> rank s i \<le> rank s j)) \<longleftrightarrow> i = a"
      using a r rank_inj [OF s] by (metis antisym)
    ultimately show "PicGetIrq d k = Some i \<longleftrightarrow> i < 8 \<and> requested s i \<and> (\<forall>j < 8. requested s j \<longrightarrow> rank s i \<le> rank s j) \<and> (\<forall>j < 8. blocking k s j \<longrightarrow> rank s i < rank s j)"
      using b by auto
  qed
qed

text \<open>
  C29. A chip delivers exactly the request that a reference definition names: the request that is not masked, has the
  best rank in the current rotation, and outranks every interrupt in service that counts (special mask mode ignores
  masked ones, special fully nested mode the cascade line of the first chip).
\<close>

theorem pic_selects:
  assumes "priority_add (pics d k) < 8"
  shows "PicGetIrq d k = Some i \<longleftrightarrow> i < 8 \<and> requested (pics d k) i \<and>
    (\<forall>j < 8. requested (pics d k) j \<longrightarrow> rank (pics d k) i \<le> rank (pics d k) j) \<and>
    (\<forall>j < 8. blocking k (pics d k) j \<longrightarrow> rank (pics d k) i < rank (pics d k) j)"
  by (rule PicGetIrq_iff [OF assms])

section \<open>Acknowledge and end of interrupt\<close>

text \<open>The refresh of the output line touches the request registers of the first chip only.\<close>

lemma update_keeps:
  "isr (pics (fst (PicUpdateIrq d)) k) = isr (pics d k)" "imr (pics (fst (PicUpdateIrq d)) k) = imr (pics d k)"
  "priority_add (pics (fst (PicUpdateIrq d)) k) = priority_add (pics d k)"
  "special_mask (pics (fst (PicUpdateIrq d)) k) = special_mask (pics d k)"
  "special_fully_nested_mode (pics (fst (PicUpdateIrq d)) k) = special_fully_nested_mode (pics d k)"
  by (simp_all add: PicUpdateIrq_def upd_pic_def Let_def)

text \<open>
  C30. Acknowledging a request of the first chip returns its vector, marks it in service, and from then on only a request
  of better rank is delivered, until the non-specific end of interrupt, which ends exactly this one: the service register
  is again what it was before the acknowledge.
\<close>

theorem pic_ack_eoi:
  assumes "PicGetIrq d 0 = Some i" "i \<noteq> 2" "priority_add (pics d 0) < 8"
    and "\<not> auto_eoi (pics d 0)" "\<not> special_mask (pics d 0)" "\<not> special_fully_nested_mode (pics d 0)"
    and "PicAcknowledge d = (v, d1, cs)"
  shows "v = unat (irq_base (pics d 0)) + i \<and> bit (isr (pics d1 0)) i \<and>
    (\<forall>j. PicGetIrq d1 0 = Some j \<longrightarrow> rank (pics d 0) j < rank (pics d 0) i) \<and>
    isr (pics (fst (PicIoWrite 0 0 0x20 d1)) 0) = isr (pics d 0)"
proof -
  define s where "s = pics d 0"
  define t where "t = pics d1 0"
  have i: "i < 8" "\<And>j. j < 8 \<Longrightarrow> bit (isr s) j \<Longrightarrow> rank s i < rank s j"
    using assms(1,3,5,6) by (auto simp: PicGetIrq_iff blocking_def s_def)
  have d1: "d1 = fst (PicUpdateIrq (upd_pic 0 (PicIntack i) d))" and v: "v = unat (irq_base s) + i"
    using assms(1,2,4,7) by (auto simp: PicAcknowledge_def s_def upd_pic_def PicIntack_def Let_def)
  have t: "isr t = isr s OR irq_bit i" "priority_add t = priority_add s" "\<not> special_mask t" "\<not> special_fully_nested_mode t"
    using assms(4-6) by (simp_all add: t_def d1 update_keeps s_def upd_pic_def PicIntack_def Let_def)
  have rank: "rank t = rank s" by (simp add: fun_eq_iff rank_def t(2))
  have isr: "bit (isr t) j \<longleftrightarrow> bit (isr s) j \<or> j = i" for j by (simp add: t(1) bit_or_iff bit_irq_bit [OF i(1)])
  have below: "rank s j < rank s i" if "PicGetIrq d1 0 = Some j" for j
    using that PicGetIrq_iff [of d1 0 j] i(1) isr t(2-4) assms(3) rank unfolding t_def [symmetric] s_def [symmetric] by (auto simp: blocking_def)
  have p: "priority_add t < 8" using assms(3) t(2) by (simp add: s_def)
  have "isr t \<noteq> 0" using isr [of i] by auto
  then obtain e where e: "e < 8" "bit (isr t) e" "GetPriority t (isr t) = rank t e" "\<And>j. j < 8 \<Longrightarrow> bit (isr t) j \<Longrightarrow> rank t e \<le> rank t j"
    using GetPriority_least [OF p] by metis
  then have "e = i" using i isr rank by (metis leD)
  then have "(GetPriority t (isr t) + priority_add t) mod 8 = i" "GetPriority t (isr t) < 8" using e(3) rank_inverse [OF p] i(1) by auto
  then have "isr (ocw2 0x20 t) = isr t AND NOT (irq_bit i)" by (simp add: ocw2_def Let_def)
  moreover have "isr t AND NOT (irq_bit i) = isr s"
    using isr i by (auto simp: u8_eq_iff bit_and_iff bit_not_iff bit_irq_bit)
  ultimately have "isr (pics (fst (PicIoWrite 0 0 0x20 d1)) 0) = isr s"
    by (simp add: PicIoWrite_def update_keeps upd_pic_def t_def [symmetric])
  then show ?thesis using below v isr [of i] by (simp add: s_def t_def)
qed

lemma rotation_bounded:
  "priority_add (PicReset s) < 8" "priority_add s < 8 \<Longrightarrow> priority_add (PicIntack i s) < 8" "priority_add s < 8 \<Longrightarrow> priority_add (ocw2 v s) < 8"
  by (simp_all add: PicReset_def PicIntack_def ocw2_def Let_def)

definition pic0 :: PicDevice where
  "pic0 = PicSetIrqSink (PicInit \<lparr>pics = (\<lambda>_. \<lparr>last_irr = 0, irr = 0, imr = 0, isr = 0, priority_add = 0, irq_base = 0,
     read_reg_select = False, pic_poll = False, special_mask = False, init_state = 0, auto_eoi = False,
     rotate_on_auto_eoi = False, special_fully_nested_mode = False, init4 = False, single_mode = False, ltim = False,
     elcr = 0, elcr_mask = 0\<rparr>), pic_sink = False\<rparr>)"

lemmas pic_eval = pic0_def PicSetIrqSink_def PicInit_def PicReset_def PicSetIrq_def PicSetIrq1_def PicUpdateIrq_def upd_pic_def
  PicGetIrq_def GetPriority_def scan.simps irq_bit_def drive_def Let_def

definition pic3 :: PicDevice where
  "pic3 = fst (PicSetIrq 3 True pic0)"

lemma pic3: "PicGetIrq pic3 0 = Some 3"
  by (simp add: pic3_def pic_eval)

theorem pic_selects_witness: "PicGetIrq pic3 0 = Some 3 \<and> requested (pics pic3 0) 3 \<and> \<not> requested (pics pic3 0) 2"
proof -
  have "priority_add (pics pic3 0) < 8" "rank (pics pic3 0) 2 < rank (pics pic3 0) 3"
    by (simp_all add: pic3_def pic_eval rank_def)
  then show ?thesis using pic_selects [of pic3 0 3] pic3 by (force simp: not_le [symmetric])
qed

theorem pic_ack_eoi_witness: "fst (PicAcknowledge pic3) = 3 \<and> bit (isr (pics (fst (snd (PicAcknowledge pic3))) 0)) 3 \<and>
  isr (pics (fst (PicIoWrite 0 0 0x20 (fst (snd (PicAcknowledge pic3))))) 0) = 0"
proof -
  have f: "priority_add (pics pic3 0) < 8" "\<not> auto_eoi (pics pic3 0)" "\<not> special_mask (pics pic3 0)"
    "\<not> special_fully_nested_mode (pics pic3 0)" "irq_base (pics pic3 0) = 0" "isr (pics pic3 0) = 0"
    by (simp_all add: pic3_def pic_eval)
  show ?thesis using pic_ack_eoi [OF pic3 _ f(1-4), of "fst (PicAcknowledge pic3)" "fst (snd (PicAcknowledge pic3))" "snd (snd (PicAcknowledge pic3))"] f(5,6)
    by simp
qed


end
