(* ===== verification/Ioapic.thy ===== *)
theory Ioapic
  imports Device
begin

text \<open>
  The I/O APIC of the PC (src/src/device/intc/ioapic.c): an index and a data
  window over 24 redirection entries, and the pins that turn a device line
  into a message for an APIC.  An operation returns the messages it sends, in
  order; the functions behind the two sinks do not call back into the chip.
  One-bit fields are truth values.
\<close>

unbundle bit_operations_syntax

section \<open>State\<close>

definition kIoapicPins :: nat where "kIoapicPins = 24"
definition kIoapicBase :: u64 where "kIoapicBase = 0xFEC00000"
definition kIoapicSize :: u64 where "kIoapicSize = 0x1000"
definition kVersion :: u32 where "kVersion = 0x00110011"

record IoapicPin =
  vector :: u32
  delivery :: u32
  dest_mode :: bool
  polarity :: bool
  remote_irr :: bool
  trigger :: bool
  pin_mask :: bool
  pin_dest :: u32
  pin_level :: bool

record IoapicDevice =
  io_index :: u32
  io_id :: u32
  pins :: "nat \<Rightarrow> IoapicPin"
  deliver_sink :: bool
  nmi_sink :: bool

datatype message = Deliver u32 bool nat bool | DeliverNmi u32 bool

definition upd_pin :: "nat \<Rightarrow> (IoapicPin \<Rightarrow> IoapicPin) \<Rightarrow> IoapicDevice \<Rightarrow> IoapicDevice" where
  "upd_pin k f d = d\<lparr>pins := (pins d)(k := f (pins d k))\<rparr>"

section \<open>Redirection entries\<close>

definition b32 :: "bool \<Rightarrow> u32" where
  "b32 b = (if b then 1 else 0)"

definition PinLow :: "IoapicPin \<Rightarrow> u32" where
  "PinLow p = (vector p AND 0xff) OR push_bit 8 (delivery p AND 7) OR push_bit 11 (b32 (dest_mode p)) OR
     push_bit 13 (b32 (polarity p)) OR push_bit 14 (b32 (remote_irr p)) OR push_bit 15 (b32 (trigger p)) OR
     push_bit 16 (b32 (pin_mask p))"

definition SetPinLow :: "u32 \<Rightarrow> IoapicPin \<Rightarrow> IoapicPin" where
  "SetPinLow v p = p\<lparr>vector := v AND 0xff, delivery := drop_bit 8 v AND 7, dest_mode := bit v 11, polarity := bit v 13,
     trigger := bit v 15, pin_mask := bit v 16\<rparr>"

section \<open>Requests\<close>

definition kDeliverySmi :: u32 where "kDeliverySmi = 2"
definition kDeliveryNmi :: u32 where "kDeliveryNmi = 4"
definition kDeliveryInit :: u32 where "kDeliveryInit = 5"
definition kDeliveryExtInt :: u32 where "kDeliveryExtInt = 7"

definition Service :: "nat \<Rightarrow> IoapicDevice \<Rightarrow> IoapicDevice \<times> message list" where
  "Service k d =
     (let p = pins d k in
      if pin_mask p then (d, [])
      else if delivery p = kDeliverySmi \<or> delivery p = kDeliveryInit then (d, [])
      else if delivery p = kDeliveryNmi then
        (d, if nmi_sink d then [DeliverNmi (pin_dest p) (dest_mode p)] else [])
      else if delivery p = kDeliveryExtInt then (d, [])
      else
        (if trigger p then upd_pin k (\<lambda>p. p\<lparr>remote_irr := True\<rparr>) d else d,
         if deliver_sink d then [Deliver (pin_dest p) (dest_mode p) (unat (vector p AND 0xff)) (trigger p)] else []))"

definition Reassess :: "nat \<Rightarrow> IoapicDevice \<Rightarrow> IoapicDevice \<times> message list" where
  "Reassess k d =
     (let p = pins d k in if \<not> trigger p \<or> \<not> pin_level p \<or> remote_irr p then (d, []) else Service k d)"

definition IoapicSetPin :: "nat \<Rightarrow> bool \<Rightarrow> IoapicDevice \<Rightarrow> IoapicDevice \<times> message list" where
  "IoapicSetPin k level d =
     (if k \<ge> kIoapicPins then (d, [])
      else
        (let asserted = (if polarity (pins d k) then \<not> level else level);
             d1 = upd_pin k (\<lambda>p. p\<lparr>pin_level := asserted\<rparr>) d in
         if \<not> asserted then (d1, [])
         else if trigger (pins d1 k) then Reassess k d1
         else Service k d1))"

text \<open>One round of the loop of \<open>IoapicEoi\<close>.\<close>

definition eoi_pin :: "nat \<Rightarrow> nat \<Rightarrow> IoapicDevice \<Rightarrow> IoapicDevice \<times> message list" where
  "eoi_pin vec k d =
     (let p = pins d k in
      if \<not> remote_irr p \<or> unat (vector p AND 0xff) \<noteq> vec then (d, [])
      else
        (let d1 = upd_pin k (\<lambda>p. p\<lparr>remote_irr := False\<rparr>) d in
         if pin_level p then Reassess k d1 else (d1, [])))"

fun eoi_pins :: "nat \<Rightarrow> nat list \<Rightarrow> IoapicDevice \<Rightarrow> IoapicDevice \<times> message list" where
  "eoi_pins vec [] d = (d, [])"
| "eoi_pins vec (k # ks) d = (let (d1, ms) = eoi_pin vec k d; (d2, ms') = eoi_pins vec ks d1 in (d2, ms @ ms'))"

definition IoapicEoi :: "nat \<Rightarrow> IoapicDevice \<Rightarrow> IoapicDevice \<times> message list" where
  "IoapicEoi vec d = eoi_pins vec [0..<kIoapicPins] d"

section \<open>The register window\<close>

definition IoapicRead :: "u64 \<Rightarrow> IoapicDevice \<Rightarrow> u64" where
  "IoapicRead addr d =
     (let off = addr - kIoapicBase in
      if off = 0 then ucast (io_index d)
      else if off \<noteq> 0x10 then 0
      else if io_index d = 0 \<or> io_index d = 2 then ucast (push_bit 24 (io_id d))
      else if io_index d = 1 then ucast kVersion
      else if io_index d < 0x10 \<or> io_index d > 0x10 + 2 * of_nat kIoapicPins - 1 then 0
      else
        (let p = pins d (unat (drop_bit 1 (io_index d - 0x10))) in
         if io_index d AND 1 = 0 then ucast (PinLow p) else ucast (push_bit 24 (pin_dest p))))"

definition IoapicWrite :: "u64 \<Rightarrow> u64 \<Rightarrow> IoapicDevice \<Rightarrow> IoapicDevice \<times> message list" where
  "IoapicWrite addr val d =
     (let off = addr - kIoapicBase; v = ucast val :: u32 in
      if off = 0 then (d\<lparr>io_index := v AND 0xff\<rparr>, [])
      else if off \<noteq> 0x10 then (d, [])
      else if io_index d = 0 then (d\<lparr>io_id := drop_bit 24 v AND 0xf\<rparr>, [])
      else if io_index d = 1 \<or> io_index d = 2 then (d, [])
      else if io_index d < 0x10 \<or> io_index d > 0x10 + 2 * of_nat kIoapicPins - 1 then (d, [])
      else
        (let k = unat (drop_bit 1 (io_index d - 0x10)) in
         Reassess k (upd_pin k (\<lambda>p. if io_index d AND 1 = 0 then SetPinLow v p
                                    else p\<lparr>pin_dest := drop_bit 24 v AND 0xf\<rparr>) d)))"

section \<open>Construction\<close>

definition reset_pin :: IoapicPin where
  "reset_pin = \<lparr>vector = 0, delivery = 0, dest_mode = False, polarity = False, remote_irr = False, trigger = False,
     pin_mask = True, pin_dest = 0, pin_level = False\<rparr>"

definition IoapicInit :: "IoapicDevice \<Rightarrow> IoapicDevice" where
  "IoapicInit d = d\<lparr>io_index := 0, io_id := 0, pins := (\<lambda>i. if i < kIoapicPins then reset_pin else pins d i)\<rparr>"

definition IoapicRegister :: "Bus \<Rightarrow> nat \<Rightarrow> nat \<Rightarrow> Bus option" where
  "IoapicRegister bus ops dev = BusAddRegion bus kIoapicBase kIoapicSize ops dev"

definition IoapicSetDeliverSink :: "IoapicDevice \<Rightarrow> IoapicDevice" where
  "IoapicSetDeliverSink d = d\<lparr>deliver_sink := True\<rparr>"

definition IoapicSetNmiSink :: "IoapicDevice \<Rightarrow> IoapicDevice" where
  "IoapicSetNmiSink d = d\<lparr>nmi_sink := True\<rparr>"


section \<open>Entries as the guest sees them\<close>

lemma bit_b32 [simp]: "bit (b32 b) n \<longleftrightarrow> b \<and> n = 0"
  by (simp add: b32_def bit_1_iff)

lemma u32_eq_iff: "(x :: u32) = y \<longleftrightarrow> (\<forall>n < 32. bit x n = bit y n)"
  by (auto intro: bit_word_eqI)

lemma all_less_32: "(\<forall>n < 32. P n) \<longleftrightarrow> (\<forall>n < 8. P n) \<and> (\<forall>n < 8. P (n + 8)) \<and> (\<forall>n < 8. P (n + 16)) \<and> (\<forall>n < 8. P (n + 24 :: nat))"
proof (intro iffI conjI allI impI; (elim conjE)?)
  fix n :: nat
  assume l: "\<forall>n < 8. P n" "\<forall>n < 8. P (n + 8)" "\<forall>n < 8. P (n + 16)" "\<forall>n < 8. P (n + 24)" and n: "n < 32"
  consider "n < 8" | "8 \<le> n" "n < 16" | "16 \<le> n" "n < 24" | "24 \<le> n" by linarith
  then show "P n"
  proof cases
    case 2 then show ?thesis using l(2) [rule_format, of "n - 8"] by simp
  next
    case 3 then show ?thesis using l(3) [rule_format, of "n - 16"] by simp
  next
    case 4 then show ?thesis using l(4) [rule_format, of "n - 24"] n by simp
  qed (use l(1) in simp)
qed auto

lemma PinLow_SetPinLow: "PinLow (SetPinLow v p) = (v AND 0x1afff) OR push_bit 14 (b32 (remote_irr p))"
  unfolding u32_eq_iff all_less_32 all_less_8
  by (simp add: PinLow_def SetPinLow_def bit_or_iff bit_and_iff bit_push_bit_iff bit_drop_bit_eq)

section \<open>Level requests\<close>

text \<open>An entry that hands a vector to an APIC.\<close>

definition carries :: "IoapicPin \<Rightarrow> bool" where
  "carries p \<longleftrightarrow> \<not> pin_mask p \<and> delivery p \<notin> {kDeliverySmi, kDeliveryNmi, kDeliveryInit, kDeliveryExtInt}"

text \<open>A level request on the wire has been sent and waits for its end of interrupt.\<close>

definition served :: "IoapicPin \<Rightarrow> bool" where
  "served p \<longleftrightarrow> (trigger p \<and> pin_level p \<and> carries p \<longrightarrow> remote_irr p)"

definition ioapic_ok :: "IoapicDevice \<Rightarrow> bool" where
  "ioapic_ok d \<longleftrightarrow> (\<forall>k < kIoapicPins. served (pins d k))"

lemma Service_pins: "pins (fst (Service k d)) = (pins d)(k := (pins d k)\<lparr>remote_irr := remote_irr (pins d k) \<or> carries (pins d k) \<and> trigger (pins d k)\<rparr>)"
  by (auto simp: Service_def Let_def upd_pin_def carries_def fun_eq_iff)

lemma Service_messages: "deliver_sink d \<Longrightarrow> carries (pins d k) \<Longrightarrow>
  snd (Service k d) = [Deliver (pin_dest (pins d k)) (dest_mode (pins d k)) (unat (vector (pins d k) AND 0xff)) (trigger (pins d k))]"
  by (simp add: Service_def Let_def carries_def)

lemma sinks [simp]:
  "deliver_sink (fst (Service k d)) = deliver_sink d" "deliver_sink (fst (Reassess k d)) = deliver_sink d" "deliver_sink (upd_pin k f d) = deliver_sink d"
  by (simp_all add: Service_def Reassess_def upd_pin_def Let_def)

lemma Reassess_served: "served (pins (fst (Reassess k d)) k)"
  by (auto simp: Reassess_def Let_def Service_pins served_def carries_def)

lemma Reassess_other: "j \<noteq> k \<Longrightarrow> pins (fst (Reassess k d)) j = pins d j"
  by (simp add: Reassess_def Let_def Service_pins)

lemma upd_pin_pins [simp]: "pins (upd_pin k f d) j = (if j = k then f (pins d k) else pins d j)"
  by (simp add: upd_pin_def)

lemma reassess_ok: "ioapic_ok d \<Longrightarrow> ioapic_ok (fst (Reassess k (upd_pin k f d)))"
  unfolding ioapic_ok_def by (metis Reassess_served Reassess_other upd_pin_pins)

lemma IoapicSetPin_ok: "ioapic_ok d \<Longrightarrow> ioapic_ok (fst (IoapicSetPin k level d))"
  by (simp add: IoapicSetPin_def Let_def reassess_ok) (auto simp: ioapic_ok_def Service_pins served_def)

lemma eoi_pin_ok: "ioapic_ok d \<Longrightarrow> ioapic_ok (fst (eoi_pin vec k d))"
  by (simp add: eoi_pin_def Let_def reassess_ok) (auto simp: ioapic_ok_def served_def)

lemma IoapicEoi_ok: "ioapic_ok d \<Longrightarrow> ioapic_ok (fst (IoapicEoi vec d))"
proof -
  have "ioapic_ok d \<Longrightarrow> ioapic_ok (fst (eoi_pins vec ks d))" for ks
    by (induction ks arbitrary: d) (auto simp: Let_def case_prod_unfold eoi_pin_ok)
  then show "ioapic_ok d \<Longrightarrow> ?thesis" by (simp add: IoapicEoi_def)
qed

lemma IoapicWrite_ok: "ioapic_ok d \<Longrightarrow> ioapic_ok (fst (IoapicWrite a v d))"
  by (simp add: IoapicWrite_def Let_def reassess_ok) (simp add: ioapic_ok_def)

lemma IoapicInit_ok: "ioapic_ok (IoapicInit d)"
  by (simp add: ioapic_ok_def IoapicInit_def served_def reset_pin_def)

text \<open>
  The transition to a high wire is the request of an edge entry, but the pin keeps no memory of it: setting a high
  wire again is a second request.
\<close>

lemma ioapic_edge_repeats:
  assumes "k < kIoapicPins" "carries (pins d k)" "\<not> trigger (pins d k)" "\<not> polarity (pins d k)" "deliver_sink d"
  shows "length (snd (IoapicSetPin k True d)) = 1" "length (snd (IoapicSetPin k True (fst (IoapicSetPin k True d)))) = 1"
  using assms by (simp_all add: IoapicSetPin_def Let_def Service_pins Service_messages carries_def)

section \<open>The window\<close>

lemma entry_index:
  assumes "k < 24" "b = 0 \<or> b = (1 :: u32)"
  defines "i \<equiv> 0x10 + 2 * of_nat k + b"
  shows "unat (drop_bit 1 (i - 0x10)) = k" "i AND 1 = b" "\<not> i < 0x10" "\<not> i > 0x3f"
proof -
  note b = assms(2)
  have u: "unat (2 * of_nat k + b) = 2 * k + unat b"
    using assms(1) b by (auto simp: unat_word_ariths unat_of_nat)
  then have i: "unat i = 0x10 + 2 * k + unat b" using assms(1) b unfolding i_def
    by (auto simp: unat_word_ariths unat_of_nat)
  show "unat (drop_bit 1 (i - 0x10)) = k" using u b by (auto simp: i_def drop_bit_eq_div unat_div)
  show "\<not> i < 0x10" "\<not> i > 0x3f" using i assms(1) b by (auto simp: word_less_nat_alt)
  show "i AND 1 = b" using i b by (auto simp: and_one_eq word_unat_eq_iff unat_mod i)
qed

lemma Reassess_pin: "pins (fst (Reassess k d)) k = (pins d k)\<lparr>remote_irr := remote_irr (pins (fst (Reassess k d)) k)\<rparr>"
  by (simp add: Reassess_def Let_def Service_pins)

lemma Reassess_index [simp]: "io_index (fst (Reassess k d)) = io_index d"
  by (simp add: Reassess_def Service_def Let_def upd_pin_def)

lemma write_entry:
  assumes "k < kIoapicPins" "b = 0 \<or> b = (1 :: u32)" "io_index d = 0x10 + 2 * of_nat k + b"
  shows "IoapicWrite (kIoapicBase + 0x10) val d = Reassess k (upd_pin k (\<lambda>p. if b = 0 then SetPinLow (ucast val) p
    else p\<lparr>pin_dest := drop_bit 24 (ucast val) AND 0xf\<rparr>) d)"
    "IoapicRead (kIoapicBase + 0x10) d = (if b = 0 then ucast (PinLow (pins d k)) else ucast (push_bit 24 (pin_dest (pins d k))))"
proof -
  have k: "k < 24" using assms(1) by (simp add: kIoapicPins_def)
  note e = entry_index [OF k assms(2), folded assms(3)]
  have "io_index d \<notin> {0, 1, 2}" using e(3) by auto
  then show "IoapicWrite (kIoapicBase + 0x10) val d = Reassess k (upd_pin k (\<lambda>p. if b = 0 then SetPinLow (ucast val) p
      else p\<lparr>pin_dest := drop_bit 24 (ucast val) AND 0xf\<rparr>) d)"
    "IoapicRead (kIoapicBase + 0x10) d = (if b = 0 then ucast (PinLow (pins d k)) else ucast (push_bit 24 (pin_dest (pins d k))))"
    using e by (simp_all add: IoapicWrite_def IoapicRead_def Let_def kIoapicPins_def)
qed

text \<open>
  A redirection entry reads back as it was written: of the low half, the fields that the chip has, with the bit
  that it maintains itself; of the high half, the destination cut to four bits.
\<close>

theorem ioapic_entry:
  assumes "k < kIoapicPins" "b = 0 \<or> b = (1 :: u32)" "io_index d = 0x10 + 2 * of_nat k + b" "d' = fst (IoapicWrite (kIoapicBase + 0x10) val d)"
  shows "IoapicRead (kIoapicBase + 0x10) d' =
    (if b = 0 then ucast ((ucast val AND 0x1afff) OR push_bit 14 (b32 (remote_irr (pins d' k)))) else ucast (ucast val AND 0xf000000 :: u32))"
proof -
  let ?u = "upd_pin k (\<lambda>p. if b = 0 then SetPinLow (ucast val) p else p\<lparr>pin_dest := drop_bit 24 (ucast val) AND 0xf\<rparr>) d"
  have d': "d' = fst (Reassess k ?u)" using write_entry(1) [OF assms(1-3)] assms(4) by simp
  have i: "io_index d' = 0x10 + 2 * of_nat k + b" using assms(3) by (simp add: d' upd_pin_def)
  have s: "(SetPinLow v p)\<lparr>remote_irr := r\<rparr> = SetPinLow v (p\<lparr>remote_irr := r\<rparr>)" for v p r by (simp add: SetPinLow_def)
  have p: "pins d' k = (pins ?u k)\<lparr>remote_irr := remote_irr (pins d' k)\<rparr>" unfolding d' by (rule Reassess_pin)
  have m: "push_bit 24 (drop_bit 24 v AND 0xf) = v AND 0xf000000" for v :: u32
    unfolding u32_eq_iff all_less_32 all_less_8 by (simp add: bit_and_iff bit_push_bit_iff bit_drop_bit_eq)
  have "b = 0 \<Longrightarrow> PinLow (pins d' k) = (ucast val AND 0x1afff) OR push_bit 14 (b32 (remote_irr (pins d' k)))"
    by (subst p) (simp add: s PinLow_SetPinLow)
  moreover have "b \<noteq> 0 \<Longrightarrow> pin_dest (pins d' k) = drop_bit 24 (ucast val) AND 0xf" by (subst p) simp
  ultimately show ?thesis using write_entry(2) [OF assms(1,2) i] m [of "ucast val"] by simp
qed

end
