(* ===== verification/Lapic.thy ===== *)
theory Lapic
  imports Device
begin

text \<open>
  The local APIC of the PC (src/src/device/intc/lapic.c): request, service and
  trigger mode bits for 256 vectors, the priority rule, the interrupt line of
  the processor and the timer, which is computed from the emulated clock
  \<open>now\<close>.  A vector of -1 is \<open>None\<close>.

  The register array has 64 slots; an access to another slot has no defined
  effect in C and gives \<open>None\<close>.  The function behind the end-of-interrupt sink
  may deliver a new vector to the same APIC before the line is refreshed, so
  it is an argument: it acts on the APIC and on the state \<open>'x\<close> of what is
  behind the sink.
\<close>

unbundle bit_operations_syntax

section \<open>State\<close>

definition kLapicBase :: u64 where "kLapicBase = 0xFEE00000"
definition kLapicSize :: u64 where "kLapicSize = 0x1000"
definition kLapicTimerFreq :: u64 where "kLapicTimerFreq = 100000000"

type_synonym vectors = "nat \<Rightarrow> u8"

record LapicDevice =
  reg :: "nat \<Rightarrow> u32"
  lirr :: vectors
  lisr :: vectors
  ltmr :: vectors
  timer_base_us :: u64
  timer_count :: u32
  irq_level :: bool
  lapic_sink :: bool

type_synonym 'x eoi_sink = "nat \<Rightarrow> LapicDevice \<times> 'x \<Rightarrow> (LapicDevice \<times> 'x) \<times> line_call list"

definition set_reg :: "nat \<Rightarrow> u32 \<Rightarrow> LapicDevice \<Rightarrow> LapicDevice" where
  "set_reg i v d = d\<lparr>reg := (reg d)(i := v)\<rparr>"

abbreviation (input) rTpr :: nat where "rTpr \<equiv> 0x08"
abbreviation (input) rSvr :: nat where "rSvr \<equiv> 0x0f"
abbreviation (input) rLvtTimer :: nat where "rLvtTimer \<equiv> 0x32"
abbreviation (input) rTimerInitial :: nat where "rTimerInitial \<equiv> 0x38"
abbreviation (input) rTimerDivide :: nat where "rTimerDivide \<equiv> 0x3e"

section \<open>Vector sets\<close>

text \<open>
  The loop of \<open>HighBit\<close> shifts until the top bit is set; on a byte that is
  not zero it stops before eight rounds, on zero it would not stop.
\<close>

function high_bit :: "u8 \<Rightarrow> nat \<Rightarrow> nat" where
  "high_bit b n = (if \<not> bit b 7 \<and> 0 < n then high_bit (push_bit 1 b) (n - 1) else n)"
  by pat_completeness auto
termination
  by (relation "measure snd") auto

declare high_bit.simps [simp del]

definition HighBit :: "u8 \<Rightarrow> nat" where
  "HighBit b = high_bit b 7"

fun highest_from :: "vectors \<Rightarrow> nat \<Rightarrow> nat option" where
  "highest_from vs 0 = None"
| "highest_from vs (Suc n) = (if vs (n + 2) \<noteq> 0 then Some (8 * (n + 2) + HighBit (vs (n + 2))) else highest_from vs n)"

definition HighestVector :: "vectors \<Rightarrow> nat option" where
  "HighestVector vs = highest_from vs 30"

definition VectorSet :: "nat \<Rightarrow> vectors \<Rightarrow> vectors" where
  "VectorSet v vs = vs(v div 8 := vs (v div 8) OR push_bit (v mod 8) 1)"

definition VectorClear :: "nat \<Rightarrow> vectors \<Rightarrow> vectors" where
  "VectorClear v vs = vs(v div 8 := vs (v div 8) AND NOT (push_bit (v mod 8) 1))"

section \<open>Priority and delivery\<close>

definition ProcessorPriority :: "LapicDevice \<Rightarrow> nat" where
  "ProcessorPriority d =
     (let ppr = unat (drop_bit 4 (reg d rTpr) AND 0xf) in
      case HighestVector (lisr d) of None \<Rightarrow> ppr | Some v \<Rightarrow> if v div 16 > ppr then v div 16 else ppr)"

definition Deliverable :: "LapicDevice \<Rightarrow> bool" where
  "Deliverable d \<longleftrightarrow> bit (reg d rSvr) 8 \<and>
     (case HighestVector (lirr d) of None \<Rightarrow> False | Some v \<Rightarrow> v div 16 > ProcessorPriority d)"

definition UpdateIrq :: "LapicDevice \<Rightarrow> LapicDevice \<times> line_call list" where
  "UpdateIrq d =
     (if Deliverable d = irq_level d then (d, [])
      else (d\<lparr>irq_level := Deliverable d\<rparr>, drive (lapic_sink d) [(0, Deliverable d)]))"

definition LapicDeliver :: "nat \<Rightarrow> bool \<Rightarrow> LapicDevice \<Rightarrow> LapicDevice \<times> line_call list" where
  "LapicDeliver v level d =
     (if v < 16 \<or> v > 255 then (d, [])
      else UpdateIrq (d\<lparr>lirr := VectorSet v (lirr d), ltmr := (if level then VectorSet v (ltmr d) else VectorClear v (ltmr d))\<rparr>))"

definition LapicAcknowledge :: "LapicDevice \<Rightarrow> nat option \<times> LapicDevice \<times> line_call list" where
  "LapicAcknowledge d =
     (if \<not> bit (reg d rSvr) 8 then (None, d, [])
      else if \<not> Deliverable d then (None, d, [])
      else case HighestVector (lirr d) of None \<Rightarrow> (None, d, [])
        | Some v \<Rightarrow> (Some v, UpdateIrq (d\<lparr>lirr := VectorClear v (lirr d), lisr := VectorSet v (lisr d)\<rparr>)))"

section \<open>Timer\<close>

definition TimerDivisor :: "u32 \<Rightarrow> u32" where
  "TimerDivisor tdcr = [2, 4, 8, 16, 32, 64, 128, 1] ! unat (tdcr AND 7)"

definition per_second :: "LapicDevice \<Rightarrow> u64" where
  "per_second d = kLapicTimerFreq div ucast (TimerDivisor (reg d rTimerDivide))"

definition CountsElapsed :: "LapicDevice \<Rightarrow> u64 \<Rightarrow> u32" where
  "CountsElapsed d now =
     (let us = now - timer_base_us d in
      if us <=s 0 then 0
      else (let counts = us * per_second d div 1000000 in if counts > 0xffffffff then 0xffffffff else ucast counts))"

definition TimerCurrent :: "u64 \<Rightarrow> LapicDevice \<Rightarrow> u32" where
  "TimerCurrent now d =
     (if timer_count d = 0 then 0
      else (let burned = CountsElapsed d now in if burned \<ge> timer_count d then 0 else timer_count d - burned))"

definition TimerArm :: "u64 \<Rightarrow> u32 \<Rightarrow> LapicDevice \<Rightarrow> LapicDevice" where
  "TimerArm now n d = d\<lparr>timer_count := n, timer_base_us := now\<rparr>"

definition TimerExpire :: "u64 \<Rightarrow> LapicDevice \<Rightarrow> LapicDevice \<times> line_call list" where
  "TimerExpire now d =
     (let lvt = reg d rLvtTimer; v = unat (lvt AND 0xff);
          (d1, cs) = (if \<not> bit lvt 16 \<and> v \<ge> 16 then LapicDeliver v False d else (d, []));
          initial = reg d1 rTimerInitial in
      if drop_bit 17 lvt AND 3 = 1 \<and> initial \<noteq> 0 then (TimerArm now initial d1, cs)
      else (d1\<lparr>timer_count := 0\<rparr>, cs))"

definition LapicPoll :: "u64 \<Rightarrow> LapicDevice \<Rightarrow> LapicDevice \<times> line_call list" where
  "LapicPoll now d =
     (if timer_count d = 0 then (d, [])
      else if CountsElapsed d now < timer_count d then (d, [])
      else TimerExpire now d)"

definition LapicNextEventUs :: "u64 \<Rightarrow> LapicDevice \<Rightarrow> u64" where
  "LapicNextEventUs now d =
     (if timer_count d = 0 then 0
      else
        (let burned = ucast (CountsElapsed d now) :: u64 in
         if burned \<ge> ucast (timer_count d) then 0
         else ((ucast (timer_count d) - burned) * 1000000 + per_second d - 1) div per_second d))"

section \<open>The register window\<close>

definition vector_word :: "vectors \<Rightarrow> nat \<Rightarrow> u64" where
  "vector_word vs i = ucast (vs i) OR push_bit 8 (ucast (vs (i + 1))) OR push_bit 16 (ucast (vs (i + 2))) OR push_bit 24 (ucast (vs (i + 3)))"

definition reg_at :: "LapicDevice \<Rightarrow> u64 \<Rightarrow> u32 option" where
  "reg_at d off = (let i = unat (off div 16) in if i < 0x40 then Some (reg d i) else None)"

definition LapicRead :: "u64 \<Rightarrow> u64 \<Rightarrow> LapicDevice \<Rightarrow> u64 option" where
  "LapicRead now addr d =
     (let off = addr - kLapicBase in
      if off AND 0xf \<noteq> 0 then Some 0
      else if off \<ge> 0x100 \<and> off < 0x200 + 0x20 then
        (let (vs, base) = (if off < 0x180 then (lisr d, 0x100) else if off < 0x200 then (ltmr d, 0x180) else (lirr d, 0x200)) in
         Some (vector_word vs (unat ((off - base) div 16) * 4)))
      else if off = 0x30 then Some 0x50014
      else if off = 0x20 then Some (ucast (reg d 2 AND 0xff000000))
      else if off = 0xA0 then Some (ucast (of_nat (ProcessorPriority d * 16) :: u32))
      else if off = 0x390 then Some (ucast (TimerCurrent now d))
      else if off = 0x300 then Some (ucast (reg d 0x30 AND NOT (push_bit 12 1)))
      else map_option ucast (reg_at d off))"

definition lapic_eoi :: "'x eoi_sink option \<Rightarrow> LapicDevice \<times> 'x \<Rightarrow> (LapicDevice \<times> 'x) \<times> line_call list" where
  "lapic_eoi eoi dx =
     (let (d, x) = dx in
      case HighestVector (lisr d) of None \<Rightarrow> ((d, x), [])
      | Some v \<Rightarrow>
          (let d1 = d\<lparr>lisr := VectorClear v (lisr d)\<rparr>;
               ((d2, x2), cs) = (case eoi of Some f \<Rightarrow> if bit (ltmr d (v div 8)) (v mod 8) then f v (d1, x) else ((d1, x), [])
                                 | None \<Rightarrow> ((d1, x), []));
               (d3, cs') = UpdateIrq d2 in
           ((d3, x2), cs @ cs')))"

definition with_x :: "'x \<Rightarrow> LapicDevice \<times> line_call list \<Rightarrow> (LapicDevice \<times> 'x) \<times> line_call list" where
  "with_x x r = ((fst r, x), snd r)"

definition LapicWrite :: "'x eoi_sink option \<Rightarrow> u64 \<Rightarrow> u64 \<Rightarrow> u64 \<Rightarrow> LapicDevice \<times> 'x \<Rightarrow> ((LapicDevice \<times> 'x) \<times> line_call list) option" where
  "LapicWrite eoi now addr val dx =
     (let (d, x) = dx; off = addr - kLapicBase; v = ucast val :: u32; i = unat (off div 16) in
      if off AND 0xf \<noteq> 0 then Some (dx, [])
      else if off = 0xB0 then Some (lapic_eoi eoi dx)
      else if off = 0x80 then Some (with_x x (UpdateIrq (set_reg i (v AND 0xff) d)))
      else if off = 0xF0 then Some (with_x x (UpdateIrq (set_reg i v d)))
      else if off = 0xA0 \<or> off = 0x390 then Some (dx, [])
      else if off = 0x280 then Some ((set_reg i (reg d i AND NOT v) d, x), [])
      else if off = 0x380 then Some ((TimerArm now v (set_reg i v d), x), [])
      else if off = 0x3E0 then
        (let current = TimerCurrent now d; d1 = set_reg i v d in
         Some ((if current \<noteq> 0 then TimerArm now current d1 else d1, x), []))
      else if i < 0x40 then Some ((set_reg i v d, x), [])
      else None)"

section \<open>Construction\<close>

definition LapicInit :: "LapicDevice \<Rightarrow> LapicDevice" where
  "LapicInit d = d\<lparr>reg := (\<lambda>_. 0)(0x0f := 0xff, 0x08 := 0, 0x0e := 0xffffffff, 0x0d := 0), lirr := (\<lambda>_. 0), lisr := (\<lambda>_. 0),
     ltmr := (\<lambda>_. 0), timer_count := 0, timer_base_us := 0, irq_level := False\<rparr>"

definition LapicRegister :: "Bus \<Rightarrow> nat \<Rightarrow> nat \<Rightarrow> Bus option" where
  "LapicRegister bus ops dev = BusAddRegion bus kLapicBase kLapicSize ops dev"

definition LapicSetIrqSink :: "LapicDevice \<Rightarrow> LapicDevice" where
  "LapicSetIrqSink d = d\<lparr>lapic_sink := True\<rparr>"

definition LapicId :: "LapicDevice \<Rightarrow> u32" where
  "LapicId d = drop_bit 24 (reg d 0x02) AND 0xf"

definition LapicLogicalMask :: "LapicDevice \<Rightarrow> u32" where
  "LapicLogicalMask d = drop_bit 24 (reg d 0x0d) AND 0xff"


section \<open>The highest vector\<close>

definition has :: "vectors \<Rightarrow> nat \<Rightarrow> bool" where
  "has vs v \<longleftrightarrow> bit (vs (v div 8)) (v mod 8)"

lemma high_bit_spec:
  assumes "b \<noteq> 0" "n \<le> 7" "\<forall>m < 7 - n. \<not> bit b m"
  shows "high_bit b n \<le> n \<and> bit b (high_bit b n + (7 - n)) \<and> (\<forall>m < 8. high_bit b n + (7 - n) < m \<longrightarrow> \<not> bit b m)"
  using assms
proof (induction n arbitrary: b)
  case 0
  then have "bit b 7" by (auto simp: u8_eq_iff all_less_8)
  then show ?case by (simp add: high_bit.simps)
next
  case (Suc n)
  show ?case
  proof (cases "bit b 7")
    case True
    then show ?thesis using Suc.prems by (simp add: high_bit.simps [of b "Suc n"])
  next
    case False
    define c where "c = push_bit 1 b"
    have s: "bit c m \<longleftrightarrow> 0 < m \<and> m < 8 \<and> bit b (m - 1)" for m unfolding c_def by (subst bit_push_bit_iff) (auto dest: bit_imp_le_length)
    obtain m where "m < 8" "bit b m" using Suc.prems(1) by (auto simp: u8_eq_iff)
    then have "bit c (m + 1)" using False by (cases "m = 7") (auto simp: s)
    then have "c \<noteq> 0" by auto
    moreover have "\<forall>m < 7 - n. \<not> bit c m" using Suc.prems(2,3) by (auto simp: s)
    ultimately have ih: "high_bit c n \<le> n" "bit c (high_bit c n + (7 - n))"
      "\<forall>m < 8. high_bit c n + (7 - n) < m \<longrightarrow> \<not> bit c m" using Suc.IH Suc.prems(2) by auto
    have e: "high_bit b (Suc n) = high_bit c n" using False by (subst high_bit.simps) (simp add: c_def)
    have "\<not> bit b m" if "m < 8" "high_bit c n + (7 - Suc n) < m" for m
      using ih(3) [rule_format, of "m + 1"] that False Suc.prems(2) by (cases "m = 7") (auto simp: s)
    moreover have "bit b (high_bit c n + (7 - Suc n))" using ih(2) Suc.prems(2) by (auto simp: s add.commute)
    ultimately show ?thesis using ih(1) e by auto
  qed
qed

lemma HighBit_max:
  assumes "b \<noteq> 0"
  shows "HighBit b < 8" "bit b (HighBit b)" "m < 8 \<Longrightarrow> bit b m \<Longrightarrow> m \<le> HighBit b"
  using high_bit_spec [OF assms, of 7] by (auto simp: HighBit_def not_less [symmetric])

lemma highest_from_max:
  "case highest_from vs n of None \<Rightarrow> \<forall>w. 16 \<le> w \<and> w < 8 * (n + 2) \<longrightarrow> \<not> has vs w
   | Some v \<Rightarrow> 16 \<le> v \<and> v < 8 * (n + 2) \<and> has vs v \<and> (\<forall>w. v < w \<and> w < 8 * (n + 2) \<longrightarrow> \<not> has vs w)"
proof (induction n)
  case (Suc n)
  let ?b = "vs (n + 2)"
  have w: "w div 8 = n + 2" if "8 * (n + 2) \<le> w" "w < 8 * (n + 3)" for w using that by auto
  show ?case
  proof (cases "?b = 0")
    case True
    have n: "w < 8 * (n + 2)" if "has vs w" "w < 8 * (Suc n + 2)" for w
    proof (rule ccontr)
      assume "\<not> w < 8 * (n + 2)"
      then have "w div 8 = n + 2" using that(2) by (intro w) auto
      then show False using that(1) True by (simp add: has_def)
    qed
    show ?thesis
    proof (cases "highest_from vs n")
      case None
      then show ?thesis using Suc True n by simp blast
    next
      case (Some v)
      then have "16 \<le> v" "v < 8 * (n + 2)" "has vs v" "\<forall>w. v < w \<and> w < 8 * (n + 2) \<longrightarrow> \<not> has vs w" using Suc by auto
      moreover have "highest_from vs (Suc n) = Some v" using Some True by simp
      ultimately show ?thesis using n by auto
    qed
  next
    case False
    note h = HighBit_max [OF False]
    let ?v = "8 * (n + 2) + HighBit ?b"
    have v: "?v div 8 = n + 2" "?v mod 8 = HighBit ?b" using h(1) mod_mult_self4 [of 8 "n + 2" "HighBit ?b"] by auto
    then have "has vs ?v" using h(2) by (simp add: has_def)
    moreover have "\<not> has vs w" if "?v < w" "w < 8 * (n + 3)" for w
    proof -
      have d: "w div 8 = n + 2" using that by (intro w) auto
      have "w = 8 * (n + 2) + w mod 8" using d by (metis mult_div_mod_eq)
      then have "HighBit ?b < w mod 8" using that(1) by linarith
      then show ?thesis using h(3) [of "w mod 8"] d by (auto simp: has_def)
    qed
    ultimately show ?thesis using False h(1) by auto
  qed
qed auto

lemma HighestVector_iff:
  "HighestVector vs = Some v \<longleftrightarrow> 16 \<le> v \<and> v < 256 \<and> has vs v \<and> (\<forall>w < 256. v < w \<longrightarrow> \<not> has vs w)"
  "HighestVector vs = None \<longleftrightarrow> (\<forall>w. 16 \<le> w \<and> w < 256 \<longrightarrow> \<not> has vs w)"
  using highest_from_max [of 30 vs] unfolding HighestVector_def
  by (auto split: option.splits) (metis linorder_neqE_nat)+

lemma has_set: "w < 256 \<Longrightarrow> has (VectorSet v vs) w \<longleftrightarrow> w = v \<or> has vs w"
  and has_clear: "w < 256 \<Longrightarrow> has (VectorClear v vs) w \<longleftrightarrow> w \<noteq> v \<and> has vs w"
proof -
  have "w = v" if "w div 8 = v div 8" "w mod 8 = v mod 8" using that by (metis mult_div_mod_eq)
  moreover have "bit (2 ^ (v mod 8) :: u8) n \<longleftrightarrow> n = v mod 8" for n by (auto simp: bit_exp_iff)
  ultimately show "has (VectorSet v vs) w \<longleftrightarrow> w = v \<or> has vs w" "has (VectorClear v vs) w \<longleftrightarrow> w \<noteq> v \<and> has vs w"
    by (auto simp: has_def VectorSet_def VectorClear_def bit_or_iff bit_and_iff bit_not_iff bit_push_bit_iff bit_1_iff)
qed

section \<open>Which vector the processor gets\<close>

text \<open>The priority class that a vector has to exceed: the task priority and every vector in service.\<close>

definition outranks :: "LapicDevice \<Rightarrow> nat \<Rightarrow> bool" where
  "outranks d v \<longleftrightarrow> unat (drop_bit 4 (reg d 8) AND 0xf) < v div 16 \<and> (\<forall>w. 16 \<le> w \<and> w < 256 \<and> has (lisr d) w \<longrightarrow> w div 16 < v div 16)"

lemma priority_less: "ProcessorPriority d < v div 16 \<longleftrightarrow> outranks d v"
proof (cases "HighestVector (lisr d)")
  case None
  then have "\<forall>w. 16 \<le> w \<and> w < 256 \<longrightarrow> \<not> has (lisr d) w" by (simp add: HighestVector_iff)
  then show ?thesis using None by (auto simp: ProcessorPriority_def outranks_def)
next
  case (Some u)
  then have u: "16 \<le> u" "u < 256" "has (lisr d) u" and m: "\<forall>w < 256. u < w \<longrightarrow> \<not> has (lisr d) w" by (auto simp: HighestVector_iff)
  have "w div 16 \<le> u div 16" if "w < 256" "has (lisr d) w" for w
    using that m by (intro div_le_mono) (metis not_le)
  then have "(\<forall>w. 16 \<le> w \<and> w < 256 \<and> has (lisr d) w \<longrightarrow> w div 16 < v div 16) \<longleftrightarrow> u div 16 < v div 16"
    using u by (metis le_less_trans)
  then show ?thesis using Some by (auto simp: ProcessorPriority_def outranks_def Let_def)
qed

definition requests :: "LapicDevice \<Rightarrow> nat \<Rightarrow> bool" where
  "requests d v \<longleftrightarrow> 16 \<le> v \<and> v < 256 \<and> has (lirr d) v"

lemma Deliverable_iff: "Deliverable d \<longleftrightarrow> bit (reg d 15) 8 \<and> (\<exists>v. HighestVector (lirr d) = Some v \<and> outranks d v)"
  by (auto simp: Deliverable_def priority_less split: option.splits)

lemma acknowledge_iff:
  "fst (LapicAcknowledge d) = Some v \<longleftrightarrow> bit (reg d 15) 8 \<and> requests d v \<and> (\<forall>w. requests d w \<longrightarrow> w \<le> v) \<and> outranks d v"
proof -
  have "HighestVector (lirr d) = Some v \<longleftrightarrow> requests d v \<and> (\<forall>w. requests d w \<longrightarrow> w \<le> v)"
    unfolding HighestVector_iff requests_def by (metis leI le_trans less_imp_le not_le)
  then show ?thesis by (auto simp: LapicAcknowledge_def Deliverable_iff split: option.splits)
qed

text \<open>
  C21. The processor gets a vector exactly when the APIC is enabled, and it is the highest vector requested, of a class
  above the task priority and above every vector in service.
\<close>

theorem lapic_selects:
  "fst (LapicAcknowledge d) = Some v \<longleftrightarrow> bit (reg d 15) 8 \<and> requests d v \<and> (\<forall>w. requests d w \<longrightarrow> w \<le> v) \<and> outranks d v"
  by (rule acknowledge_iff)

section \<open>The interrupt line\<close>

definition lapic_ok :: "LapicDevice \<Rightarrow> bool" where
  "lapic_ok d \<longleftrightarrow> irq_level d = Deliverable d"

lemma Deliverable_cong:
  "reg d 8 = reg e 8 \<Longrightarrow> reg d 15 = reg e 15 \<Longrightarrow> lirr d = lirr e \<Longrightarrow> lisr d = lisr e \<Longrightarrow> Deliverable d = Deliverable e"
  by (simp add: Deliverable_iff outranks_def)

text \<open>The calls on the line during an operation, from state \<open>d\<close> to state \<open>e\<close>, leave it where the state says.\<close>

definition tracks :: "LapicDevice \<Rightarrow> line_call list \<Rightarrow> LapicDevice \<Rightarrow> bool" where
  "tracks d cs e \<longleftrightarrow> lapic_sink e = lapic_sink d \<and> (\<forall>c \<in> set cs. fst c = 0) \<and> (lapic_sink d \<longrightarrow> line_after (irq_level d) 0 cs = irq_level e)"

lemma tracks_same: "irq_level e = irq_level d \<Longrightarrow> lapic_sink e = lapic_sink d \<Longrightarrow> tracks d [] e"
  by (simp add: tracks_def)

lemma tracks_trans: "tracks d cs e \<Longrightarrow> tracks e cs' f \<Longrightarrow> tracks d (cs @ cs') f"
  by (auto simp: tracks_def)

lemma tracks_from: "tracks e cs f \<Longrightarrow> irq_level e = irq_level d \<Longrightarrow> lapic_sink e = lapic_sink d \<Longrightarrow> tracks d cs f"
  by (simp add: tracks_def)

lemma UpdateIrq_tracks: "tracks d (snd (UpdateIrq d)) (fst (UpdateIrq d))"
  by (simp add: UpdateIrq_def drive_def tracks_def)

lemma UpdateIrq_ok: "lapic_ok (fst (UpdateIrq d))"
proof -
  have "Deliverable (d\<lparr>irq_level := b\<rparr>) = Deliverable d" for b by (rule Deliverable_cong) simp_all
  then show ?thesis by (simp add: UpdateIrq_def lapic_ok_def)
qed

lemma UpdateIrq_fields [simp]:
  "lirr (fst (UpdateIrq d)) = lirr d" "lisr (fst (UpdateIrq d)) = lisr d" "ltmr (fst (UpdateIrq d)) = ltmr d" "reg (fst (UpdateIrq d)) = reg d"
  by (simp_all add: UpdateIrq_def)

lemma LapicDeliver_ok: "lapic_ok d \<Longrightarrow> lapic_ok (fst (LapicDeliver v l d))"
  and LapicDeliver_tracks: "tracks d (snd (LapicDeliver v l d)) (fst (LapicDeliver v l d))"
  by (auto simp: LapicDeliver_def UpdateIrq_ok tracks_same intro: tracks_from [OF UpdateIrq_tracks])

lemma LapicAcknowledge_ok: "lapic_ok d \<Longrightarrow> lapic_ok (fst (snd (LapicAcknowledge d)))"
  and LapicAcknowledge_tracks: "tracks d (snd (snd (LapicAcknowledge d))) (fst (snd (LapicAcknowledge d)))"
  by (auto simp: LapicAcknowledge_def UpdateIrq_ok tracks_same intro: tracks_from [OF UpdateIrq_tracks] split: option.splits)

lemma ok_other:
  assumes "lapic_ok d"
  shows "i \<noteq> 8 \<Longrightarrow> i \<noteq> 15 \<Longrightarrow> lapic_ok (set_reg i v d)" "lapic_ok (TimerArm now n d)" "lapic_ok (d\<lparr>timer_count := n\<rparr>)"
  using assms Deliverable_cong [of "set_reg i v d" d] Deliverable_cong [of "TimerArm now n d" d] Deliverable_cong [of "d\<lparr>timer_count := n\<rparr>" d]
  by (simp_all add: lapic_ok_def set_reg_def TimerArm_def)

lemma other_fields [simp]:
  "irq_level (set_reg i v d) = irq_level d" "lapic_sink (set_reg i v d) = lapic_sink d"
  "irq_level (TimerArm now n d) = irq_level d" "lapic_sink (TimerArm now n d) = lapic_sink d"
  by (simp_all add: set_reg_def TimerArm_def)

lemma TimerExpire_ok: "lapic_ok d \<Longrightarrow> lapic_ok (fst (TimerExpire now d))"
  by (simp add: TimerExpire_def Let_def case_prod_unfold ok_other LapicDeliver_ok)

lemma TimerExpire_tracks: "tracks d (snd (TimerExpire now d)) (fst (TimerExpire now d))"
proof -
  have "tracks d cs (TimerArm now n e) = tracks d cs e" "tracks d cs (e\<lparr>timer_count := n\<rparr>) = tracks d cs e" for cs e n by (simp_all add: tracks_def)
  then show ?thesis by (simp add: TimerExpire_def Let_def case_prod_unfold LapicDeliver_tracks tracks_same)
qed

lemma LapicPoll_ok: "lapic_ok d \<Longrightarrow> lapic_ok (fst (LapicPoll now d))"
  and LapicPoll_tracks: "tracks d (snd (LapicPoll now d)) (fst (LapicPoll now d))"
  by (simp_all add: LapicPoll_def TimerExpire_ok TimerExpire_tracks tracks_same)

lemma LapicInit_ok: "lapic_ok (LapicInit d)"
  by (simp add: lapic_ok_def Deliverable_def LapicInit_def)

text \<open>What the APIC needs of the function behind its end-of-interrupt sink.\<close>

locale eoi_contract =
  fixes eoi :: "'x eoi_sink"
  assumes eoi_tracks: "tracks d (snd (eoi v (d, x))) (fst (fst (eoi v (d, x))))"
begin

lemma lapic_eoi_tracks: "tracks d (snd (lapic_eoi (Some eoi) (d, x))) (fst (fst (lapic_eoi (Some eoi) (d, x))))"
  by (auto simp: lapic_eoi_def Let_def case_prod_unfold tracks_same split: option.splits
    intro!: tracks_trans [OF tracks_from [OF eoi_tracks] UpdateIrq_tracks] tracks_from [OF UpdateIrq_tracks])

lemma LapicWrite_tracks: "LapicWrite (Some eoi) now a val (d, x) = Some ((e, y), cs) \<Longrightarrow> tracks d cs e"
  using lapic_eoi_tracks [of d x]
  by (auto simp: LapicWrite_def Let_def with_x_def tracks_same split: if_splits intro: tracks_from [OF UpdateIrq_tracks])
end

lemma lapic_eoi_ok: "lapic_ok d \<Longrightarrow> lapic_ok (fst (fst (lapic_eoi eoi (d, x))))"
  by (simp add: lapic_eoi_def Let_def case_prod_unfold UpdateIrq_ok split: option.splits)

lemma slot_inj:
  assumes "(off :: u64) AND 0xf = 0"
  shows "unat (off div 16) = k \<Longrightarrow> off = of_nat (16 * k)"
proof -
  assume k: "unat (off div 16) = k"
  have "off AND 0xf = off mod 16" using take_bit_eq_mask [of 4 off] by (simp add: mask_eq_exp_minus_1 take_bit_eq_mod)
  then have "unat off mod 16 = 0" using assms unat_mod [of off 16] by simp
  then have u: "unat off = 16 * k" using k mult_div_mod_eq [of 16 "unat off"] by (simp add: unat_div)
  have "of_nat (unat off) = off" by simp
  then show ?thesis unfolding u by simp
qed

lemma LapicWrite_ok: "lapic_ok d \<Longrightarrow> LapicWrite eoi now a val (d, x) = Some ((e, y), cs) \<Longrightarrow> lapic_ok e"
proof -
  assume d: "lapic_ok d" and w: "LapicWrite eoi now a val (d, x) = Some ((e, y), cs)"
  have i: "unat (o' div 16) \<noteq> 8 \<and> unat (o' div 16) \<noteq> 15" if "o' AND 0xf = 0" "o' \<noteq> 0x80" "o' \<noteq> 0xF0" for o' :: u64
    using slot_inj [OF that(1)] that(2,3) by fastforce
  show "lapic_ok e" using w d lapic_eoi_ok [OF d, of eoi x]
    by (auto simp: LapicWrite_def Let_def with_x_def UpdateIrq_ok ok_other i split: if_splits)
qed

lemma LapicWrite_behind:
  assumes "LapicWrite (Some eoi) now a val (d, x) = Some ((e, y), cs)" "P x" "\<And>v d. P (snd (fst (eoi v (d, x))))"
  shows "P y"
proof -
  have "P (snd (fst (lapic_eoi (Some eoi) (d, x))))"
    using assms(2,3) by (auto simp: lapic_eoi_def Let_def case_prod_unfold split: option.splits)
  then show ?thesis using assms(1,2) by (auto simp: LapicWrite_def Let_def with_x_def split: if_splits)
qed

section \<open>The register window\<close>

lemma slot_iff: "unat ((off :: u64) div 16) < 0x40 \<longleftrightarrow> off < 0x400"
  by (auto simp: unat_div word_less_nat_alt)


definition lapic0 :: LapicDevice where
  "lapic0 = LapicSetIrqSink (LapicInit \<lparr>reg = (\<lambda>_. 0), lirr = (\<lambda>_. 0), lisr = (\<lambda>_. 0), ltmr = (\<lambda>_. 0), timer_base_us = 0, timer_count = 0,
     irq_level = False, lapic_sink = False\<rparr>)"

text \<open>An enabled APIC with vector 0x41 in service and the vectors 0x31 and 0x50 requested.\<close>

definition lapic1 :: LapicDevice where
  "lapic1 = (set_reg 15 0x1ff lapic0)\<lparr>lirr := VectorSet 0x50 (VectorSet 0x31 (lirr lapic0)), lisr := VectorSet 0x41 (lisr lapic0)\<rparr>"

theorem lapic_selects_witness: "fst (LapicAcknowledge lapic1) = Some 0x50 \<and> outranks lapic1 0x50"
proof -
  have "\<not> has (lirr lapic0) w" "\<not> has (lisr lapic0) w" for w
    by (simp_all add: lapic0_def LapicSetIrqSink_def LapicInit_def has_def)
  then have r: "requests lapic1 w \<longleftrightarrow> w = 0x31 \<or> w = 0x50" and i: "w < 256 \<Longrightarrow> has (lisr lapic1) w \<longleftrightarrow> w = 0x41" for w
    by (auto simp: requests_def lapic1_def set_reg_def has_set)
  have "reg lapic1 8 = 0" "bit (reg lapic1 15) 8"
    by (simp_all add: lapic1_def set_reg_def lapic0_def LapicSetIrqSink_def LapicInit_def)
  moreover from this i have "outranks lapic1 0x50" by (auto simp: outranks_def)
  ultimately show ?thesis using r lapic_selects [of lapic1 "0x50"] by auto
qed

text \<open>
  The request registers above the second read as plain storage: a request of vector 0x50 is pending, the third
  register shows 0, while the same vector in service shows in the third service register.
\<close>

theorem lapic_requests_hidden:
  "has (lirr (fst (LapicDeliver 0x50 False lapic0))) 0x50 \<and>
   LapicRead now (kLapicBase + 0x220) (fst (LapicDeliver 0x50 False lapic0)) = Some 0 \<and>
   LapicRead now (kLapicBase + 0x120) (lapic0\<lparr>lisr := VectorSet 0x50 (lisr lapic0)\<rparr>) = Some 0x10000"
proof -
  have f: "reg (fst (LapicDeliver v l d)) = reg d" for v l d by (simp add: LapicDeliver_def)
  have "has (lirr (fst (LapicDeliver 0x50 False lapic0))) 0x50" by (simp add: LapicDeliver_def has_set)
  moreover have "reg_at d 0x220 = Some (reg d 0x22)" for d by (simp add: reg_at_def)
  moreover have "reg lapic0 0x22 = 0" by (simp add: lapic0_def LapicSetIrqSink_def LapicInit_def)
  ultimately show ?thesis
    by (simp add: LapicRead_def f vector_word_def) (simp add: lapic0_def LapicSetIrqSink_def LapicInit_def VectorSet_def)
qed

text \<open>
  With the divide register at 0x0b, which selects no division, and ten million counts, the next expiry is 1.6
  seconds away and not the tenth of a second that a clock of 100 MHz gives.
\<close>

theorem lapic_divider:
  "map_option (\<lambda>r. LapicNextEventUs 100 (fst (fst r)))
     (Option.bind (LapicWrite (None :: unit eoi_sink option) 100 (kLapicBase + 0x3E0) 0x0b (lapic0, ()))
       (\<lambda>r. LapicWrite None 100 (kLapicBase + 0x380) 10000000 (fst r))) = Some 1600000"
  by (simp add: LapicWrite_def TimerArm_def TimerCurrent_def set_reg_def LapicNextEventUs_def CountsElapsed_def per_second_def
    TimerDivisor_def kLapicTimerFreq_def lapic0_def LapicSetIrqSink_def LapicInit_def)

end
