(* ===== verification/PcIrq.thy ===== *)
theory PcIrq
  imports Pic Ioapic Lapic
begin

text \<open>
  Interrupts on the PC board (src/src/board/x86_min.c): every device line
  reaches the 8259 pair and the I/O APIC, the I/O APIC sends to the local
  APIC, and the 8259 pair and the local APIC share the INTR pin.  An operation
  returns the levels it drives on the pin, in order.  Non-maskable interrupts
  are counted; the processor model installs their hook when it is started.
\<close>

unbundle bit_operations_syntax

section \<open>State\<close>

record PcIrq =
  pc_pic :: PicDevice
  pc_lapic :: LapicDevice
  pc_ioapic :: IoapicDevice
  pic_irq :: bool
  lapic_irq :: bool
  intr_level :: bool
  nmis :: nat

section \<open>The pin\<close>

definition UpdateIntr :: "PcIrq \<Rightarrow> PcIrq \<times> bool list" where
  "UpdateIntr b = (let level = pic_irq b \<or> lapic_irq b in (b\<lparr>intr_level := level\<rparr>, [level]))"

definition OnPicIrq :: "bool \<Rightarrow> PcIrq \<Rightarrow> PcIrq \<times> bool list" where
  "OnPicIrq level b = UpdateIntr (b\<lparr>pic_irq := level\<rparr>)"

definition OnLapicIrq :: "bool \<Rightarrow> PcIrq \<Rightarrow> PcIrq \<times> bool list" where
  "OnLapicIrq level b = UpdateIntr (b\<lparr>lapic_irq := level\<rparr>)"

fun calls :: "(bool \<Rightarrow> PcIrq \<Rightarrow> PcIrq \<times> bool list) \<Rightarrow> line_call list \<Rightarrow> PcIrq \<Rightarrow> PcIrq \<times> bool list" where
  "calls f [] b = (b, [])"
| "calls f ((_, level) # cs) b = (let (b1, ls) = f level b; (b2, ls') = calls f cs b1 in (b2, ls @ ls'))"

section \<open>Messages between the APICs\<close>

definition dest_matches :: "u32 \<Rightarrow> bool \<Rightarrow> LapicDevice \<Rightarrow> bool" where
  "dest_matches dest logical d \<longleftrightarrow> (if logical then dest AND LapicLogicalMask d \<noteq> 0 else dest = LapicId d)"

definition OnIoapicDeliver :: "u32 \<Rightarrow> bool \<Rightarrow> nat \<Rightarrow> bool \<Rightarrow> LapicDevice \<Rightarrow> LapicDevice \<times> line_call list" where
  "OnIoapicDeliver dest logical vec trig d = (if dest_matches dest logical d then LapicDeliver vec trig d else (d, []))"

definition OnIoapicNmi :: "u32 \<Rightarrow> bool \<Rightarrow> LapicDevice \<Rightarrow> nat \<Rightarrow> nat" where
  "OnIoapicNmi dest logical d n = (if dest_matches dest logical d then n + 1 else n)"

fun on_messages :: "message list \<Rightarrow> LapicDevice \<Rightarrow> nat \<Rightarrow> LapicDevice \<times> nat \<times> line_call list" where
  "on_messages [] d n = (d, n, [])"
| "on_messages (Deliver dest logical vec trig # ms) d n =
     (let (d1, cs) = OnIoapicDeliver dest logical vec trig d; (d2, n2, cs') = on_messages ms d1 n in (d2, n2, cs @ cs'))"
| "on_messages (DeliverNmi dest logical # ms) d n = on_messages ms d (OnIoapicNmi dest logical d n)"

definition OnLapicEoi :: "(IoapicDevice \<times> nat) eoi_sink" where
  "OnLapicEoi vec s =
     (let (d, io, n) = s; (io1, ms) = IoapicEoi vec io; (d1, n1, cs) = on_messages ms d n in ((d1, io1, n1), cs))"

definition from_ioapic :: "IoapicDevice \<times> message list \<Rightarrow> PcIrq \<Rightarrow> PcIrq \<times> bool list" where
  "from_ioapic r b =
     (let (io, ms) = r; (d, n, cs) = on_messages ms (pc_lapic b) (nmis b) in
      calls OnLapicIrq cs (b\<lparr>pc_lapic := d, pc_ioapic := io, nmis := n\<rparr>))"

section \<open>Device lines and acknowledge\<close>

definition OnIsaIrq :: "nat \<Rightarrow> bool \<Rightarrow> PcIrq \<Rightarrow> PcIrq \<times> bool list" where
  "OnIsaIrq line level b =
     (let (pic, cs) = PicSetIrq line level (pc_pic b);
          (b1, ls) = calls OnPicIrq cs (b\<lparr>pc_pic := pic\<rparr>);
          (b2, ls') = from_ioapic (IoapicSetPin line level (pc_ioapic b1)) b1 in
      (b2, ls @ ls'))"

definition OnIntAck :: "PcIrq \<Rightarrow> nat \<times> PcIrq \<times> bool list" where
  "OnIntAck b =
     (let (v, d, cs) = LapicAcknowledge (pc_lapic b); (b1, ls) = calls OnLapicIrq cs (b\<lparr>pc_lapic := d\<rparr>) in
      case v of Some vec \<Rightarrow> (vec, b1, ls)
      | None \<Rightarrow>
          (let (vec, pic, cs') = PicAcknowledge (pc_pic b1); (b2, ls') = calls OnPicIrq cs' (b1\<lparr>pc_pic := pic\<rparr>) in
           (vec, b2, ls @ ls')))"

definition OnFerr :: "bool \<Rightarrow> PcIrq \<Rightarrow> PcIrq \<times> bool list" where
  "OnFerr level b = OnIsaIrq 13 level b"

section \<open>Register accesses and time\<close>

definition pc_lapic_write :: "u64 \<Rightarrow> u64 \<Rightarrow> u64 \<Rightarrow> PcIrq \<Rightarrow> (PcIrq \<times> bool list) option" where
  "pc_lapic_write now addr val b =
     map_option (\<lambda>((d, io, n), cs). calls OnLapicIrq cs (b\<lparr>pc_lapic := d, pc_ioapic := io, nmis := n\<rparr>))
       (LapicWrite (Some OnLapicEoi) now addr val (pc_lapic b, pc_ioapic b, nmis b))"

definition pc_ioapic_write :: "u64 \<Rightarrow> u64 \<Rightarrow> PcIrq \<Rightarrow> PcIrq \<times> bool list" where
  "pc_ioapic_write addr val b = from_ioapic (IoapicWrite addr val (pc_ioapic b)) b"

definition pc_pic_write :: "bool \<Rightarrow> u64 \<Rightarrow> u64 \<Rightarrow> PcIrq \<Rightarrow> PcIrq \<times> bool list" where
  "pc_pic_write slave addr val b =
     (let (pic, cs) = (if slave then PicSlaveWrite addr val (pc_pic b) else PicMasterWrite addr val (pc_pic b)) in
      calls OnPicIrq cs (b\<lparr>pc_pic := pic\<rparr>))"

definition pc_lapic_poll :: "u64 \<Rightarrow> PcIrq \<Rightarrow> PcIrq \<times> bool list" where
  "pc_lapic_poll now b = (let (d, cs) = LapicPoll now (pc_lapic b) in calls OnLapicIrq cs (b\<lparr>pc_lapic := d\<rparr>))"

text \<open>What construction and reset of the board do to the controllers: initialisation, then the wiring.\<close>

definition wire_controllers :: "PcIrq \<Rightarrow> PcIrq" where
  "wire_controllers b = b\<lparr>pc_pic := PicSetIrqSink (pc_pic b), pc_lapic := LapicSetIrqSink (pc_lapic b),
     pc_ioapic := IoapicSetNmiSink (IoapicSetDeliverSink (pc_ioapic b))\<rparr>"

definition reset_controllers :: "PcIrq \<Rightarrow> PcIrq" where
  "reset_controllers b = wire_controllers (b\<lparr>pc_pic := PicInit (pc_pic b), pc_lapic := LapicInit (pc_lapic b), pc_ioapic := IoapicInit (pc_ioapic b)\<rparr>)"


section \<open>The pin says what the controllers say\<close>

lemma calls_lapic:
  assumes "\<forall>c \<in> set cs. fst c = 0"
  shows "fst (calls OnLapicIrq cs b) = (if cs = [] then b else b\<lparr>lapic_irq := line_after (lapic_irq b) 0 cs,
    intr_level := pic_irq b \<or> line_after (lapic_irq b) 0 cs\<rparr>)"
  using assms
proof (induction cs arbitrary: b)
  case (Cons c cs)
  obtain l v where c: "c = (l, v)" by fastforce
  show ?case using Cons.IH [of "fst (OnLapicIrq v b)"] Cons.prems
    by (cases cs) (simp_all add: c Let_def case_prod_unfold OnLapicIrq_def UpdateIntr_def)
qed simp

lemma calls_pic:
  "\<exists>p. fst (calls OnPicIrq cs b) = (if cs = [] then b else b\<lparr>pic_irq := p, intr_level := p \<or> lapic_irq b\<rparr>)"
proof (induction cs arbitrary: b)
  case (Cons c cs)
  obtain l v where c: "c = (l, v)" by fastforce
  obtain p where "fst (calls OnPicIrq cs (fst (OnPicIrq v b))) = (if cs = [] then fst (OnPicIrq v b)
      else (fst (OnPicIrq v b))\<lparr>pic_irq := p, intr_level := p \<or> lapic_irq (fst (OnPicIrq v b))\<rparr>)" using Cons.IH by blast
  moreover have "fst (OnPicIrq v b) = b\<lparr>pic_irq := v, intr_level := v \<or> lapic_irq b\<rparr>" by (simp add: OnPicIrq_def UpdateIntr_def Let_def)
  ultimately show ?case by (intro exI [of _ "if cs = [] then v else p"]) (simp add: c Let_def case_prod_unfold)
qed simp

definition pc_ok :: "PcIrq \<Rightarrow> bool" where
  "pc_ok b \<longleftrightarrow> lapic_ok (pc_lapic b) \<and> lapic_sink (pc_lapic b) \<and> ioapic_ok (pc_ioapic b) \<and>
     lapic_irq b = irq_level (pc_lapic b) \<and> intr_level b = (pic_irq b \<or> lapic_irq b)"

lemma lapic_calls_ok:
  assumes "pc_ok b" "tracks (pc_lapic b) cs d" "lapic_ok d" "ioapic_ok io"
  shows "pc_ok (fst (calls OnLapicIrq cs (b\<lparr>pc_lapic := d, pc_ioapic := io, nmis := n\<rparr>)))"
  using assms calls_lapic [of cs "b\<lparr>pc_lapic := d, pc_ioapic := io, nmis := n\<rparr>"] by (cases "cs = []") (auto simp: pc_ok_def tracks_def)

lemma pic_calls_ok:
  assumes "pc_ok b"
  shows "pc_ok (fst (calls OnPicIrq cs (b\<lparr>pc_pic := p\<rparr>)))"
  using calls_pic [of cs "b\<lparr>pc_pic := p\<rparr>"] assms by (cases "cs = []") (auto simp: pc_ok_def)

lemma OnIoapicDeliver_ok: "lapic_ok d \<Longrightarrow> lapic_ok (fst (OnIoapicDeliver dest logical v t d))"
  and OnIoapicDeliver_tracks: "tracks d (snd (OnIoapicDeliver dest logical v t d)) (fst (OnIoapicDeliver dest logical v t d))"
  by (simp_all add: OnIoapicDeliver_def LapicDeliver_ok LapicDeliver_tracks tracks_same)

lemma on_messages_ok: "lapic_ok d \<Longrightarrow> lapic_ok (fst (on_messages ms d n))"
proof (induction ms arbitrary: d n)
  case (Cons m ms)
  then show ?case by (cases m) (simp_all add: Let_def case_prod_unfold OnIoapicDeliver_ok)
qed simp

lemma on_messages_tracks: "tracks d (snd (snd (on_messages ms d n))) (fst (on_messages ms d n))"
proof (induction ms arbitrary: d n)
  case (Cons m ms)
  then show ?case by (cases m) (auto simp: Let_def case_prod_unfold intro: tracks_trans [OF OnIoapicDeliver_tracks])
qed (simp add: tracks_same)

lemma from_ioapic_ok: "pc_ok b \<Longrightarrow> ioapic_ok (fst r) \<Longrightarrow> pc_ok (fst (from_ioapic r b))"
  unfolding from_ioapic_def case_prod_unfold Let_def
  by (intro lapic_calls_ok on_messages_tracks on_messages_ok) (simp_all add: pc_ok_def)

interpretation pc: eoi_contract OnLapicEoi
proof
  fix v d and x :: "IoapicDevice \<times> nat"
  show "tracks d (snd (OnLapicEoi v (d, x))) (fst (fst (OnLapicEoi v (d, x))))"
    by (simp add: OnLapicEoi_def Let_def case_prod_unfold on_messages_tracks)
qed

lemma pc_lapic_write_ok: "pc_ok b \<Longrightarrow> pc_lapic_write now a val b = Some (b', ls) \<Longrightarrow> pc_ok b'"
proof -
  assume b: "pc_ok b" and w: "pc_lapic_write now a val b = Some (b', ls)"
  then obtain d io n cs where l: "LapicWrite (Some OnLapicEoi) now a val (pc_lapic b, pc_ioapic b, nmis b) = Some ((d, io, n), cs)"
    and b': "b' = fst (calls OnLapicIrq cs (b\<lparr>pc_lapic := d, pc_ioapic := io, nmis := n\<rparr>))"
    by (auto simp: pc_lapic_write_def)
  have o: "lapic_ok (pc_lapic b)" "ioapic_ok (pc_ioapic b)" using b by (simp_all add: pc_ok_def)
  have "lapic_ok d" using LapicWrite_ok [OF o(1) l] .
  moreover have "tracks (pc_lapic b) cs d" using pc.LapicWrite_tracks [OF l] .
  moreover have "ioapic_ok (fst (io, n))"
    by (rule LapicWrite_behind [OF l, where P = "\<lambda>x. ioapic_ok (fst x)"]) (simp_all add: o OnLapicEoi_def Let_def case_prod_unfold IoapicEoi_ok)
  ultimately show ?thesis unfolding b' using b by (intro lapic_calls_ok) simp_all
qed

inductive pc_step :: "PcIrq \<Rightarrow> PcIrq \<Rightarrow> bool" where
  isa: "pc_step b (fst (OnIsaIrq line level b))"
| ack: "pc_step b (fst (snd (OnIntAck b)))"
| lapic: "pc_lapic_write now a val b = Some (b', ls) \<Longrightarrow> pc_step b b'"
| ioapic: "pc_step b (fst (pc_ioapic_write a val b))"
| pic: "pc_step b (fst (pc_pic_write slave a val b))"
| poll: "pc_step b (fst (pc_lapic_poll now b))"

lemma lapic_only_ok: "pc_ok b \<Longrightarrow> tracks (pc_lapic b) cs d \<Longrightarrow> lapic_ok d \<Longrightarrow> pc_ok (fst (calls OnLapicIrq cs (b\<lparr>pc_lapic := d\<rparr>)))"
  using lapic_calls_ok [of b cs d "pc_ioapic b" "nmis b"] by (simp add: pc_ok_def)

lemma OnIsaIrq_ok: "pc_ok b \<Longrightarrow> pc_ok (fst (OnIsaIrq line level b))"
proof -
  assume b: "pc_ok b"
  let ?b1 = "fst (calls OnPicIrq (snd (PicSetIrq line level (pc_pic b))) (b\<lparr>pc_pic := fst (PicSetIrq line level (pc_pic b))\<rparr>))"
  have b1: "pc_ok ?b1" by (rule pic_calls_ok [OF b])
  then have "pc_ok (fst (from_ioapic (IoapicSetPin line level (pc_ioapic ?b1)) ?b1))"
    by (intro from_ioapic_ok IoapicSetPin_ok) (simp_all add: pc_ok_def)
  then show ?thesis by (simp add: OnIsaIrq_def Let_def case_prod_unfold)
qed

lemma OnIntAck_ok: "pc_ok b \<Longrightarrow> pc_ok (fst (snd (OnIntAck b)))"
proof -
  assume b: "pc_ok b"
  let ?r = "LapicAcknowledge (pc_lapic b)"
  have "pc_ok (fst (calls OnLapicIrq (snd (snd ?r)) (b\<lparr>pc_lapic := fst (snd ?r)\<rparr>)))"
    using b by (intro lapic_only_ok LapicAcknowledge_tracks LapicAcknowledge_ok) (simp_all add: pc_ok_def)
  then show ?thesis by (auto simp: OnIntAck_def Let_def case_prod_unfold pic_calls_ok split: option.splits)
qed

lemma pc_step_ok: "pc_step b b' \<Longrightarrow> pc_ok b \<Longrightarrow> pc_ok b'"
proof (induction rule: pc_step.induct)
  case (ioapic b a val)
  then show ?case unfolding pc_ioapic_write_def by (intro from_ioapic_ok IoapicWrite_ok) (simp_all add: pc_ok_def)
next
  case (poll b now)
  then have "pc_ok (fst (calls OnLapicIrq (snd (LapicPoll now (pc_lapic b))) (b\<lparr>pc_lapic := fst (LapicPoll now (pc_lapic b))\<rparr>)))"
    by (intro lapic_only_ok LapicPoll_tracks LapicPoll_ok) (simp_all add: pc_ok_def)
  then show ?case by (simp add: pc_lapic_poll_def Let_def case_prod_unfold)
qed (auto simp: OnIsaIrq_ok OnIntAck_ok pc_lapic_write_ok pc_pic_write_def Let_def case_prod_unfold pic_calls_ok)


section \<open>A level request through both APICs\<close>

definition on_vector :: "nat \<Rightarrow> message \<Rightarrow> bool" where
  "on_vector v m \<longleftrightarrow> (case m of Deliver _ _ w _ \<Rightarrow> w = v | DeliverNmi _ _ \<Rightarrow> True)"

definition sends :: "message list \<Rightarrow> LapicDevice \<Rightarrow> bool" where
  "sends ms d \<longleftrightarrow> (\<exists>dest logical v t. Deliver dest logical v t \<in> set ms \<and> dest_matches dest logical d)"

lemma sends_simps [simp]:
  "\<not> sends [] d" "sends (Deliver dest logical v t # ms) d \<longleftrightarrow> dest_matches dest logical d \<or> sends ms d"
  "sends (DeliverNmi dest logical # ms) d \<longleftrightarrow> sends ms d"
  by (auto simp: sends_def)

lemma LapicDeliver_fields:
  "reg (fst (LapicDeliver v t d)) = reg d" "lisr (fst (LapicDeliver v t d)) = lisr d"
  "16 \<le> v \<Longrightarrow> v < 256 \<Longrightarrow> lirr (fst (LapicDeliver v t d)) = VectorSet v (lirr d)"
  by (simp_all add: LapicDeliver_def)

lemma dest_matches_cong: "reg d = reg e \<Longrightarrow> dest_matches a l d = dest_matches a l e"
  by (simp add: dest_matches_def LapicLogicalMask_def LapicId_def)

lemma sends_cong: "reg d = reg e \<Longrightarrow> sends ms d = sends ms e"
  using dest_matches_cong [of d e] by (simp add: sends_def)

lemma on_messages_vector:
  assumes "\<forall>m \<in> set ms. on_vector v m" "16 \<le> v" "v < 256"
  shows "reg (fst (on_messages ms d n)) = reg d \<and> lisr (fst (on_messages ms d n)) = lisr d \<and>
    (\<forall>w < 256. has (lirr (fst (on_messages ms d n))) w \<longleftrightarrow> has (lirr d) w \<or> w = v \<and> sends ms d)"
  using assms(1)
proof (induction ms arbitrary: d n)
  case (Cons m ms)
  show ?case
  proof (cases m)
    case (Deliver dest logical w t)
    let ?d = "fst (OnIoapicDeliver dest logical w t d)"
    have w: "w = v" using Cons.prems Deliver by (simp add: on_vector_def)
    have r: "reg ?d = reg d" "lisr ?d = lisr d" by (simp_all add: OnIoapicDeliver_def LapicDeliver_fields)
    have "has (lirr ?d) x \<longleftrightarrow> has (lirr d) x \<or> x = v \<and> dest_matches dest logical d" if "x < 256" for x
      using assms(2,3) that by (auto simp: OnIoapicDeliver_def LapicDeliver_fields w has_set)
    then show ?thesis using Cons.IH [of ?d n] Cons.prems sends_cong [OF r(1), of ms] r
      by (auto simp: Deliver Let_def case_prod_unfold)
  next
    case (DeliverNmi dest logical)
    then show ?thesis using Cons by simp
  qed
qed simp

lemma eoi_pin_vector: "\<forall>m \<in> set (snd (eoi_pin v k d)). on_vector v m"
  by (auto simp: eoi_pin_def Reassess_def Service_def Let_def on_vector_def)

lemma eoi_pins_vector: "\<forall>m \<in> set (snd (eoi_pins v ks d)). on_vector v m"
  using eoi_pin_vector by (induction ks arbitrary: d) (auto simp: Let_def case_prod_unfold)

lemma eoi_pin_other: "j \<noteq> k \<Longrightarrow> pins (fst (eoi_pin v k d)) j = pins d j" "deliver_sink (fst (eoi_pin v k d)) = deliver_sink d"
  by (simp_all add: eoi_pin_def Let_def Reassess_other)

definition waits :: "nat \<Rightarrow> IoapicPin \<Rightarrow> bool" where
  "waits v p \<longleftrightarrow> remote_irr p \<and> unat (vector p AND 0xff) = v \<and> pin_level p \<and> trigger p \<and> carries p"

lemma eoi_pin_sends:
  assumes "waits v (pins d k)" "deliver_sink d"
  shows "snd (eoi_pin v k d) = [Deliver (pin_dest (pins d k)) (dest_mode (pins d k)) v True]"
proof -
  let ?d = "upd_pin k (\<lambda>p. p\<lparr>remote_irr := False\<rparr>) d"
  have "snd (eoi_pin v k d) = snd (Reassess k ?d)" using assms(1) by (simp add: eoi_pin_def waits_def)
  moreover have "Reassess k ?d = Service k ?d" using assms(1) by (simp add: Reassess_def waits_def)
  moreover have "carries (pins ?d k)" using assms(1) by (simp add: waits_def carries_def)
  ultimately show ?thesis using Service_messages [of ?d k] assms by (simp add: waits_def)
qed

lemma eoi_pins_sends:
  assumes "k \<in> set ks" "distinct ks" "waits v (pins d k)" "deliver_sink d"
  shows "Deliver (pin_dest (pins d k)) (dest_mode (pins d k)) v True \<in> set (snd (eoi_pins v ks d))"
  using assms
proof (induction ks arbitrary: d)
  case (Cons j ks)
  show ?case
  proof (cases "j = k")
    case True
    then show ?thesis using eoi_pin_sends [OF Cons.prems(3,4)] by (simp add: Let_def case_prod_unfold)
  next
    case False
    then show ?thesis using Cons.IH [of "fst (eoi_pin v j d)"] Cons.prems eoi_pin_other(1) [of k j v d] eoi_pin_other(2) [of v j d]
      by (auto simp: Let_def case_prod_unfold)
  qed
qed simp

text \<open>
  Pin \<open>k\<close> carries vector \<open>v\<close> as a level request to this APIC, and the APIC has no better request and serves nothing
  of the class of \<open>v\<close>.
\<close>

definition level_entry :: "nat \<Rightarrow> nat \<Rightarrow> IoapicDevice \<Rightarrow> LapicDevice \<Rightarrow> bool" where
  "level_entry k v io d \<longleftrightarrow> (let p = pins io k in k < kIoapicPins \<and> carries p \<and> trigger p \<and> \<not> polarity p \<and> unat (vector p AND 0xff) = v \<and>
     deliver_sink io \<and> dest_matches (pin_dest p) (dest_mode p) d \<and> 16 \<le> v \<and> v < 256 \<and> bit (reg d 15) 8 \<and> outranks d v \<and> (\<forall>w. requests d w \<longrightarrow> w \<le> v))"

lemma level_entry_cong:
  assumes "level_entry k v io d" "reg e = reg d" "\<forall>w < 256. has (lisr e) w = has (lisr d) w" "\<forall>w < 256. has (lirr e) w \<longrightarrow> has (lirr d) w \<or> w = v"
  shows "level_entry k v io e"
  using assms dest_matches_cong [of e d] by (auto simp: level_entry_def Let_def outranks_def requests_def)

lemma ack_level: "level_entry k v io d \<Longrightarrow> has (lirr d) v \<Longrightarrow> fst (LapicAcknowledge d) = Some v"
  by (simp add: acknowledge_iff level_entry_def Let_def requests_def)

lemma pin_true_sends:
  assumes "level_entry k v io d"
  shows "snd (IoapicSetPin k True io) = (if remote_irr (pins io k) then [] else [Deliver (pin_dest (pins io k)) (dest_mode (pins io k)) v True])"
    "waits v (pins (fst (IoapicSetPin k True io)) k)" "deliver_sink (fst (IoapicSetPin k True io))"
    "pin_dest (pins (fst (IoapicSetPin k True io)) k) = pin_dest (pins io k)" "dest_mode (pins (fst (IoapicSetPin k True io)) k) = dest_mode (pins io k)"
proof -
  let ?d = "upd_pin k (\<lambda>p. p\<lparr>pin_level := True\<rparr>) io"
  have e: "k < kIoapicPins" "carries (pins io k)" "trigger (pins io k)" "\<not> polarity (pins io k)" "unat (vector (pins io k) AND 0xff) = v" "deliver_sink io"
    using assms by (simp_all add: level_entry_def Let_def)
  then have s: "IoapicSetPin k True io = Reassess k ?d" by (simp add: IoapicSetPin_def)
  have c: "carries (pins ?d k)" using e(2) by (simp add: carries_def)
  have r: "Reassess k ?d = (if remote_irr (pins io k) then (?d, []) else Service k ?d)" using e(3) by (simp add: Reassess_def)
  show "snd (IoapicSetPin k True io) = (if remote_irr (pins io k) then [] else [Deliver (pin_dest (pins io k)) (dest_mode (pins io k)) v True])"
    unfolding s r using Service_messages [of ?d k] c e by simp
  show "waits v (pins (fst (IoapicSetPin k True io)) k)"
    unfolding s r using c e by (simp add: Service_pins waits_def carries_def)
  show "deliver_sink (fst (IoapicSetPin k True io))" unfolding s using e by simp
  show "pin_dest (pins (fst (IoapicSetPin k True io)) k) = pin_dest (pins io k)" "dest_mode (pins (fst (IoapicSetPin k True io)) k) = dest_mode (pins io k)"
    unfolding s r by (simp_all add: Service_pins)
qed

lemma pic_calls_keep: "pc_lapic (fst (calls OnPicIrq cs b)) = pc_lapic b" "pc_ioapic (fst (calls OnPicIrq cs b)) = pc_ioapic b" "nmis (fst (calls OnPicIrq cs b)) = nmis b"
  using calls_pic [of cs b] by (auto split: if_splits)

lemma lapic_calls_keep: "pc_lapic (fst (calls OnLapicIrq cs b)) = pc_lapic b" "pc_ioapic (fst (calls OnLapicIrq cs b)) = pc_ioapic b"
proof (induction cs arbitrary: b)
  case (Cons c cs)
  { case 1 show ?case using Cons by (cases c) (simp add: Let_def case_prod_unfold OnLapicIrq_def UpdateIntr_def) }
  { case 2 show ?case using Cons by (cases c) (simp add: Let_def case_prod_unfold OnLapicIrq_def UpdateIntr_def) }
qed simp_all

lemma isa_keep:
  "pc_lapic (fst (OnIsaIrq k l b)) = fst (on_messages (snd (IoapicSetPin k l (pc_ioapic b))) (pc_lapic b) (nmis b))"
  "pc_ioapic (fst (OnIsaIrq k l b)) = fst (IoapicSetPin k l (pc_ioapic b))"
  by (simp_all add: OnIsaIrq_def from_ioapic_def Let_def case_prod_unfold lapic_calls_keep pic_calls_keep)

lemma ack_keep:
  assumes "fst (LapicAcknowledge (pc_lapic b)) = Some v"
  shows "fst (OnIntAck b) = v" "pc_lapic (fst (snd (OnIntAck b))) = fst (snd (LapicAcknowledge (pc_lapic b)))" "pc_ioapic (fst (snd (OnIntAck b))) = pc_ioapic b"
  using assms by (simp_all add: OnIntAck_def Let_def case_prod_unfold lapic_calls_keep)

lemma ack_state:
  assumes "fst (LapicAcknowledge d) = Some v"
  shows "reg (fst (snd (LapicAcknowledge d))) = reg d" "lisr (fst (snd (LapicAcknowledge d))) = VectorSet v (lisr d)"
    "lirr (fst (snd (LapicAcknowledge d))) = VectorClear v (lirr d)" "ltmr (fst (snd (LapicAcknowledge d))) = ltmr d"
  using assms by (auto simp: LapicAcknowledge_def split: if_splits option.splits)

lemma asserted:
  assumes "pc_ok b" "level_entry k v io (pc_lapic b)" "has (lirr (pc_lapic b)) v"
  shows "intr_level b"
proof -
  have "Deliverable (pc_lapic b)" using ack_level [OF assms(2,3)] by (auto simp: LapicAcknowledge_def split: if_splits)
  then show ?thesis using assms(1) by (simp add: pc_ok_def lapic_ok_def)
qed

lemma in_service_quiet: "remote_irr (pins io k) \<Longrightarrow> trigger (pins io k) \<Longrightarrow> snd (IoapicSetPin k l io) = []"
  by (simp add: IoapicSetPin_def Reassess_def Let_def)

lemma eoi_write:
  assumes "HighestVector (lisr (pc_lapic b)) = Some v" "has (ltmr (pc_lapic b)) v"
  shows "\<exists>b' ls. pc_lapic_write now (kLapicBase + 0xB0) val b = Some (b', ls) \<and> reg (pc_lapic b') = reg (fst (on_messages (snd (IoapicEoi v (pc_ioapic b)))
      ((pc_lapic b)\<lparr>lisr := VectorClear v (lisr (pc_lapic b))\<rparr>) (nmis b))) \<and>
    lisr (pc_lapic b') = lisr (fst (on_messages (snd (IoapicEoi v (pc_ioapic b))) ((pc_lapic b)\<lparr>lisr := VectorClear v (lisr (pc_lapic b))\<rparr>) (nmis b))) \<and>
    lirr (pc_lapic b') = lirr (fst (on_messages (snd (IoapicEoi v (pc_ioapic b))) ((pc_lapic b)\<lparr>lisr := VectorClear v (lisr (pc_lapic b))\<rparr>) (nmis b)))"
  using assms by (simp add: pc_lapic_write_def LapicWrite_def lapic_eoi_def OnLapicEoi_def has_def Let_def case_prod_unfold lapic_calls_keep prod_eq_iff)

lemma raise_level:
  assumes e: "level_entry k v (pc_ioapic b) (pc_lapic b)" and r: "\<not> remote_irr (pins (pc_ioapic b) k)"
  defines "d1 \<equiv> pc_lapic (fst (OnIsaIrq k True b))"
  shows "reg d1 = reg (pc_lapic b)" "lisr d1 = lisr (pc_lapic b)" "lirr d1 = VectorSet v (lirr (pc_lapic b))" "ltmr d1 = VectorSet v (ltmr (pc_lapic b))"
    "level_entry k v (pc_ioapic b) d1" "has (lirr d1) v"
proof -
  have v: "16 \<le> v" "v < 256" "dest_matches (pin_dest (pins (pc_ioapic b) k)) (dest_mode (pins (pc_ioapic b) k)) (pc_lapic b)"
    using e by (simp_all add: level_entry_def Let_def)
  have d1: "d1 = fst (LapicDeliver v True (pc_lapic b))" using pin_true_sends(1) [OF e] r v(3)
    by (simp add: d1_def isa_keep OnIoapicDeliver_def Let_def case_prod_unfold)
  show f: "reg d1 = reg (pc_lapic b)" "lisr d1 = lisr (pc_lapic b)" "lirr d1 = VectorSet v (lirr (pc_lapic b))" "ltmr d1 = VectorSet v (ltmr (pc_lapic b))"
    using v(1,2) by (simp_all add: d1 LapicDeliver_def)
  show "level_entry k v (pc_ioapic b) d1" using f by (intro level_entry_cong [OF e]) (auto simp: has_set)
  show "has (lirr d1) v" using v f by (simp add: has_set)
qed

text \<open>
  C20. A level request goes around both APICs: raising the line asserts INTR, the acknowledge returns the vector of the
  entry, while it is in service the line asks in vain, and the end of interrupt sends the request again as long as the
  line is high.  The write of the end-of-interrupt register always returns.
\<close>

theorem pc_level_cycle:
  assumes ok: "pc_ok b" and e: "level_entry k v (pc_ioapic b) (pc_lapic b)" and r: "\<not> remote_irr (pins (pc_ioapic b) k)"
    and b1: "b1 = fst (OnIsaIrq k True b)" and b2: "b2 = fst (snd (OnIntAck b1))"
  shows "intr_level b1 \<and> fst (OnIntAck b1) = v \<and> pc_lapic (fst (OnIsaIrq k True b2)) = pc_lapic b2 \<and>
    (\<exists>b3 ls. pc_lapic_write now (kLapicBase + 0xB0) 0 b2 = Some (b3, ls) \<and> intr_level b3 \<and> fst (OnIntAck b3) = v)"
proof -
  define io d where "io = pc_ioapic b" and "d = pc_lapic b"
  note e = e [folded io_def d_def]
  define io1 d1 where "io1 = pc_ioapic b1" and "d1 = pc_lapic b1"
  have v: "16 \<le> v" "v < 256" "dest_matches (pin_dest (pins io k)) (dest_mode (pins io k)) d" "k < kIoapicPins" "outranks d v"
    using e by (simp_all add: level_entry_def Let_def)
  have w: "waits v (pins io1 k)" "deliver_sink io1" "pin_dest (pins io1 k) = pin_dest (pins io k)" "dest_mode (pins io1 k) = dest_mode (pins io k)"
    using pin_true_sends [OF e] by (simp_all add: io1_def b1 isa_keep io_def)
  note l = raise_level [OF e [unfolded io_def d_def] r, folded b1, folded io_def d_def d1_def]
  note f1 = l(1-4) and e1 = l(5) and h1 = l(6)
  have ok1: "pc_ok b1" unfolding b1 by (rule OnIsaIrq_ok [OF ok])
  note a1 = ack_level [OF e1 h1]
  note k1 = ack_keep [OF a1 [unfolded d1_def], folded d1_def io1_def b2]
  define d2 where "d2 = pc_lapic b2"
  have f2: "reg d2 = reg d" "lisr d2 = VectorSet v (lisr d)" "lirr d2 = VectorClear v (lirr d1)" "ltmr d2 = ltmr d1"
    using ack_state [OF a1] f1 by (simp_all add: d2_def k1)
  have ok2: "pc_ok b2" unfolding b2 by (rule OnIntAck_ok [OF ok1])
  have q: "pc_lapic (fst (OnIsaIrq k True b2)) = pc_lapic b2"
    using in_service_quiet [of io1 k True] w(1) by (simp add: isa_keep k1 waits_def)
  have n: "\<not> has (lisr d) v" using v by (auto simp: outranks_def)
  have "\<not> has (lisr d) w" if "v < w" "w < 256" for w
  proof
    assume "has (lisr d) w"
    then have "w div 16 < v div 16" using v(1,5) that by (simp add: outranks_def)
    then show False using div_le_mono [of v w 16] that(1) by simp
  qed
  then have hv: "HighestVector (lisr d2) = Some v" unfolding HighestVector_iff f2(2) using v(1,2) by (auto simp: has_set)
  have t2: "has (ltmr d2) v" using v f1 f2 by (simp add: has_set)
  let ?d = "d2\<lparr>lisr := VectorClear v (lisr d2)\<rparr>" and ?ms = "snd (IoapicEoi v io1)"
  have s: "sends ?ms ?d" using eoi_pins_sends [of k "[0..<kIoapicPins]" v io1] v(3,4) w dest_matches_cong [of ?d d] f2(1)
    unfolding IoapicEoi_def sends_def by fastforce
  let ?e = "fst (on_messages ?ms ?d (nmis b2))"
  obtain b3 ls where b3: "pc_lapic_write now (kLapicBase + 0xB0) 0 b2 = Some (b3, ls)"
    and f3: "reg (pc_lapic b3) = reg ?e" "lisr (pc_lapic b3) = lisr ?e" "lirr (pc_lapic b3) = lirr ?e"
    using eoi_write [OF hv [unfolded d2_def] t2 [unfolded d2_def], of now 0, folded d2_def, unfolded k1] by blast
  have m: "reg ?e = reg ?d" "lisr ?e = lisr ?d" "\<forall>w < 256. has (lirr ?e) w \<longleftrightarrow> has (lirr ?d) w \<or> w = v"
    using on_messages_vector [OF eoi_pins_vector [of v "[0..<kIoapicPins]" io1, folded IoapicEoi_def] v(1,2), of ?d "nmis b2"] s by blast+
  have g3: "reg (pc_lapic b3) = reg d" "\<forall>w < 256. has (lisr (pc_lapic b3)) w = has (lisr d) w"
    "\<forall>w < 256. has (lirr (pc_lapic b3)) w \<longrightarrow> has (lirr d) w \<or> w = v" "has (lirr (pc_lapic b3)) v"
    using n v(2) m(3) unfolding f3 m(1,2) by (auto simp: f1 f2 has_set has_clear)
  have e3: "level_entry k v io (pc_lapic b3)" by (rule level_entry_cong [OF e g3(1-3)])
  have ok3: "pc_ok b3" by (rule pc_lapic_write_ok [OF ok2 b3])
  show ?thesis using asserted [OF ok1 e1 [unfolded d1_def] h1 [unfolded d1_def]] k1(1) q b3 asserted [OF ok3 e3 g3(4)] ack_keep(1) [OF ack_level [OF e3 g3(4)]]
    by blast
qed

section \<open>A running board\<close>

definition pc0 :: PcIrq where
  "pc0 = reset_controllers \<lparr>pc_pic = pic0, pc_lapic = lapic0, pc_ioapic = \<lparr>io_index = 0, io_id = 0, pins = (\<lambda>_. reset_pin), deliver_sink = False, nmi_sink = False\<rparr>,
     pic_irq = False, lapic_irq = False, intr_level = False, nmis = 0\<rparr>"

text \<open>The guest enables the local APIC and programs pin 5 of the I/O APIC as a level entry with vector 0x30.\<close>

definition pc1 :: PcIrq where
  "pc1 = fst (pc_ioapic_write (kIoapicBase + 0x10) 0x8030 (fst (pc_ioapic_write kIoapicBase 0x1a (fst (the (pc_lapic_write 0 (kLapicBase + 0xF0) 0x1ff pc0))))))"

lemma pc0_ok: "pc_ok pc0"
  by (simp add: pc_ok_def pc0_def reset_controllers_def wire_controllers_def LapicSetIrqSink_def LapicInit_def lapic_ok_def Deliverable_def ioapic_ok_def served_def
    IoapicSetNmiSink_def IoapicSetDeliverSink_def IoapicInit_def reset_pin_def)

lemma pc1_ok: "pc_ok pc1"
proof -
  have "pc_lapic_write 0 (kLapicBase + 0xF0) 0x1ff pc0 \<noteq> None" by (simp add: pc_lapic_write_def LapicWrite_def)
  then obtain b ls where "pc_lapic_write 0 (kLapicBase + 0xF0) 0x1ff pc0 = Some (b, ls)" by auto
  then have "pc_ok (fst (the (pc_lapic_write 0 (kLapicBase + 0xF0) 0x1ff pc0)))" using pc_lapic_write_ok [OF pc0_ok] by simp
  then show ?thesis unfolding pc1_def by (intro pc_step_ok [OF pc_step.ioapic])
qed

lemma pc0_fields: "lirr (pc_lapic pc0) = (\<lambda>_. 0)" "lisr (pc_lapic pc0) = (\<lambda>_. 0)" "reg (pc_lapic pc0) 8 = 0" "reg (pc_lapic pc0) 2 = 0"
  "\<not> irq_level (pc_lapic pc0)" "io_index (pc_ioapic pc0) = 0" "pins (pc_ioapic pc0) = (\<lambda>_. reset_pin)" "deliver_sink (pc_ioapic pc0)"
  by (auto simp: pc0_def reset_controllers_def wire_controllers_def LapicSetIrqSink_def LapicInit_def IoapicSetNmiSink_def IoapicSetDeliverSink_def IoapicInit_def)

lemma pc1_state: "pc_lapic pc1 = set_reg 15 0x1ff (pc_lapic pc0)"
  "pins (pc_ioapic pc1) 5 = reset_pin\<lparr>vector := 0x30, trigger := True, pin_mask := False\<rparr>" "deliver_sink (pc_ioapic pc1)"
proof -
  have "HighestVector (\<lambda>_. 0) = None" by (simp add: HighestVector_iff has_def)
  then have "UpdateIrq (set_reg 15 0x1ff (pc_lapic pc0)) = (set_reg 15 0x1ff (pc_lapic pc0), [])"
    by (simp add: UpdateIrq_def Deliverable_iff set_reg_def pc0_fields)
  then have w: "fst (the (pc_lapic_write 0 (kLapicBase + 0xF0) 0x1ff pc0)) = pc0\<lparr>pc_lapic := set_reg 15 0x1ff (pc_lapic pc0)\<rparr>"
    by (simp add: pc_lapic_write_def LapicWrite_def with_x_def)
  show "pc_lapic pc1 = set_reg 15 0x1ff (pc_lapic pc0)"
    "pins (pc_ioapic pc1) 5 = reset_pin\<lparr>vector := 0x30, trigger := True, pin_mask := False\<rparr>" "deliver_sink (pc_ioapic pc1)"
    unfolding pc1_def w
    by (simp_all add: pc_ioapic_write_def from_ioapic_def IoapicWrite_def kIoapicPins_def SetPinLow_def reset_pin_def Reassess_def upd_pin_def pc0_fields)
qed

lemma pc1_entry: "level_entry 5 0x30 (pc_ioapic pc1) (pc_lapic pc1)" "\<not> remote_irr (pins (pc_ioapic pc1) 5)"
  by (simp_all add: level_entry_def pc1_state kIoapicPins_def reset_pin_def carries_def kDeliverySmi_def kDeliveryNmi_def kDeliveryInit_def kDeliveryExtInt_def
    dest_matches_def LapicId_def outranks_def requests_def has_def set_reg_def pc0_fields)


theorem pc_level_cycle_witness:
  "intr_level (fst (OnIsaIrq 5 True pc1)) \<and> fst (OnIntAck (fst (OnIsaIrq 5 True pc1))) = 0x30"
  using pc_level_cycle [OF pc1_ok pc1_entry refl refl] by simp

section \<open>Reset\<close>

text \<open>
  C37. A reset while the local APIC asserts INTR does not release the pin: the board keeps the level it last saw from
  the APIC.  After the next event on any line of the 8259 pair the pin is high, neither controller has a request, and
  the processor acknowledges a spurious vector 7.
\<close>

theorem pc_reset_stale:
  assumes "lapic_irq b" "line < 16" "b1 = fst (OnIsaIrq line False (reset_controllers b))"
  shows "\<not> Deliverable (pc_lapic b1) \<and> \<not> PicHasPending (pc_pic b1) \<and> intr_level b1 \<and> fst (OnIntAck b1) = 7"
proof -
  have g: "irr (pics p k) = 0 \<Longrightarrow> PicGetIrq p k = None" for p k by (simp add: PicGetIrq_def GetPriority_def)
  define p0 where "p0 = pc_pic (reset_controllers b)"
  have p0: "irr (pics p0 k) = 0 \<and> elcr (pics p0 k) = 0 \<and> \<not> ltim (pics p0 k) \<and> irq_base (pics p0 k) = 0" if "k < 2" for k
    using that by (auto simp: p0_def reset_controllers_def wire_controllers_def PicSetIrqSink_def PicInit_def PicReset_def less_2_cases_iff)
  define p1 where "p1 = upd_pic (line div 8) (PicSetIrq1 (line mod 8) False) p0"
  have "line div 8 < 2" using assms(2) by simp
  then have p1: "irr (pics p1 k) = 0 \<and> irq_base (pics p1 k) = 0" if "k < 2" for k
    using p0 [OF that] by (auto simp: p1_def upd_pic_def PicSetIrq1_def Let_def)
  define p2 where "p2 = fst (PicUpdateIrq p1)"
  have sink: "pic_sink p1" by (simp add: p1_def upd_pic_def p0_def reset_controllers_def wire_controllers_def PicSetIrqSink_def)
  have p2: "irr (pics p2 0) = 0" "irq_base (pics p2 0) = 0" "snd (PicUpdateIrq p1) = [(0, False)]"
    using p1 g sink by (auto simp: p2_def PicUpdateIrq_def Let_def upd_pic_def drive_def)
  have i: "snd (IoapicSetPin line False (IoapicSetNmiSink (IoapicSetDeliverSink (IoapicInit io)))) = []" for io
    using assms(2) by (simp add: IoapicSetPin_def IoapicSetNmiSink_def IoapicSetDeliverSink_def IoapicInit_def kIoapicPins_def reset_pin_def)
  have b1: "pc_pic b1 = p2" "pc_lapic b1 = pc_lapic (reset_controllers b)" "intr_level b1"
    using p2(3) i assms(1) unfolding assms(3)
    by (auto simp: OnIsaIrq_def PicSetIrq_def p0_def [symmetric] p1_def [symmetric] p2_def [symmetric] case_prod_unfold Let_def from_ioapic_def
      OnPicIrq_def UpdateIntr_def) (simp_all add: reset_controllers_def wire_controllers_def)
  have d: "\<not> bit (reg (pc_lapic b1) 15) 8" by (simp add: b1 reset_controllers_def wire_controllers_def LapicSetIrqSink_def LapicInit_def)
  then have "fst (OnIntAck b1) = 7" using g [OF p2(1)] p2(2) b1(1)
    by (simp add: OnIntAck_def LapicAcknowledge_def PicAcknowledge_def case_prod_unfold Let_def)
  then show ?thesis using d b1 g [OF p2(1)] by (simp add: Deliverable_def PicHasPending_def)
qed

theorem pc_reset_stale_witness:
  "lapic_irq (fst (OnIsaIrq 5 True pc1)) \<and> fst (OnIntAck (fst (OnIsaIrq 1 False (reset_controllers (fst (OnIsaIrq 5 True pc1)))))) = 7"
proof -
  let ?b = "fst (OnIsaIrq 5 True pc1)"
  have ok: "pc_ok ?b" by (rule OnIsaIrq_ok [OF pc1_ok])
  have "Deliverable (pc_lapic ?b)" using ack_level [OF raise_level(5,6) [OF pc1_entry]] by (auto simp: LapicAcknowledge_def split: if_splits)
  then have "lapic_irq ?b" using ok by (simp add: pc_ok_def lapic_ok_def)
  then show ?thesis using pc_reset_stale [of ?b 1, OF _ _ refl] by simp
qed

end
