(* ===== verification/Pit.thy ===== *)
theory Pit
  imports Device
begin

text \<open>
  The interval timer of the PC (src/src/device/timer/i8254.c): three counters
  that are not counted down but computed from the emulated clock.  \<open>now\<close> is
  the value of \<open>HostTimerNow\<close> during an operation.  A missing interrupt line
  (-1) is \<open>None\<close>; the empty list of channels is the null pointer before the
  first \<open>PitInit\<close>.  \<open>PitRead\<close> gives \<open>None\<close> where the code indexes a channel
  that the device does not have.
\<close>

unbundle bit_operations_syntax

section \<open>State\<close>

definition PIT_FREQ :: u64 where "PIT_FREQ = 1193182"

definition kRwLsb :: u8 where "kRwLsb = 1"
definition kRwMsb :: u8 where "kRwMsb = 2"
definition kRwWord0 :: u8 where "kRwWord0 = 3"
definition kRwWord1 :: u8 where "kRwWord1 = 4"

record PitChannel =
  ch_count :: u32
  latched_count :: u16
  count_latched :: u8
  status_latched :: bool
  ch_status :: u8
  read_state :: u8
  write_state :: u8
  write_latch :: u8
  rw_mode :: u8
  ch_mode :: u8
  bcd :: u8
  gate :: bool
  count_load_time :: u64
  last_irq_count :: u64
  out_level :: bool
  armed :: bool
  ch_irq :: "nat option"

record PitDevice =
  channels :: "PitChannel list"
  pit_sink :: bool

definition zero_channel :: PitChannel where
  "zero_channel = \<lparr>ch_count = 0, latched_count = 0, count_latched = 0, status_latched = False, ch_status = 0,
     read_state = 0, write_state = 0, write_latch = 0, rw_mode = 0, ch_mode = 0, bcd = 0, gate = False,
     count_load_time = 0, last_irq_count = 0, out_level = False, armed = False, ch_irq = Some 0\<rparr>"

definition upd_ch :: "nat \<Rightarrow> PitChannel \<Rightarrow> PitDevice \<Rightarrow> PitDevice" where
  "upd_ch k s d = d\<lparr>channels := (channels d)[k := s]\<rparr>"

section \<open>The counters\<close>

definition PitElapsed :: "u64 \<Rightarrow> PitChannel \<Rightarrow> u64 \<times> PitChannel" where
  "PitElapsed now s =
     (if count_load_time s = 0 then (0, s\<lparr>count_load_time := now\<rparr>)
      else ((now - count_load_time s) * PIT_FREQ div 1000000, s))"

definition PitGetCount :: "u64 \<Rightarrow> PitChannel \<Rightarrow> u32 \<times> PitChannel" where
  "PitGetCount now s =
     (let (d, s1) = PitElapsed now s; c = ucast (ch_count s) :: u64 in
      (if ch_mode s \<in> {0, 1, 4, 5} then ucast ((c - d) AND 0xffff)
       else if ch_mode s = 3 then ucast (c - (2 * d) mod c)
       else ucast (c - d mod c), s1))"

definition PitGetOut :: "u64 \<Rightarrow> PitChannel \<Rightarrow> bool \<times> PitChannel" where
  "PitGetOut now s =
     (let (d, s1) = PitElapsed now s; count = (if ch_count s \<noteq> 0 then ucast (ch_count s) else 0x10000) :: u64 in
      (if ch_mode s = 1 then d < count
       else if ch_mode s = 2 then d mod count = 0 \<and> d \<noteq> 0
       else if ch_mode s = 3 then d mod count < drop_bit 1 (count + 1)
       else if ch_mode s \<in> {4, 5} then d = count
       else d \<ge> count, s1))"

definition PitDriveOut :: "u64 \<Rightarrow> bool \<Rightarrow> PitChannel \<Rightarrow> PitChannel \<times> line_call list" where
  "PitDriveOut now sink s =
     (let (out, s1) = PitGetOut now s in
      if out = out_level s1 then (s1, [])
      else
        (let s2 = s1\<lparr>out_level := out\<rparr>;
             calls = (case ch_irq s2 of None \<Rightarrow> [] | Some i \<Rightarrow> drive sink [(int i, out)]) in
         if out \<and> ch_mode s2 = 3 then
           (let (d, s3) = PitElapsed now s2; c = ucast (ch_count s3) :: u64 in
            (s3\<lparr>last_irq_count := d div c * c\<rparr>, calls))
         else (s2, calls)))"

definition PitLoadCount :: "u64 \<Rightarrow> bool \<Rightarrow> u32 \<Rightarrow> PitChannel \<Rightarrow> PitChannel \<times> line_call list" where
  "PitLoadCount now sink val s =
     (let s1 = s\<lparr>count_load_time := (if armed s then now else 0), last_irq_count := 0,
                 ch_count := (if val = 0 then 0x10000 else val), armed := True\<rparr> in
      if ch_mode s1 = 3 then PitDriveOut now sink s1 else (s1, []))"

definition PitLatchCount :: "u64 \<Rightarrow> PitChannel \<Rightarrow> PitChannel" where
  "PitLatchCount now s =
     (if count_latched s = 0 then
        (let (c, s1) = PitGetCount now s in s1\<lparr>latched_count := ucast c, count_latched := rw_mode s1\<rparr>)
      else s)"

section \<open>Ports\<close>

text \<open>One round of the loop of the read-back command.\<close>

definition read_back :: "u64 \<Rightarrow> u8 \<Rightarrow> nat \<Rightarrow> PitChannel \<Rightarrow> PitChannel" where
  "read_back now val k s =
     (if bit val (k + 1) then
        (let s1 = (if \<not> bit val 5 then PitLatchCount now s else s) in
         if \<not> bit val 4 \<and> \<not> status_latched s1 then
           (let (out, s2) = PitGetOut now s1 in
            s2\<lparr>ch_status := (if out then 0x80 else 0) OR push_bit 4 (rw_mode s2) OR push_bit 1 (ch_mode s2) OR bcd s2,
               status_latched := True\<rparr>)
         else s1)
      else s)"

definition pit_control :: "u64 \<Rightarrow> u8 \<Rightarrow> PitDevice \<Rightarrow> PitDevice" where
  "pit_control now val d =
     (let channel = unat (drop_bit 6 val) in
      if channel = 3 then d\<lparr>channels := map (\<lambda>k. read_back now val k (channels d ! k)) [0..<3]\<rparr>
      else
        (let s = channels d ! channel; access = drop_bit 4 val AND 3 in
         if access = 0 then upd_ch channel (PitLatchCount now s) d
         else upd_ch channel (s\<lparr>rw_mode := access, read_state := access, write_state := access,
           ch_mode := drop_bit 1 val AND 7, bcd := val AND 1\<rparr>) d))"

definition PitIoWrite :: "u64 \<Rightarrow> nat \<Rightarrow> u8 \<Rightarrow> PitDevice \<Rightarrow> PitDevice \<times> line_call list" where
  "PitIoWrite now addr val d =
     (if addr = 3 then (pit_control now val d, [])
      else
        (let s = channels d ! addr; load = (\<lambda>v. PitLoadCount now (pit_sink d) v s) in
         if write_state s = kRwLsb then (let (s1, cs) = load (ucast val) in (upd_ch addr s1 d, cs))
         else if write_state s = kRwMsb then (let (s1, cs) = load (push_bit 8 (ucast val)) in (upd_ch addr s1 d, cs))
         else if write_state s = kRwWord0 then (upd_ch addr (s\<lparr>write_latch := val, write_state := kRwWord1\<rparr>) d, [])
         else if write_state s = kRwWord1 then
           (let (s1, cs) = load (ucast (write_latch s) OR push_bit 8 (ucast val)) in
            (upd_ch addr (s1\<lparr>write_state := kRwWord0\<rparr>) d, cs))
         else (d, [])))"

definition pit_read_latched :: "PitChannel \<Rightarrow> u8 \<times> PitChannel" where
  "pit_read_latched s =
     (if count_latched s = kRwLsb then (ucast (latched_count s), s\<lparr>count_latched := 0\<rparr>)
      else if count_latched s = kRwMsb then (ucast (drop_bit 8 (latched_count s)), s\<lparr>count_latched := 0\<rparr>)
      else if count_latched s = kRwWord0 then (ucast (latched_count s), s\<lparr>count_latched := kRwMsb\<rparr>)
      else (0, s))"

definition PitIoRead :: "u64 \<Rightarrow> nat \<Rightarrow> PitDevice \<Rightarrow> (u8 \<times> PitDevice) option" where
  "PitIoRead now addr d =
     (if addr < length (channels d) then
        (let s = channels d ! addr in
         Some (if status_latched s then (ch_status s, upd_ch addr (s\<lparr>status_latched := False\<rparr>) d)
           else if count_latched s \<noteq> 0 then (let (v, s1) = pit_read_latched s in (v, upd_ch addr s1 d))
           else
             (let (count, s1) = PitGetCount now s; lo = ucast count; hi = ucast (drop_bit 8 count) in
              if read_state s1 = kRwLsb then (lo, upd_ch addr s1 d)
              else if read_state s1 = kRwMsb then (hi, upd_ch addr s1 d)
              else if read_state s1 = kRwWord0 then (lo, upd_ch addr (s1\<lparr>read_state := kRwWord1\<rparr>) d)
              else if read_state s1 = kRwWord1 then (hi, upd_ch addr (s1\<lparr>read_state := kRwWord0\<rparr>) d)
              else (0, upd_ch addr s1 d))))
      else None)"

definition PitRead :: "u64 \<Rightarrow> u64 \<Rightarrow> PitDevice \<Rightarrow> (u8 \<times> PitDevice) option" where
  "PitRead now addr d = PitIoRead now (unat (addr AND 3)) d"

definition PitWrite :: "u64 \<Rightarrow> u64 \<Rightarrow> u64 \<Rightarrow> PitDevice \<Rightarrow> PitDevice \<times> line_call list" where
  "PitWrite now addr val d = PitIoWrite now (unat (addr AND 3)) (ucast val) d"

section \<open>Reset, poll and construction\<close>

definition PitReset :: "u64 \<Rightarrow> PitDevice \<Rightarrow> PitDevice" where
  "PitReset now d = d\<lparr>channels := map (\<lambda>i. fst (PitLoadCount now (pit_sink d) 0
     ((channels d ! i)\<lparr>ch_mode := 3, gate := i \<noteq> 2, ch_irq := None, out_level := False\<rparr>))) [0..<3]\<rparr>"

definition poll_rate :: "u64 \<Rightarrow> bool \<Rightarrow> nat \<Rightarrow> PitChannel \<Rightarrow> PitChannel \<times> line_call list" where
  "poll_rate now sink irq s =
     (let (d, s1) = PitElapsed now s in
      if (ucast (last_irq_count s1 + ucast (ch_count s1) - ucast (ucast d :: u32)) :: u32) <=s 0 then
        (let s2 = s1\<lparr>out_level := True, last_irq_count := last_irq_count s1 + ucast (ch_count s1)\<rparr> in
         (if now - count_load_time s2 > 0x80000000 then fst (PitLoadCount now sink (ch_count s2) s2) else s2,
          drive sink [(int irq, False), (int irq, True)]))
      else if out_level s1 then (s1\<lparr>out_level := False\<rparr>, drive sink [(int irq, False)])
      else (s1, []))"

definition PitPoll :: "u64 \<Rightarrow> PitDevice \<Rightarrow> PitDevice \<times> line_call list" where
  "PitPoll now d =
     (let s = channels d ! 0 in
      case ch_irq s of None \<Rightarrow> (d, [])
      | Some irq \<Rightarrow>
          if ch_mode s = 3 then (let (s1, cs) = PitDriveOut now (pit_sink d) s in (upd_ch 0 s1 d, cs))
          else if ch_mode s = 2 then (let (s1, cs) = poll_rate now (pit_sink d) irq s in (upd_ch 0 s1 d, cs))
          else (upd_ch 0 (snd (PitElapsed now s)) d, []))"

definition PitNextEventUs :: "u64 \<Rightarrow> PitDevice \<Rightarrow> u64" where
  "PitNextEventUs now d =
     (let s = channels d ! 0 in
      if ch_irq s = None \<or> ch_mode s \<noteq> 2 \<and> ch_mode s \<noteq> 3 \<or> count_load_time s = 0 then 0
      else
        (let el = fst (PitElapsed now s); next = last_irq_count s + ucast (ch_count s) in
         if next \<le> el then 0 else (next - el) * 1000000 div PIT_FREQ))"

definition PitInit :: "u64 \<Rightarrow> PitDevice \<Rightarrow> PitDevice" where
  "PitInit now d =
     (let d0 = (if channels d = [] then d\<lparr>channels := replicate 3 zero_channel\<rparr> else d);
          d1 = PitReset now d0 in
      (upd_ch 0 ((channels d1 ! 0)\<lparr>ch_irq := Some 0\<rparr>) d1)\<lparr>pit_sink := False\<rparr>)"

definition PitRegister :: "Bus \<Rightarrow> nat \<Rightarrow> nat \<Rightarrow> u16 \<Rightarrow> Bus option" where
  "PitRegister io ops pit base = BusAddRegion io (ucast base) 4 ops pit"

definition PitSetIrqSink :: "PitDevice \<Rightarrow> PitDevice" where
  "PitSetIrqSink d = d\<lparr>pit_sink := True\<rparr>"


section \<open>The registers stay in range\<close>

definition channel_ok :: "PitChannel \<Rightarrow> bool" where
  "channel_ok s \<longleftrightarrow> ch_count s \<noteq> 0 \<and> ch_count s \<le> 0x10000 \<and> count_latched s \<le> 3 \<and> rw_mode s \<le> 3 \<and> ch_mode s \<le> 7 \<and>
     bcd s \<le> 1 \<and> read_state s \<le> 4 \<and> write_state s \<le> 4"

definition pit_ok :: "PitDevice \<Rightarrow> bool" where
  "pit_ok d \<longleftrightarrow> length (channels d) = 3 \<and> (\<forall>s \<in> set (channels d). channel_ok s)"

lemma pit_ok_nth: "pit_ok d \<Longrightarrow> k < 3 \<Longrightarrow> channel_ok (channels d ! k)"
  by (simp add: pit_ok_def)

lemma pit_ok_upd: "pit_ok d \<Longrightarrow> channel_ok s \<Longrightarrow> pit_ok (upd_ch k s d)"
  using set_update_subset_insert [of "channels d" k s] by (auto simp: pit_ok_def upd_ch_def)

lemma pit_ok_map: "\<forall>k < 3. channel_ok (f k) \<Longrightarrow> pit_ok (d\<lparr>channels := map f [0..<3]\<rparr>)"
  by (simp add: pit_ok_def)

lemma channel_ok_fields [simp]:
  "channel_ok (s\<lparr>count_load_time := t\<rparr>) = channel_ok s" "channel_ok (s\<lparr>last_irq_count := t\<rparr>) = channel_ok s"
  "channel_ok (s\<lparr>out_level := b\<rparr>) = channel_ok s" "channel_ok (s\<lparr>latched_count := c\<rparr>) = channel_ok s"
  "channel_ok (s\<lparr>status_latched := b\<rparr>) = channel_ok s" "channel_ok (s\<lparr>ch_status := c8\<rparr>) = channel_ok s"
  "channel_ok (s\<lparr>write_latch := c8\<rparr>) = channel_ok s" "channel_ok (s\<lparr>ch_irq := i\<rparr>) = channel_ok s"
  "channel_ok (s\<lparr>armed := b\<rparr>) = channel_ok s" "channel_ok (s\<lparr>gate := b\<rparr>) = channel_ok s"
  by (simp_all add: channel_ok_def)

lemma PitElapsed_ok: "channel_ok (snd (PitElapsed now s)) = channel_ok s"
  by (simp add: PitElapsed_def)

lemma PitGetCount_ok: "channel_ok (snd (PitGetCount now s)) = channel_ok s"
  using PitElapsed_ok [of now s] by (simp add: PitGetCount_def Let_def case_prod_unfold)

lemma PitGetOut_ok: "channel_ok (snd (PitGetOut now s)) = channel_ok s"
  using PitElapsed_ok [of now s] by (simp add: PitGetOut_def Let_def case_prod_unfold)

lemma PitDriveOut_ok: "channel_ok (fst (PitDriveOut now sink s)) = channel_ok s"
proof -
  obtain b s1 where g: "PitGetOut now s = (b, s1)" by fastforce
  then have "channel_ok s1 = channel_ok s" using PitGetOut_ok [of now s] by simp
  then show ?thesis
    using PitElapsed_ok [of now "s1\<lparr>out_level := b\<rparr>"] by (auto simp: PitDriveOut_def g Let_def split: prod.splits)
qed

lemma PitLoadCount_ok: "channel_ok s \<or> channel_ok (s\<lparr>ch_count := 1\<rparr>) \<Longrightarrow> val \<le> 0x10000 \<Longrightarrow> channel_ok (fst (PitLoadCount now sink val s))"
  by (auto simp: PitLoadCount_def Let_def PitDriveOut_ok) (auto simp: channel_ok_def)

lemma PitLatchCount_ok: "channel_ok s \<Longrightarrow> channel_ok (PitLatchCount now s)"
  using PitGetCount_ok [of now s] by (auto simp: PitLatchCount_def split: prod.splits) (auto simp: channel_ok_def)

lemma read_back_ok: "channel_ok s \<Longrightarrow> channel_ok (read_back now v k s)"
  using PitGetOut_ok [of now s] PitGetOut_ok [of now "PitLatchCount now s"] PitLatchCount_ok [of s now]
  by (simp add: read_back_def Let_def case_prod_unfold)

lemma low_two: "(x AND 3 :: u8) \<le> 3" and low_three: "(x AND 7 :: u8) \<le> 7" and low_one: "(x AND 1 :: u8) \<le> 1"
  by (rule word_and_le1)+

lemma pit_control_ok: "pit_ok d \<Longrightarrow> pit_ok (pit_control now v d)"
proof -
  assume d: "pit_ok d"
  let ?c = "unat (drop_bit 6 v)"
  have "?c < 4" using unsigned_less [of v, where 'a = nat] by (simp add: drop_bit_eq_div unat_div)
  show ?thesis
  proof (cases "?c = 3")
    case True
    then show ?thesis using pit_ok_nth [OF d] by (auto simp: pit_control_def Let_def simp del: upt.simps upt_rec_numeral intro!: pit_ok_map read_back_ok)
  next
    case False
    then have c: "channel_ok (channels d ! ?c)" using \<open>?c < 4\<close> pit_ok_nth [OF d] by simp
    have "(drop_bit 4 v AND 3) \<le> (4 :: u8)" by (rule order_trans [OF low_two]) simp
    then have "channel_ok ((channels d ! ?c)\<lparr>rw_mode := drop_bit 4 v AND 3, read_state := drop_bit 4 v AND 3,
        write_state := drop_bit 4 v AND 3, ch_mode := drop_bit 1 v AND 7, bcd := v AND 1\<rparr>)"
      using c low_two low_three low_one by (simp add: channel_ok_def)
    then show ?thesis using False PitLatchCount_ok [OF c] by (simp add: pit_control_def Let_def pit_ok_upd [OF d])
  qed
qed

lemma word_count: "(ucast (l :: u8) OR push_bit 8 (ucast (v :: u8)) :: u32) \<le> 0x10000" "(ucast v :: u32) \<le> 0x10000"
  "(push_bit 8 (ucast v) :: u32) \<le> 0x10000"
proof -
  have b: "x \<le> 0x10000" if "\<And>n. n \<ge> 16 \<Longrightarrow> \<not> bit x n" for x :: u32
  proof -
    have "take_bit 16 x = x" using that by (intro bit_word_eqI) (metis bit_take_bit_iff not_le)
    then have "unat x = take_bit 16 (unat x)" by (metis unsigned_take_bit_eq)
    then show ?thesis using take_bit_nat_less_exp [of 16 "unat x"] by (simp add: word_le_nat_alt)
  qed
  show "(ucast l OR push_bit 8 (ucast v) :: u32) \<le> 0x10000" "(ucast v :: u32) \<le> 0x10000" "(push_bit 8 (ucast v) :: u32) \<le> 0x10000"
    by (rule b; auto simp: bit_or_iff bit_push_bit_iff bit_ucast_iff dest: bit_imp_le_length)+
qed

lemma PitIoWrite_ok: "pit_ok d \<Longrightarrow> a \<le> 3 \<Longrightarrow> pit_ok (fst (PitIoWrite now a v d))"
proof -
  assume d: "pit_ok d" and a: "a \<le> 3"
  show ?thesis
  proof (cases "a = 3")
    case True
    then show ?thesis by (simp add: PitIoWrite_def pit_control_ok [OF d])
  next
    case False
    then have c: "channel_ok (channels d ! a)" using a pit_ok_nth [OF d] by simp
    note l = PitLoadCount_ok [OF disjI1 [OF c] word_count(1)] PitLoadCount_ok [OF disjI1 [OF c] word_count(2)]
      PitLoadCount_ok [OF disjI1 [OF c] word_count(3)]
    have "channel_ok (s\<lparr>write_state := kRwWord0\<rparr>)" "channel_ok (s\<lparr>write_state := kRwWord1\<rparr>)" if "channel_ok s" for s
      using that by (simp_all add: channel_ok_def kRwWord0_def kRwWord1_def)
    then show ?thesis using False c l
      by (simp add: PitIoWrite_def Let_def case_prod_unfold d pit_ok_upd [OF d])
  qed
qed

lemma PitIoRead_ok: "pit_ok d \<Longrightarrow> PitIoRead now a d = Some (v, d') \<Longrightarrow> pit_ok d'"
proof -
  assume d: "pit_ok d" and r: "PitIoRead now a d = Some (v, d')"
  then have a: "a < 3" by (auto simp: PitIoRead_def pit_ok_def split: if_splits)
  let ?s = "channels d ! a"
  have c: "channel_ok ?s" "channel_ok (snd (PitGetCount now ?s))" using a pit_ok_nth [OF d] by (simp_all add: PitGetCount_ok)
  have "channel_ok (s\<lparr>read_state := kRwWord0\<rparr>)" "channel_ok (s\<lparr>read_state := kRwWord1\<rparr>)"
    "channel_ok (snd (pit_read_latched s))" if "channel_ok s" for s
    using that by (simp_all add: channel_ok_def kRwWord0_def kRwWord1_def kRwMsb_def pit_read_latched_def)
  then have "pit_ok (snd (the (PitIoRead now a d)))" using c a d d [unfolded pit_ok_def, THEN conjunct1]
    by (simp add: PitIoRead_def Let_def case_prod_unfold pit_ok_upd)
  then show ?thesis using r by simp
qed

lemma PitInit_ok: "channels d = [] \<or> pit_ok d \<Longrightarrow> pit_ok (PitInit now d)"
proof -
  assume d: "channels d = [] \<or> pit_ok d"
  define d0 where "d0 = (if channels d = [] then d\<lparr>channels := replicate 3 zero_channel\<rparr> else d)"
  have "channel_ok (fst (PitLoadCount now (pit_sink d0) 0 ((channels d0 ! i)\<lparr>ch_mode := 3, gate := i \<noteq> 2, ch_irq := None, out_level := False\<rparr>)))"
    if "i < 3" for i
  proof (rule PitLoadCount_ok)
    have "channel_ok ((channels d0 ! i)\<lparr>ch_count := 1, ch_mode := 3\<rparr>)"
      using d that pit_ok_nth [of d i] by (auto simp: d0_def channel_ok_def zero_channel_def nth_replicate)
    then show "channel_ok ((channels d0 ! i)\<lparr>ch_mode := 3, gate := i \<noteq> 2, ch_irq := None, out_level := False\<rparr>) \<or>
        channel_ok ((channels d0 ! i)\<lparr>ch_mode := 3, gate := i \<noteq> 2, ch_irq := None, out_level := False, ch_count := 1\<rparr>)"
      by (simp add: channel_ok_def)
  qed simp
  then have r: "pit_ok (PitReset now d0)" unfolding PitReset_def by (intro pit_ok_map) simp
  then show ?thesis using pit_ok_upd [OF r, of "(channels (PitReset now d0) ! 0)\<lparr>ch_irq := Some 0\<rparr>" 0] pit_ok_nth [OF r, of 0]
    by (simp add: PitInit_def Let_def d0_def [symmetric] pit_ok_def)
qed

lemma PitPoll_ok: "pit_ok d \<Longrightarrow> pit_ok (fst (PitPoll now d))"
proof -
  assume d: "pit_ok d"
  let ?s = "channels d ! 0"
  have c: "channel_ok ?s" using pit_ok_nth [OF d] by simp
  then have e: "channel_ok (snd (PitElapsed now ?s))" by (simp add: PitElapsed_ok)
  have "channel_ok (fst (poll_rate now sink i ?s))" for sink i
    using e by (auto simp: poll_rate_def Let_def case_prod_unfold intro!: PitLoadCount_ok) (simp add: channel_ok_def)
  then show ?thesis using c e by (auto simp: PitPoll_def Let_def case_prod_unfold d PitDriveOut_ok pit_ok_upd split: option.splits)
qed


section \<open>Periodic ticks\<close>

text \<open>The ticks of the input clock between the load of a counter and \<open>now\<close>, without the wrap of the machine arithmetic.\<close>

definition ticks :: "u64 \<Rightarrow> u64 \<Rightarrow> nat" where
  "ticks loaded now = (unat now - unat loaded) * 1193182 div 1000000"

lemma ticks_elapsed:
  assumes "count_load_time s \<noteq> 0" "count_load_time s \<le> now" "now - count_load_time s \<le> 0x80000000"
  shows "snd (PitElapsed now s) = s" "unat (fst (PitElapsed now s)) = ticks (count_load_time s) now" "ticks (count_load_time s) now < 2 ^ 32"
proof -
  let ?e = "now - count_load_time s"
  have e: "unat ?e = unat now - unat (count_load_time s)" using assms(2) by (simp add: unat_sub)
  then have b: "unat now - unat (count_load_time s) \<le> 0x80000000" using assms(3) by (simp add: word_le_nat_alt)
  then have "unat (?e * PIT_FREQ) = unat ?e * 1193182" using unat_mult_lem [of ?e PIT_FREQ] unfolding e by (simp add: PIT_FREQ_def)
  then show "unat (fst (PitElapsed now s)) = ticks (count_load_time s) now" using assms(1)
    by (simp add: PitElapsed_def unat_div e ticks_def)
  show "ticks (count_load_time s) now < 2 ^ 32" using b by (simp add: ticks_def)
  show "snd (PitElapsed now s) = s" using assms(1) by (simp add: PitElapsed_def)
qed

text \<open>The signed comparison of \<open>PitPoll\<close> decides the unsigned one while the two sides are close.\<close>

lemma sint_diff:
  fixes a b :: u64 and d :: u64
  assumes "int (unat a) + int (unat b) - int (unat d) < 2 ^ 31" "- (2 ^ 31) \<le> int (unat a) + int (unat b) - int (unat d)"
  shows "(ucast (a + b - ucast (ucast d :: u32)) :: u32) <=s 0 \<longleftrightarrow> unat a + unat b \<le> unat d"
proof -
  let ?i = "int (unat a) + int (unat b) - int (unat d)"
  have u: "uint (ucast (ucast d :: u32) :: u64) = uint d mod 2 ^ 32"
    by (simp add: unsigned_ucast_eq uint_mod take_bit_eq_mod)
  have "(ucast x :: u32) = word_of_int (uint x)" for x :: u64 by (simp add: unsigned_ucast_eq)
  then have "(ucast (a + b - ucast (ucast d :: u32)) :: u32) = word_of_int (uint (a + b - ucast (ucast d :: u32)))" .
  also have "\<dots> = word_of_int (uint a + uint b - uint d)"
  proof (subst word_of_int_eq_iff)
    show "take_bit LENGTH(32) (uint (a + b - ucast (ucast d :: u32))) = take_bit LENGTH(32) (uint a + uint b - uint d)"
      by (simp add: uint_word_ariths u take_bit_eq_mod mod_mod_cancel mod_simps)
  qed
  finally have "(ucast (a + b - ucast (ucast d :: u32)) :: u32) = word_of_int ?i" by simp
  moreover have "sint (word_of_int i :: u32) = i" if "i < 2 ^ 31" "- (2 ^ 31) \<le> i" for i
    using that by (simp add: sint_sbintrunc' signed_take_bit_int_eq_self)
  ultimately have "sint (ucast (a + b - ucast (ucast d :: u32)) :: u32) = ?i" using assms by metis
  then show ?thesis unfolding word_sle_eq signed_0 by linarith
qed

fun polls :: "u64 list \<Rightarrow> PitDevice \<Rightarrow> PitDevice \<times> line_call list" where
  "polls [] d = (d, [])"
| "polls (t # ts) d = (let (d1, cs) = PitPoll t d; (d2, cs') = polls ts d1 in (d2, cs @ cs'))"

definition rises :: "line_call list \<Rightarrow> nat" where
  "rises cs = length (filter snd cs)"

text \<open>Channel 0 is a rate generator with an interrupt line and has delivered \<open>n\<close> ticks.\<close>

definition rate_gen :: "u64 \<Rightarrow> nat \<Rightarrow> nat \<Rightarrow> PitDevice \<Rightarrow> bool" where
  "rate_gen loaded c n d \<longleftrightarrow> (let s = channels d ! 0 in channels d \<noteq> [] \<and> pit_sink d \<and> ch_irq s \<noteq> None \<and> ch_mode s = 2 \<and>
     loaded \<noteq> 0 \<and> count_load_time s = loaded \<and> unat (ch_count s) = c \<and> 0 < c \<and> c \<le> 0x10000 \<and> unat (last_irq_count s) = n * c)"

lemma poll_tick:
  assumes d: "rate_gen loaded c n d" and now: "loaded \<le> now" "now - loaded \<le> 0x80000000"
    and t: "n * c \<le> ticks loaded now" "ticks loaded now < n * c + 0x40000000"
  shows "if (n + 1) * c \<le> ticks loaded now
    then rate_gen loaded c (n + 1) (fst (PitPoll now d)) \<and> rises (snd (PitPoll now d)) = 1
    else rate_gen loaded c n (fst (PitPoll now d)) \<and> rises (snd (PitPoll now d)) = 0"
proof -
  define s where "s = channels d ! 0"
  have s: "channels d \<noteq> []" "pit_sink d" "ch_mode s = 2" "loaded \<noteq> 0" "count_load_time s = loaded" "unat (ch_count s) = c" "0 < c" "c \<le> 0x10000"
    "unat (last_irq_count s) = n * c" using d by (simp_all add: rate_gen_def Let_def s_def)
  obtain i where i: "ch_irq s = Some i" using d by (auto simp: rate_gen_def Let_def s_def)
  note e = ticks_elapsed [of s now, unfolded s(5), OF s(4) now]
  have near: "int m + int c - int k < 2 ^ 31 \<and> - (2 ^ 31) \<le> int m + int c - int k" if "m \<le> k" "k < m + 0x40000000" "c \<le> 0x10000" for m k
    using that by simp
  have cu: "unat (ucast (ch_count s) :: u64) = c" using s(6,8) by (simp add: unsigned_ucast_eq take_bit_nat_eq_self)
  have "(ucast (last_irq_count s + ucast (ch_count s) - ucast (ucast (fst (PitElapsed now s)) :: u32)) :: u32) <=s 0
      \<longleftrightarrow> n * c + c \<le> ticks loaded now"
  proof (rule sint_diff [of "last_irq_count s" "ucast (ch_count s)" "fst (PitElapsed now s)", unfolded cu e(2) s(9)])
    show "int (n * c) + int c - int (ticks loaded now) < 2 ^ 31" "- (2 ^ 31) \<le> int (n * c) + int c - int (ticks loaded now)"
      using near [OF t s(8)] by simp_all
  qed
  moreover have "unat (last_irq_count s + ucast (ch_count s)) = (n + 1) * c"
    using unat_add_lem [of "last_irq_count s" "ucast (ch_count s) :: u64"] t(1) e(3) s(8) cu s(9) by simp
  moreover have "\<not> now - loaded > 0x80000000" using now(2) by simp
  ultimately show ?thesis using s i e(1)
    by (auto simp: PitPoll_def s_def [symmetric] poll_rate_def Let_def case_prod_unfold rate_gen_def upd_ch_def drive_def rises_def)
qed

fun paced :: "nat \<Rightarrow> nat \<Rightarrow> nat list \<Rightarrow> bool" where
  "paced c t [] = True"
| "paced c t (u # us) = (t \<le> u \<and> u \<le> t + c \<and> paced c u us)"

lemma div_step:
  fixes c :: nat
  assumes "0 < c" "t \<le> u" "u \<le> t + c"
  shows "t div c * c \<le> u" "u < t div c * c + 2 * c" "u div c = (if (t div c + 1) * c \<le> u then t div c + 1 else t div c)"
proof -
  have m: "t = t div c * c + t mod c" "t mod c < c" using assms(1) by simp_all
  then show b: "t div c * c \<le> u" "u < t div c * c + 2 * c" using assms by linarith+
  show "u div c = (if (t div c + 1) * c \<le> u then t div c + 1 else t div c)"
    using b by (auto intro!: div_nat_eqI simp: algebra_simps)
qed

lemma polls_ticks:
  assumes "rate_gen loaded c (t div c) d" "paced c t (map (ticks loaded) (ts @ [now]))" "\<forall>x \<in> set (ts @ [now]). loaded \<le> x \<and> x - loaded \<le> 0x80000000"
  shows "rises (snd (polls (ts @ [now]) d)) = ticks loaded now div c - t div c \<and> t \<le> ticks loaded now \<and>
    rate_gen loaded c (ticks loaded now div c) (fst (polls (ts @ [now]) d))"
  using assms
proof (induction ts arbitrary: t d)
  case Nil
  then have c: "0 < c" "c \<le> 0x10000" by (auto simp: rate_gen_def Let_def)
  have t: "t \<le> ticks loaded now" "ticks loaded now \<le> t + c" using Nil by auto
  note d = div_step [OF c(1) t]
  show ?case using poll_tick [OF Nil.prems(1), of now] Nil.prems(3) d t c(2)
    by (auto simp: Let_def case_prod_unfold split: if_splits)
next
  case (Cons u ts)
  then have c: "0 < c" "c \<le> 0x10000" by (auto simp: rate_gen_def Let_def)
  have t: "t \<le> ticks loaded u" "ticks loaded u \<le> t + c" using Cons.prems by auto
  note d = div_step [OF c(1) t]
  have p: "rate_gen loaded c (ticks loaded u div c) (fst (PitPoll u d)) \<and> rises (snd (PitPoll u d)) = ticks loaded u div c - t div c"
    using poll_tick [OF Cons.prems(1), of u] Cons.prems(3) d t c(2) by (auto split: if_splits)
  then show ?case using Cons.IH [of "ticks loaded u" "fst (PitPoll u d)"] Cons.prems t(1) div_le_mono [OF t(1), of c]
    div_le_mono [of "ticks loaded u" "ticks loaded now" c]
    by (auto simp: Let_def case_prod_unfold rises_def)
qed



definition pit1 :: PitDevice where
  "pit1 = (let d0 = PitSetIrqSink (PitInit 5 \<lparr>channels = [], pit_sink = False\<rparr>); d1 = fst (PitWrite 6 0x43 0x34 d0);
     d2 = fst (PitWrite 7 0x40 0xe8 d1) in fst (PitWrite 100 0x40 0x03 d2))"

lemma pit0_channel: "channels (PitInit 5 \<lparr>channels = [], pit_sink = False\<rparr>) = map (\<lambda>i. zero_channel\<lparr>ch_count := 0x10000, ch_mode := 3,
    gate := i \<noteq> 2, count_load_time := 5, out_level := True, armed := True, ch_irq := (if i = 0 then Some 0 else None)\<rparr>) [0, 1, 2 :: nat]"
proof -
  have "PitLoadCount 5 False 0 (zero_channel\<lparr>ch_mode := 3, gate := g, ch_irq := None, out_level := False\<rparr>) =
      (zero_channel\<lparr>ch_count := 0x10000, ch_mode := 3, gate := g, count_load_time := 5, out_level := True, armed := True, ch_irq := None\<rparr>, [])" for g
    by (simp add: PitLoadCount_def PitDriveOut_def PitGetOut_def PitElapsed_def zero_channel_def)
  moreover have "[0..<3] = [0, 1, 2 :: nat]" by (simp add: upt_rec)
  ultimately show ?thesis by (simp add: PitInit_def PitReset_def Let_def upd_ch_def numeral_3_eq_3)
qed

lemma pit1_channel: "channels pit1 \<noteq> [] \<and> pit_sink pit1 \<and> channels pit1 ! 0 = zero_channel\<lparr>ch_count := 1000, read_state := 3, write_state := 3,
  write_latch := 0xe8, rw_mode := 3, ch_mode := 2, gate := True, count_load_time := 100, out_level := True, armed := True\<rparr>"
  by (simp add: pit1_def PitSetIrqSink_def pit0_channel PitWrite_def PitIoWrite_def PitLoadCount_def
    pit_control_def upd_ch_def zero_channel_def kRwLsb_def kRwMsb_def kRwWord0_def kRwWord1_def Let_def)

lemma rate_gen_pit1: "rate_gen 100 1000 0 pit1"
  using pit1_channel by (simp add: rate_gen_def Let_def zero_channel_def)



section \<open>Latched counts\<close>

lemma port_le: "unat (a AND 3 :: u64) \<le> 3"
  using word_and_le1 [of a 3] by (simp add: word_le_nat_alt)


lemma bytes_of_low_half:
  "unat (ucast (ucast (c :: u32) :: u16) :: u8) + 256 * unat (ucast (drop_bit 8 (ucast c :: u16)) :: u8) = unat c mod 65536"
proof -
  have u16: "unat (ucast x :: u16) = unat x mod 65536" for x :: u32
    by (simp only: unsigned_ucast_eq unsigned_take_bit_eq) (simp add: take_bit_eq_mod)
  have u8: "unat (ucast x :: u8) = unat x mod 256" for x :: u16
    by (simp only: unsigned_ucast_eq unsigned_take_bit_eq) (simp add: take_bit_eq_mod)
  have "unat (ucast (ucast c :: u16) :: u8) = unat c mod 256"
    by (simp add: u8 u16 mod_mod_cancel)
  moreover have "unat (ucast (drop_bit 8 (ucast c :: u16)) :: u8) = unat c mod 65536 div 256"
    by (simp add: u8 u16 drop_bit_eq_div unat_div)
  moreover have "m mod 256 + 256 * (m mod 65536 div 256) = m mod 65536" for m :: nat
    using mult_div_mod_eq [of 256 "m mod 65536"] by (simp add: mod_mod_cancel)
  ultimately show ?thesis by simp
qed

text \<open>
  The latch command freezes the count: the next two reads of the port return its low and its high byte, whatever
  time passes between the three accesses, and the latch is then free again.
\<close>

theorem pit_latch_read:
  assumes "pit_ok d" "k < 3" "rw_mode (channels d ! k) = 3" "count_latched (channels d ! k) = 0" "\<not> status_latched (channels d ! k)"
    "d1 = fst (PitWrite t0 0x43 (of_nat (64 * k)) d)"
  shows "\<exists>lo hi d2 d3. PitRead t1 (0x40 + of_nat k) d1 = Some (lo, d2) \<and> PitRead t2 (0x40 + of_nat k) d2 = Some (hi, d3) \<and>
    unat lo + 256 * unat hi = unat (fst (PitGetCount t0 (channels d ! k))) mod 65536 \<and> count_latched (channels d3 ! k) = 0"
proof -
  have k: "k = 0 \<or> k = 1 \<or> k = 2" using assms(2) by auto
  define c where "c = fst (PitGetCount t0 (channels d ! k))"
  define s where "s = (snd (PitGetCount t0 (channels d ! k)))\<lparr>latched_count := ucast c, count_latched := 3\<rparr>"
  have f: "rw_mode (snd (PitGetCount t0 s)) = rw_mode s" "status_latched (snd (PitGetCount t0 s)) = status_latched s" for s
    by (simp_all add: PitGetCount_def PitElapsed_def Let_def case_prod_unfold)
  have l: "length (channels d) = 3" using assms(1) by (simp add: pit_ok_def)
  have "PitLatchCount t0 (channels d ! k) = s" using assms(3,4) f by (simp add: PitLatchCount_def case_prod_unfold Let_def s_def c_def)
  then have d1: "d1 = upd_ch k s d" using k by (auto simp: assms(6) PitWrite_def PitIoWrite_def pit_control_def Let_def)
  have s: "count_latched s = 3" "latched_count s = ucast c" "\<not> status_latched s" using assms(5) f by (simp_all add: s_def)
  have a: "unat ((0x40 + of_nat k :: u64) AND 3) = k" using k by auto
  define s2 where "s2 = s\<lparr>count_latched := 2\<rparr>"
  have "PitRead t1 (0x40 + of_nat k) d1 = Some (ucast (ucast c :: u16), upd_ch k s2 d)"
    using s l assms(2) unfolding PitRead_def a
    by (simp add: PitIoRead_def d1 upd_ch_def pit_read_latched_def kRwLsb_def kRwMsb_def kRwWord0_def s2_def)
  moreover have "PitRead t2 (0x40 + of_nat k) (upd_ch k s2 d) = Some (ucast (drop_bit 8 (ucast c :: u16)), upd_ch k (s2\<lparr>count_latched := 0\<rparr>) d)"
    using s l assms(2) unfolding PitRead_def a
    by (simp add: PitIoRead_def upd_ch_def pit_read_latched_def kRwLsb_def kRwMsb_def kRwWord0_def s2_def)
  moreover have "unat (ucast (ucast c :: u16) :: u8) + 256 * unat (ucast (drop_bit 8 (ucast c :: u16)) :: u8) = unat c mod 65536"
    by (rule bytes_of_low_half)
  ultimately show ?thesis using l assms(2) by (auto simp: upd_ch_def c_def)
qed

lemma pit1_ok: "pit_ok pit1"
proof -
  have "pit_ok (PitInit 5 \<lparr>channels = [], pit_sink = False\<rparr>)" by (rule PitInit_ok) simp
  then have "pit_ok (PitSetIrqSink (PitInit 5 \<lparr>channels = [], pit_sink = False\<rparr>))" by (simp add: PitSetIrqSink_def pit_ok_def)
  moreover have "pit_ok (fst (PitWrite t a v d))" if "pit_ok d" for t a v d
    unfolding PitWrite_def by (rule PitIoWrite_ok [OF that port_le])
  ultimately show ?thesis by (simp add: pit1_def Let_def)
qed

theorem pit_latch_read_witness:
  "\<exists>lo hi d2 d3. PitRead 2000 0x40 (fst (PitWrite 500 0x43 0 pit1)) = Some (lo, d2) \<and> PitRead 3000 0x40 d2 = Some (hi, d3) \<and>
    unat lo + 256 * unat hi = 523"
proof -
  have "fst (PitGetCount 500 (channels pit1 ! 0)) = 523" using pit1_channel
    by (simp add: PitGetCount_def PitElapsed_def PIT_FREQ_def zero_channel_def Let_def)
  then show ?thesis using pit_latch_read [OF pit1_ok, of 0 "fst (PitWrite 500 0x43 0 pit1)" 500 2000 3000] pit1_channel
    by (simp add: zero_channel_def) blast
qed

section \<open>Accesses\<close>

lemma read_none: "PitIoRead now a d = None \<longleftrightarrow> length (channels d) \<le> a"
  by (auto simp: PitIoRead_def Let_def not_less)

text \<open>
  Every access to the four ports, every poll and a reset keep the counters legal: a reload value is between 1 and
  65536, so no division by it fails, and the access states are among those the code handles.  A read is defined for
  the three counters only: the read of the control port indexes a fourth channel.
\<close>

theorem pit_safe:
  assumes "pit_ok d"
  shows "pit_ok (fst (PitWrite now a v d)) \<and> pit_ok (fst (PitPoll now d)) \<and> pit_ok (PitInit now d) \<and>
    (\<forall>x d'. PitRead now a d = Some (x, d') \<longrightarrow> pit_ok d') \<and> (PitRead now a d = None \<longleftrightarrow> a AND 3 = 3)"
proof (intro conjI allI impI)
  show "pit_ok (fst (PitWrite now a v d))" unfolding PitWrite_def by (rule PitIoWrite_ok [OF assms port_le])
  show "pit_ok d'" if "PitRead now a d = Some (x, d')" for x d'
    using that unfolding PitRead_def by (rule PitIoRead_ok [OF assms])
  have "a AND 3 = 3 \<longleftrightarrow> unat (a AND 3) = 3" by (simp add: word_unat_eq_iff)
  moreover have "length (channels d) = 3" using assms by (simp add: pit_ok_def)
  ultimately show "PitRead now a d = None \<longleftrightarrow> a AND 3 = 3" using port_le [of a] by (simp add: PitRead_def read_none)
qed (use assms PitPoll_ok PitInit_ok in blast)+

text \<open>
  The power-on mode of a counter is the square wave, and loading a counter in that mode reads the clock: the count
  starts at construction and not at the first poll.
\<close>

lemma pit_init_anchors:
  assumes "now \<noteq> 0" "channels d = []" "i < 3"
  shows "count_load_time (channels (PitInit now d) ! i) = now"
proof -
  have "count_load_time (fst (PitLoadCount now sk 0 (zero_channel\<lparr>ch_mode := 3, gate := g, ch_irq := None, out_level := False\<rparr>))) = now" for g sk
    using assms(1) by (simp add: PitLoadCount_def PitDriveOut_def PitGetOut_def PitElapsed_def zero_channel_def)
  moreover have "i = 0 \<or> i = 1 \<or> i = 2" "[0..<3] = [0, 1, 2 :: nat]" using assms(3) by (auto simp: upt_rec)
  ultimately show ?thesis using assms(2) by (auto simp: PitInit_def PitReset_def Let_def upd_ch_def numeral_3_eq_3)
qed

theorem pit_safe_witness: "pit_ok (fst (PitPoll 2000 pit1)) \<and> PitRead 2000 0x43 pit1 = None \<and> PitRead 2000 0x42 pit1 \<noteq> None"
  using pit_safe [OF pit1_ok, of 2000 "0x43" 0] pit_safe [OF pit1_ok, of 2000 "0x42" 0] by simp

end
