(* ===== verification/Precise.thy ===== *)
theory Precise
  imports Step
begin

text \<open>
  Traps are precise.  \<open>regs\<close> is the part of the state an instruction may only
  change when it completes; every instruction of \<open>Exec\<close> and \<open>ExecC\<close> is shown
  \<open>atomic\<close> for it: where it raises, the view is that of before the instruction.
\<close>

unbundle bit_operations_syntax

section \<open>Traps are precise\<close>

definition regs :: "'d hart \<Rightarrow> (nat \<Rightarrow> u64) \<times> (nat \<Rightarrow> u64) \<times> u64" where
  "regs h = (gpr (cpu h), fpr (cpu h), pc (cpu h))"

lemma same_get [same_intros]: "same v (get_x i)" "same v (get_f i)" "same v get_rs" "same v get_pc"
  unfolding hprog_defs by (rule same_intros)+

lemma same_set_rs [same_intros]: "same regs (set_rs f)"
  unfolding hprog_defs by (rule same_intros) (simp add: regs_def)

lemma same_bus [same_intros]: "same regs (bus_read E addr sz)" "same regs (bus_write E addr sz v)"
  "same regs (bus_probe addr sz)" "same regs (ram_page page)" "same regs (host_load E p off sz)"
  "same regs (host_store E p off sz v)"
  by (simp_all add: same_def regs_def bus_read_def bus_write_def on_bus_def bus_probe_def ram_page_def reads_def
      host_load_def host_store_def apply_events_view case_prod_unfold split: outcome.splits option.splits)

lemma same_walk [same_intros]: "same regs (pte_walk E acc vaddr level ppn)"
proof (induction level arbitrary: ppn)
  case 0
  show ?case unfolding pte_walk.simps PteRead_def by (intro same_intros)
next
  case (Suc level)
  show ?case unfolding pte_walk.simps PteRead_def by (intro same_intros Suc)
qed

lemma same_mem [same_intros]:
  "same regs (RiscvTriggerCheck op addr)" "same regs (RiscvTranslate E vaddr sz acc)"
  unfolding RiscvTriggerCheck_def Fire_def RiscvTranslate_def translate_miss_def pte_writeback_def
  by (intro same_intros)+

lemma same_load_store [same_intros]:
  "same regs (riscv_mem_load E vaddr sz acc)" "same regs (riscv_mem_store E vaddr sz v)"
  unfolding riscv_mem_load_def riscv_mem_store_def slow_load_def slow_store_def by (intro same_intros)+

lemma same_csr [same_intros]: "same regs (csr_get E csr tval)" "same regs (csr_set csr v tval)"
  by (simp_all add: same_def regs_def csr_get_def csr_set_def illegal_def raise_trap_def split: csr_res.splits)

lemma same_exec [same_intros]: "same v (illegal tval)" "same v (fp_disabled tval)" "same regs (load E addr sz w)"
  "same regs (fp_enter tval)" "same regs (fp_run op)" "same regs (fp_run_opt op')"
  unfolding illegal_def fp_disabled_def load_def fp_enter_def fp_run_def fp_run_opt_def by (intro same_intros)+

lemma same_fetch: "same regs (fetch E)"
  unfolding fetch_def Let_def by (intro same_intros)

lemma quiet_set: "never_raises (set_x i v)" "never_raises (set_f i v)" "never_raises (set_rs f)" "never_raises (set_cpu f')"
  unfolding hprog_defs by (rule never_raises_updates)+

lemma quiet_get: "never_raises (get_x i)" "never_raises (get_f i)" "never_raises get_rs" "never_raises get_pc"
  unfolding hprog_defs by (rule never_raises_reads)+

lemma atomic_set_x_then: "(\<And>a. never_raises (f a)) \<Longrightarrow> atomic v (andthen (set_x i r) f)"
  and atomic_set_f_then: "(\<And>a. never_raises (f' a)) \<Longrightarrow> atomic v (andthen (set_f i r) f')"
  by (rule never_raises_atomic, rule never_raises_andthen, rule quiet_set, simp)+

lemma atomic_option: "atomic v m \<Longrightarrow> (\<And>a. atomic v (f a)) \<Longrightarrow> atomic v (case x of None \<Rightarrow> m | Some a \<Rightarrow> f a)"
  by (simp split: option.splits)

lemma atomic_set: "atomic v (set_x i r)" "atomic v (set_f i r)"
  by (rule never_raises_atomic, rule quiet_set)+

lemmas atomic_rules = atomic_set atomic_set_x_then atomic_set_f_then never_raises_ret quiet_set quiet_get never_raises_andthen
  atomic_andthen_same atomic_if atomic_option

lemmas atomic_leaf = same_atomic [OF same_exec(1)] same_atomic [OF same_load_store(2)] same_atomic [OF same_ret]
 same_atomic [OF same_raise] same_atomic [OF same_undef]

lemma atomic_csr_op: "atomic regs (csr_op E i)"
  unfolding csr_op_def Let_def by (rule atomic_rules atomic_leaf | intro same_intros)+

lemma same_wait [same_intros]: "same regs (set_cpu (\<lambda>c. c\<lparr>wait := b\<rparr>))"
  unfolding hprog_defs by (rule same_intros) (simp add: regs_def)

lemma same_system_op: "same regs (system_op i)"
  unfolding system_op_def Let_def by (intro same_intros)

lemma same_store_zeros: "same regs (store_zeros E addr offs)"
proof (induction offs)
  case Nil
  show ?case unfolding store_zeros.simps by (rule same_intros)
next
  case (Cons off offs)
  show ?case unfolding store_zeros.simps by (intro same_intros Cons)
qed

lemma same_cbo: "same regs (cbo_op i)" "same regs (cbo_zero E i)"
  unfolding cbo_op_def cbo_zero_def by (intro same_intros same_store_zeros)+

lemma atomic_amo_op: "atomic regs (amo_op E i d)"
proof -
  have sc: "atomic regs (andthen (if c then andthen (riscv_mem_store E a w v) (\<lambda>_. set_x r 0) else set_x r 1)
      (\<lambda>_. set_rs f))" for c a w v r f
    by (rule atomic_andthen_quiet, rule atomic_if, rule atomic_andthen_quiet, rule same_atomic [OF same_load_store(2)])
      (rule quiet_set atomic_set)+
  show ?thesis unfolding amo_op_def Let_def by (rule sc atomic_rules atomic_leaf | intro same_intros)+
qed

lemma atomic_fp: "atomic regs (fp_op E i)" "atomic regs (fma_op E i opc)" "atomic regs (fp_ldst E i st dbl)"
  unfolding fp_op_def fma_op_def fp_ldst_def Let_def
  by (rule atomic_rules atomic_leaf | intro same_intros)+

lemma atomic_parts: "atomic regs (exec_load E i)" "atomic regs (exec_store E i)" "atomic regs (exec_alu i)"
    "atomic regs (exec_misc_mem E i)" "atomic regs (exec_amo E i)" "atomic regs (exec_fp_ldst E i st)"
  unfolding exec_load_def exec_store_def exec_alu_def put_x_def exec_misc_mem_def exec_amo_def
    exec_fp_ldst_def Let_def
  by (rule atomic_rules atomic_leaf atomic_fp atomic_amo_op same_atomic [OF same_cbo(1)] same_atomic [OF same_cbo(2)] | intro same_intros)+

lemma atomic_fall: "atomic v m \<Longrightarrow> atomic v (fall p m)"
  unfolding fall_def by (rule atomic_andthen_quiet) (simp_all add: never_raises_ret)

lemma atomic_flow: "atomic regs (exec_upper i p)" "atomic regs (exec_jump i p)" "atomic regs (exec_branch i p)"
  unfolding exec_upper_def exec_jump_def exec_branch_def Let_def
  by (rule atomic_rules atomic_leaf atomic_fall | intro same_intros)+

lemma atomic_exec_inst: "atomic regs (riscv_exec_inst E i)"
  unfolding riscv_exec_inst_def Let_def
  by (rule atomic_andthen_same, rule same_get)
    (rule atomic_if atomic_flow atomic_fall atomic_parts atomic_csr_op same_atomic [OF same_system_op] atomic_fp atomic_leaf)+

lemma quiet_mod_x: "never_raises (mod_x r g)"
  unfolding mod_x_def by (rule never_raises_andthen quiet_get quiet_set)+

lemma atomic_load_set: "atomic regs (andthen (load E a n w) (set_x r))"
  "atomic regs (andthen (riscv_mem_load E a n acc_read) (set_f r))"
  by (rule atomic_rules | intro same_intros)+

lemma atomic_done: "atomic v m \<Longrightarrow> atomic v (andthen m (\<lambda>_. ret (p :: u64)))"
  by (rule atomic_andthen_quiet) (simp_all add: never_raises_ret)

lemmas atomic_c = atomic_load_set atomic_done atomic_if never_raises_atomic [OF quiet_mod_x] atomic_set atomic_leaf

lemma atomic_exec_c0: "atomic regs (exec_c0 E i)"
  unfolding exec_c0_def Let_def
  by (rule atomic_andthen_same, rule same_get, rule atomic_andthen_same, rule same_get)
    (rule atomic_if atomic_load_set atomic_rules atomic_leaf | intro same_intros)+

lemma atomic_exec_c1_alu: "atomic regs (exec_c1_alu i)"
  unfolding exec_c1_alu_def Let_def
  by (rule never_raises_atomic [OF quiet_mod_x] atomic_if atomic_leaf | (rule atomic_andthen_same, rule same_get))+

lemma atomic_exec_c1: "atomic regs (exec_c1 i p)"
  unfolding exec_c1_def Let_def
  by (rule atomic_if atomic_done atomic_exec_c1_alu never_raises_atomic [OF quiet_mod_x] atomic_set atomic_leaf |
      (rule atomic_andthen_same, rule same_get))+

lemma atomic_exec_c2_jr: "atomic regs (exec_c2_jr i p)"
  unfolding exec_c2_jr_def Let_def
  by (rule atomic_if atomic_done atomic_set_x_then never_raises_ret never_raises_atomic [OF quiet_mod_x] atomic_set atomic_leaf |
      (rule atomic_andthen_same, rule same_get))+

lemma atomic_exec_c2: "atomic regs (exec_c2 E i p)"
  unfolding exec_c2_def Let_def
  by (rule atomic_andthen_same, rule same_get)
    (rule atomic_if atomic_done atomic_exec_c2_jr atomic_load_set never_raises_atomic [OF quiet_mod_x] atomic_set atomic_leaf |
      (rule atomic_andthen_same, rule same_get))+

lemma atomic_exec_c: "atomic regs (riscv_exec_c E i)"
  unfolding riscv_exec_c_def Let_def
  by (rule atomic_andthen_same, rule same_get) (rule atomic_if atomic_done atomic_exec_c0 atomic_exec_c1 atomic_exec_c2)+

lemma atomic_execute: "atomic regs (execute E w)"
  by (cases w) (simp_all add: execute_def atomic_exec_c atomic_exec_inst)

definition regs0 :: "'d hart \<Rightarrow> (nat \<Rightarrow> u64) \<times> (nat \<Rightarrow> u64) \<times> u64" where
  "regs0 h = ((gpr (cpu h))(0 := 0), fpr (cpu h), pc (cpu h))"

lemma regs0_regs: "regs h = regs h' \<Longrightarrow> regs0 h = regs0 h'"
  by (simp add: regs_def regs0_def)

lemma atomic_weaken: "atomic regs m \<Longrightarrow> atomic regs0 m"
  unfolding atomic_def by (intro allI impI regs0_regs) blast

lemma same_weaken: "same regs m \<Longrightarrow> same regs0 m"
  by (rule sameI; rule regs0_regs; erule (1) sameD sameD_raise)

lemma same_set_x0: "same regs0 (set_x 0 0)"
  unfolding hprog_defs by (rule same_intros) (simp add: regs0_def)

lemma atomic_step_body: "atomic regs0 (step_body E)"
  unfolding step_body_def
  by (rule atomic_andthen_same [OF same_weaken [OF same_fetch]], rule atomic_andthen_same [OF same_get(4)],
      rule atomic_andthen_same [OF same_weaken [OF same_mem(1)]], rule atomic_andthen_same [OF same_set_x0],
      rule atomic_andthen_quiet [OF atomic_weaken [OF atomic_execute]], rule quiet_set)

text \<open>
  C12. Traps are precise: when an instruction raises, whatever it did before raising, the general and
  floating-point registers are those of before the instruction and the trap records its address.
\<close>

theorem precise_trap:
  assumes "step_enter E h = (h1, True)" "step_body E h1 = Raise t h2" "riscv_step E h = Ok () h'"
  shows "(\<forall>i. 0 < i \<longrightarrow> gpr (cpu h') i = gpr (cpu h1) i) \<and> fpr (cpu h') = fpr (cpu h1) \<and>
    (if trap_to_s (rs h2) (t_cause t) then sepc (rs h') = pc (cpu h1) \<and> scause (rs h') = t_cause t
     else mepc (rs h') = pc (cpu h1) \<and> mcause (rs h') = t_cause t)"
proof -
  have "h' = upd_rs count (take_trap t h2)" using assms by (simp add: riscv_step_def)
  moreover have "regs0 h2 = regs0 h1" by (rule atomicD [OF atomic_step_body assms(2)])
  then have "(gpr (cpu h2))(0 := 0) = (gpr (cpu h1))(0 := 0)" "fpr (cpu h2) = fpr (cpu h1)" "pc (cpu h2) = pc (cpu h1)"
    by (simp_all add: regs0_def)
  moreover from this(1) have "0 < i \<Longrightarrow> gpr (cpu h2) i = gpr (cpu h1) i" for i by (metis fun_upd_other less_not_refl)
  ultimately show ?thesis by (simp add: take_trap_def riscv_trap_def count_def Let_def case_prod_unfold)
qed

theorem precise_trap_witness:
  "\<forall>E :: (unit, unit) env. \<exists>t h'. riscv_step E hart0 = Ok () h' \<and> step_body E hart0 = Raise t hart0 \<and>
     (\<forall>i. 0 < i \<longrightarrow> gpr (cpu h') i = gpr (cpu hart0) i) \<and> mepc (rs h') = 0x1000 \<and> mcause (rs h') = kExFetchFault"
proof
  fix E :: "(unit, unit) env"
  let ?t = "\<lparr>t_cause = kExFetchFault, t_tval = 0x1000, t_paddr = Some 0x1000\<rparr>"
  have s: "riscv_step E hart0 = Ok () (upd_rs count (take_trap ?t hart0))"
    by (simp add: riscv_step_def step_enter_hart0 step_body_hart0)
  have "\<not> trap_to_s (rs hart0) kExFetchFault" by (simp add: trap_to_s_def)
  then show "\<exists>t h'. riscv_step E hart0 = Ok () h' \<and> step_body E hart0 = Raise t hart0 \<and>
     (\<forall>i. 0 < i \<longrightarrow> gpr (cpu h') i = gpr (cpu hart0) i) \<and> mepc (rs h') = 0x1000 \<and> mcause (rs h') = kExFetchFault"
    using precise_trap [OF step_enter_hart0 step_body_hart0 s] s step_body_hart0 [of E]
    by (intro exI [of _ ?t] exI [of _ "upd_rs count (take_trap ?t hart0)"]) simp
qed

end
