(* ===== verification/Walk.thy ===== *)
theory Walk
  imports Step
begin

text \<open>
  What the page walk of \<open>Mmu\<close> grants, and the translation cache: a filled
  entry answers the next access, and a fence empties the cache.  The view
  \<open>ctl\<close> is the control state a walk keeps; a device may change the interrupt
  lines while the walk reads through the bus.
\<close>

unbundle bit_operations_syntax

section \<open>What a walk grants\<close>

lemma andthen_Ok: "andthen m f s = Ok b t \<longleftrightarrow> (\<exists>a s'. m s = Ok a s' \<and> f a s' = Ok b t)"
  by (cases "m s") (auto simp: andthen_def)

lemma Ok_simps:
  "ret a s = Ok b t \<longleftrightarrow> b = a \<and> t = s" "raise_trap c v s \<noteq> Ok b t" "raise_paddr c v p s \<noteq> Ok b t"
  "get_rs h = Ok r h' \<longleftrightarrow> r = rs h \<and> h' = h" "ram_page g h = Ok q h' \<longleftrightarrow> q = BusRamPage (bus h) g \<and> h' = h"
  "set_rs f h = Ok u h' \<longleftrightarrow> h' = upd_rs f h"
  by (auto simp: prog_defs hprog_defs ram_page_def)

lemma walk_result:
  assumes "pte_walk E acc vaddr level ppn h = Ok (pte, pte_addr, l) h'"
  shows "\<not> pte_invalid pte \<and> (if pte_leaf pte then 0 \<le> l \<and> l \<le> int level else l = - 1)"
  using assms
proof (induction level arbitrary: ppn h)
  case 0
  then show ?case by (auto simp: Let_def andthen_Ok Ok_simps split: if_splits)
next
  case (Suc level)
  from Suc.prems obtain p h1 where p: "\<not> pte_invalid p"
    "(if pte_leaf p then ret (p, pte_index ppn vaddr (Suc level), int (Suc level))
      else pte_walk E acc vaddr level (drop_bit 10 p)) h1 = Ok (pte, pte_addr, l) h'"
    by (auto simp: Let_def andthen_Ok Ok_simps split: if_splits)
  show ?case
  proof (cases "pte_leaf p")
    case True
    then show ?thesis using p by (simp add: Ok_simps)
  next
    case False
    then show ?thesis using p(2) Suc.IH by fastforce
  qed
qed

lemmas pte_mask_bits =
  and_exp_eq_0_iff_not_bit [where a = "x :: u64" and n = 0 for x, simplified]
  and_exp_eq_0_iff_not_bit [where a = "x :: u64" and n = 1 for x, simplified]
  and_exp_eq_0_iff_not_bit [where a = "x :: u64" and n = 2 for x, simplified]
  and_exp_eq_0_iff_not_bit [where a = "x :: u64" and n = 3 for x, simplified]
  and_exp_eq_0_iff_not_bit [where a = "x :: u64" and n = 4 for x, simplified]
  and_exp_eq_0_iff_not_bit [where a = "x :: u64" and n = 18 for x, simplified]
  and_exp_eq_0_iff_not_bit [where a = "x :: u64" and n = 19 for x, simplified]

lemma pte_leaf_bits: "pte_leaf pte \<longleftrightarrow> bit pte 1 \<or> bit pte 3"
proof -
  have "pte AND (kPteR OR kPteX) = (pte AND kPteR) OR (pte AND kPteX)" by (rule bit.conj_disj_distrib)
  then show ?thesis by (simp only: pte_leaf_def or_eq_0_iff) (simp add: pte_mask_bits)
qed

lemma pte_invalid_bits: "\<not> pte_invalid pte \<Longrightarrow> bit pte 0 \<and> (bit pte 2 \<longrightarrow> bit pte 1)"
  by (auto simp: pte_invalid_def pte_mask_bits)

lemma pte_permits_bits:
  "pte_permits s eff acc pte \<longleftrightarrow>
     (eff = kPrivUser \<longrightarrow> bit pte 4) \<and>
     (eff = kPrivSupervisor \<and> bit pte 4 \<longrightarrow> bit (mstatus s) 18 \<and> acc \<noteq> acc_ifetch) \<and>
     (acc = acc_ifetch \<longrightarrow> bit pte 3) \<and> (acc = acc_read \<longrightarrow> bit pte 1 \<or> bit (mstatus s) 19 \<and> bit pte 3) \<and>
     (acc = acc_write \<or> acc = acc_amo \<longrightarrow> bit pte 2)"
  by (cases acc) (auto simp: pte_permits_def Let_def pte_mask_bits)

lemma permits_leaf: "\<not> pte_invalid pte \<Longrightarrow> pte_permits s eff acc pte \<Longrightarrow> pte_leaf pte"
  by (cases acc) (auto simp: pte_permits_bits pte_leaf_bits dest: pte_invalid_bits)

lemma leaf_ad: "drop_bit 10 (pte_ad acc pte) = drop_bit 10 pte"
  by (simp add: pte_ad_def Let_def drop_bit_or)

lemma leaf_paddr_bits:
  assumes "leaf_paddr pte l vaddr = Some paddr" "0 \<le> l" "n < 64"
  shows "bit paddr n \<longleftrightarrow> (if n < 12 + 9 * nat l then bit vaddr n else bit pte (n - 2))"
proof -
  define k where "k = 9 * nat l"
  have m: "push_bit j 1 - 1 = (mask j :: u64)" for j by (simp add: mask_eq_exp_minus_1)
  have m12: "0xfff = (mask 12 :: u64)" by (simp add: mask_eq_exp_minus_1)
  have "bit paddr n \<longleftrightarrow> bit (push_bit 12 (drop_bit 10 pte AND NOT (mask k))) n \<or> bit (vaddr AND mask (12 + k)) n"
  proof (cases "l = 0")
    case True
    then have "paddr = push_bit 12 (drop_bit 10 pte) OR (vaddr AND mask 12)"
      using assms(1) unfolding leaf_paddr_def m12 Let_def by simp
    then show ?thesis using True by (simp add: k_def bit_or_iff)
  next
    case False
    then have "paddr = push_bit 12 (drop_bit 10 pte AND NOT (mask k)) OR (vaddr AND mask (12 + k))"
      using assms(1,2) unfolding leaf_paddr_def m Let_def k_def by (auto split: if_splits)
    then show ?thesis by (simp add: bit_or_iff)
  qed
  moreover have "drop_bit 10 pte AND mask k = 0 \<or> l = 0"
    using assms(1,2) unfolding leaf_paddr_def m Let_def k_def by (auto split: if_splits)
  ultimately show ?thesis using assms(3) unfolding k_def [symmetric]
    by (auto simp: bit_simps)
qed

section \<open>The control state during a walk\<close>

text \<open>Everything but the external interrupt lines, which a device access may drive.\<close>

definition ctl :: "'d hart \<Rightarrow> RiscvState" where
  "ctl h = (rs h)\<lparr>ext_irq := 0\<rparr>"

lemma ctl_apply_event: "ctl (apply_event e h) = ctl h"
  by (simp add: ctl_def apply_event_def riscv_set_ext_irq_def split: cpu_event.splits)

lemma ctl_apply_events [simp]: "ctl (apply_events es h) = ctl h"
  unfolding apply_events_def by (induction es arbitrary: h) (simp_all add: ctl_apply_event)

lemma ctl_other [simp]: "ctl (h\<lparr>bus := b\<rparr>) = ctl h" "ctl (h\<lparr>devs := d\<rparr>) = ctl h"
  by (simp_all add: ctl_def)

lemma ctl_bus [same_intros]: "same ctl (bus_read E addr sz)" "same ctl (bus_write E addr sz v)"
  "same ctl (bus_probe addr sz)" "same ctl (ram_page page)" "same ctl (host_load E p off sz)"
  "same ctl (host_store E p off sz v)" "same vw get_rs"
  by (simp_all add: same_def bus_read_def bus_write_def on_bus_def bus_probe_def ram_page_def reads_def
      host_load_def host_store_def get_rs_def case_prod_unfold split: outcome.splits option.splits)

lemma ctl_walk: "same ctl (pte_walk E acc vaddr level ppn)"
proof (induction level arbitrary: ppn)
  case 0
  show ?case unfolding pte_walk.simps PteRead_def by (intro same_intros)
next
  case (Suc level)
  show ?case unfolding pte_walk.simps PteRead_def by (intro same_intros Suc)
qed

lemma ctl_writeback: "same ctl (pte_writeback E acc vaddr pa pte new)"
  unfolding pte_writeback_def by (intro same_intros)

lemma translate_missE:
  assumes "translate_miss E vaddr sz acc eff h = Ok (paddr, host) h'"
  obtains pte l h1 where "\<not> pte_invalid pte" "pte_leaf pte" "0 \<le> l" "l \<le> 3" "pte_permits (rs h) eff acc pte"
    "leaf_paddr (pte_ad acc pte) l vaddr = Some paddr" "ctl h1 = ctl h"
    "RiscvPmpAllowed (rs h1) paddr (of_nat sz) acc (priv (rs h1))"
    "host = BusRamPage (bus h1) (paddr AND NOT 0xFFF)"
    "h' = upd_rs (tlb_fill (drop_bit 12 vaddr) acc eff paddr host) h1"
proof -
  define topl where "topl = (if satp_mode (rs h) = kSatpModeSv48 then 3 else 2 :: nat)"
  obtain pte pa l h0 h1 where w: "pte_walk E acc vaddr topl (satp (rs h) AND (push_bit 44 1 - 1)) h = Ok (pte, pa, l) h0"
    and b: "pte_writeback E acc vaddr pa pte (pte_ad acc pte) h0 = Ok () h1"
    and r: "pte_permits (rs h) eff acc pte" "leaf_paddr (pte_ad acc pte) l vaddr = Some paddr"
      "RiscvPmpAllowed (rs h1) paddr (of_nat sz) acc (priv (rs h1))"
      "host = BusRamPage (bus h1) (paddr AND NOT 0xFFF)"
      "h' = upd_rs (tlb_fill (drop_bit 12 vaddr) acc eff paddr host) h1"
    using assms unfolding translate_miss_def topl_def
    by (auto simp: andthen_Ok Ok_simps Let_def split: if_splits option.splits)
  have c: "ctl h1 = ctl h" using sameD [OF ctl_walk w] sameD [OF ctl_writeback b] by simp
  have "\<not> pte_invalid pte" using walk_result [OF w] by simp
  moreover from this have "pte_leaf pte" using permits_leaf r(1) by blast
  moreover from this have "0 \<le> l" "l \<le> 3" using walk_result [OF w] by (auto simp: topl_def split: if_splits)
  ultimately show thesis using that r c by blast
qed

lemma pmp_allowed_cong: "pmp_view s' = pmp_view s \<Longrightarrow> RiscvPmpAllowed s' = RiscvPmpAllowed s"
proof -
  assume "pmp_view s' = pmp_view s"
  note c = pmp_view_cong [OF this]
  have "pmp_scan s' a l acc m is act = pmp_scan s a l acc m is act" for a l acc m "is" act
    by (induction "is" arbitrary: act) (simp_all only: pmp_scan.simps c)
  then show ?thesis by (intro ext) (simp only: RiscvPmpAllowed_def)
qed

lemma bit_ad: "12 \<le> n \<Longrightarrow> bit (pte_ad acc pte) (n - 2) = bit pte (n - 2)"
proof -
  assume "12 \<le> n"
  then obtain k where "n = 12 + k" using le_Suc_ex by blast
  then have "n - 2 = 10 + k" by simp
  then show ?thesis using arg_cong [OF leaf_ad [of acc pte], of "\<lambda>w. bit w k"] by (simp add: bit_drop_bit_eq)
qed


section \<open>The translation cache\<close>

lemma tlb_lookup_fill:
  assumes "tlb_lookup s vpn acc eff = None"
  shows "map_option (\<lambda>e. (te_pbase e, te_host e)) (tlb_lookup (tlb_fill vpn acc eff paddr host s) vpn acc eff) =
    Some (paddr AND NOT 0xFFF, host)"
proof -
  define i where "i = tlb_set vpn acc * kTlbWays"
  define s2 where "s2 = tlb_fill vpn acc eff paddr host s"
  define w where "w = (if te_gen (tlb s i) \<noteq> tlb_gen s then 0
     else if te_gen (tlb s (i + 1)) \<noteq> tlb_gen s then 1 else unat (tlb_clock s AND 1))"
  have w: "w = 0 \<or> w = 1" by (simp add: w_def and_one_eq mod2_eq_if)
  have m: "tlb_matches s2 vpn acc eff e = tlb_matches s vpn acc eff e" for e
    by (simp add: s2_def tlb_fill_def tlb_matches_def Let_def)
  define e where "e = \<lparr>te_vpn = vpn, te_pbase = paddr AND NOT 0xFFF, te_host = host, te_gen = tlb_gen s,
    te_satp = satp s, te_mstatus = mstatus s AND (kMstatusSum OR kMstatusMxr),
    te_menvcfg = menvcfg s AND kMenvcfgAdue, te_pmp_gen = pmp_gen s, te_priv = priv s, te_eff = eff, te_acc = acc_num acc\<rparr>"
  have t: "tlb s2 = (tlb s)(i + w := e)" by (simp add: s2_def tlb_fill_def Let_def i_def w_def e_def)
  have e: "tlb_matches s vpn acc eff e" "te_pbase e = paddr AND NOT 0xFFF" "te_host e = host"
    by (simp_all add: e_def tlb_matches_def)
  have n: "\<not> tlb_matches s vpn acc eff (tlb s i)"
    using assms by (simp add: tlb_lookup_def i_def Let_def split: if_splits)
  show ?thesis using w e n unfolding s2_def [symmetric] tlb_lookup_def Let_def i_def [symmetric] m t
    by (elim disjE) simp_all
qed

lemma ctl_views: "eff_priv (s\<lparr>ext_irq := x\<rparr>) acc = eff_priv s acc" "satp_mode (s\<lparr>ext_irq := x\<rparr>) = satp_mode s"
  "tlb_lookup (s\<lparr>ext_irq := x\<rparr>) vpn acc eff = tlb_lookup s vpn acc eff"
  by (simp_all add: eff_priv_def satp_mode_def tlb_lookup_def tlb_matches_def Let_def)

lemma eff_priv_ctl:
  assumes "ctl h1 = ctl h"
  shows "eff_priv (rs h1) acc = eff_priv (rs h) acc" "satp_mode (rs h1) = satp_mode (rs h)"
    "tlb_lookup (rs h1) vpn acc eff = tlb_lookup (rs h) vpn acc eff"
  using assms ctl_views [where x = 0] unfolding ctl_def by metis+

lemma fill_views: "eff_priv (tlb_fill vpn a eff paddr host s) acc = eff_priv s acc"
  "satp_mode (tlb_fill vpn a eff paddr host s) = satp_mode s"
  by (simp_all add: eff_priv_def satp_mode_def tlb_fill_def Let_def)

text \<open>
  After a walk, a further access of the same kind to the same page is answered from the translation
  cache with the same physical page and host pointer, without reading memory or changing the state.
\<close>

theorem translate_fills_cache:
  assumes "RiscvTranslate E vaddr sz acc h = Ok (paddr, host) h'"
    and "eff_priv (rs h) acc \<noteq> kPrivMachine" "satp_mode (rs h) \<noteq> kSatpModeBare"
    and "tlb_lookup (rs h) (drop_bit 12 vaddr) acc (eff_priv (rs h) acc) = None"
    and "drop_bit 12 v = drop_bit 12 vaddr"
  shows "RiscvTranslate E v n acc h' = Ok ((paddr AND NOT 0xFFF) OR (v AND 0xfff), host) h'"
proof -
  define eff where "eff = eff_priv (rs h) acc"
  have "translate_miss E vaddr sz acc eff h = Ok (paddr, host) h'"
    using assms(1-4) by (simp add: RiscvTranslate_def andthen_Ok Ok_simps Let_def eff_def)
  then obtain h1 where c: "ctl h1 = ctl h" and h': "h' = upd_rs (tlb_fill (drop_bit 12 vaddr) acc eff paddr host) h1"
    by (rule translate_missE)
  note e = eff_priv_ctl [OF c]
  have "eff_priv (rs h') acc = eff" "satp_mode (rs h') \<noteq> kSatpModeBare"
    using e assms(3) by (simp_all add: h' eff_def fill_views)
  moreover obtain te where "tlb_lookup (rs h') (drop_bit 12 v) acc eff = Some te" "te_pbase te = paddr AND NOT 0xFFF"
      "te_host te = host"
    using tlb_lookup_fill [of "rs h1" "drop_bit 12 vaddr" acc eff paddr host] e assms(4,5) by (auto simp: h' eff_def)
  ultimately show ?thesis using assms(2)
    by (simp add: RiscvTranslate_def andthen_Ok Ok_simps eff_def)
qed

lemma less_add_one_word: "(a :: u64) \<noteq> - 1 \<Longrightarrow> a < a + 1"
proof -
  assume "a \<noteq> - 1"
  then have "unat a < unat (- 1 :: u64)" by (simp add: word_less_nat_alt [symmetric] word_order.not_eq_extremum)
  then have "unat a < 2 ^ 64 - 1" by (simp add: unsigned_minus_1_eq_mask mask_eq_exp_minus_1)
  then show ?thesis by (simp add: word_less_nat_alt unat_word_ariths)
qed

definition tlb_old :: "RiscvState \<Rightarrow> bool" where
  "tlb_old s \<longleftrightarrow> (\<forall>i. te_gen (tlb s i) \<le> tlb_gen s)"

lemma tlb_old_init: "tlb_old riscv_init"
  by (simp add: tlb_old_def riscv_init_def tlb_zero_def)

lemma tlb_old_fill: "tlb_old s \<Longrightarrow> tlb_old (tlb_fill vpn acc eff paddr host s)"
  by (simp add: tlb_old_def tlb_fill_def Let_def)

text \<open>
  After SFENCE.VMA the translation cache answers no lookup, whatever it held before.
\<close>

theorem sfence_flushes:
  assumes "tlb_old (rs h)" "tlb_gen (rs h) \<noteq> - 1" "drop_bit 20 i AND 0xfff = 0x120" "system_op i h = Ok p h'"
  shows "tlb_lookup (rs h') vpn acc eff = None"
proof -
  have "rs h' = (rs h)\<lparr>tlb_gen := tlb_gen (rs h) + 1\<rparr>"
    using assms(3,4) by (auto simp: system_op_def andthen_Ok Ok_simps get_pc_def reads_def Let_def illegal_def split: if_splits)
  moreover have "tlb_gen (rs h) < tlb_gen (rs h) + 1" using assms(2) by (rule less_add_one_word)
  then have "te_gen (tlb (rs h) k) \<noteq> tlb_gen (rs h) + 1" for k using assms(1) unfolding tlb_old_def by (metis leD)
  ultimately show ?thesis by (simp add: tlb_lookup_def tlb_matches_def Let_def)
qed

section \<open>A processor with paging on\<close>

definition vm_env :: "('d, 'l) env \<Rightarrow> ('d, 'l) env" where
  "vm_env E = E\<lparr>e_read := \<lambda>_ _ _ _ d. Some (0xCF, d, [])\<rparr>"

definition vm_hart :: "unit hart" where
  "vm_hart = \<lparr>cpu = \<lparr>gpr = (\<lambda>_. 0), fpr = (\<lambda>_. 0), pc = 0x1000, image_base = 0, halted = False, wait = False,
      exit_code = 0, inst_count = 0\<rparr>, rs = riscv_init\<lparr>priv := 1, satp := 0x8000000000080000\<rparr>, bus = ram_bus, devs = ()\<rparr>"

lemma find_ram_bus: "FindRegion ram_bus 0x80000000 8 = (Some 0, ram_bus\<lparr>bus_last := Some 0\<rparr>)"
  "FindRegion (ram_bus\<lparr>bus_last := Some 0\<rparr>) 0x80000000 8 = (Some 0, ram_bus\<lparr>bus_last := Some 0\<rparr>)"
  by (simp_all add: FindRegion_def ram_bus_def cache_hit_def in_window_def smallest_match_def better_def Let_def)

definition vm_hart1 :: "unit hart" where
  "vm_hart1 = vm_hart\<lparr>bus := ram_bus\<lparr>bus_last := Some 0\<rparr>\<rparr>"

lemma vm_hart_simps [simp]: "rs vm_hart = riscv_init\<lparr>priv := 1, satp := 0x8000000000080000\<rparr>" "bus vm_hart = ram_bus"
  "rs vm_hart1 = riscv_init\<lparr>priv := 1, satp := 0x8000000000080000\<rparr>" "bus vm_hart1 = ram_bus\<lparr>bus_last := Some 0\<rparr>"
  by (simp_all add: vm_hart1_def vm_hart_def)

lemma vm_read: "PteRead (vm_env E) 0x80000000 acc vm_hart = Ok 0xCF vm_hart1"
proof -
  have b: "bus_probe 0x80000000 8 vm_hart = Ok (Some 0) vm_hart1"
    by (simp add: bus_probe_def BusProbe_def find_ram_bus vm_hart1_def)
  have "bus_read (vm_env E) 0x80000000 8 vm_hart1 = Ok 0xCF vm_hart1"
    by (simp add: bus_read_def on_bus_def BusRead_def find_ram_bus vm_env_def apply_events_def)
  then show ?thesis using b by (simp add: PteRead_def andthen_def get_rs_def reads_def pmp_off)
qed

lemma vm_walk: "pte_walk (vm_env E) acc 0x1234 2 0x80000 vm_hart = Ok (0xCF, 0x80000000, 2) vm_hart1"
proof -
  have n: "(2 :: nat) = Suc 1" by simp
  have "pte_index 0x80000 0x1234 (Suc 1) = 0x80000000" by (simp add: pte_index_def)
  then show ?thesis unfolding n pte_walk.simps Let_def
    by (simp add: vm_read andthen_def pte_invalid_def pte_leaf_def ret_def)
qed

lemma vm_translate: "translate_miss (vm_env E) 0x1234 4 acc_read 1 vm_hart =
   Ok (0x1234, None) (upd_rs (tlb_fill 1 acc_read 1 0x1234 None) vm_hart1)"
  by (simp add: translate_miss_def andthen_def get_rs_def set_rs_def updates_def reads_def satp_mode_def canonical_def vm_walk pte_permits_def is_store_def
     pte_writeback_def pte_ad_def leaf_paddr_def pmp_off ram_page_def BusRamPage_def ret_def)
     (simp add: ram_bus_def ram_page_at_def)


theorem translate_fills_cache_witness:
  "\<forall>E :: (unit, unit) env. \<exists>h'. RiscvTranslate (vm_env E) 0x1234 4 acc_read vm_hart = Ok (0x1234, None) h' \<and>
     RiscvTranslate (vm_env E) 0x1008 8 acc_read h' = Ok (0x1008, None) h'"
proof
  fix E :: "(unit, unit) env"
  define h' where "h' = upd_rs (tlb_fill 1 acc_read 1 0x1234 None) vm_hart1"
  have e: "eff_priv (rs vm_hart) acc_read = 1" "satp_mode (rs vm_hart) = 8"
    "tlb_lookup (rs vm_hart) 1 acc_read 1 = None"
    by (simp_all add: eff_priv_def satp_mode_def tlb_lookup_def tlb_matches_def Let_def, simp_all add: riscv_init_def tlb_zero_def)
  have t: "RiscvTranslate (vm_env E) 0x1234 4 acc_read vm_hart = Ok (0x1234, None) h'"
    using vm_translate [of E] e by (simp add: RiscvTranslate_def andthen_def get_rs_def reads_def h'_def)
  have "RiscvTranslate (vm_env E) 0x1008 8 acc_read h' = Ok ((0x1234 AND NOT 0xFFF) OR (0x1008 AND 0xfff), None) h'"
    by (rule translate_fills_cache [OF t]) (simp_all add: e del: vm_hart_simps)
  then show "\<exists>h'. RiscvTranslate (vm_env E) 0x1234 4 acc_read vm_hart = Ok (0x1234, None) h' \<and>
     RiscvTranslate (vm_env E) 0x1008 8 acc_read h' = Ok (0x1008, None) h'" using t by auto
qed

theorem sfence_flushes_witness:
  "\<exists>h'. tlb_lookup (rs (upd_rs (tlb_fill 1 acc_read 1 0x1234 None) vm_hart1)) 1 acc_read 1 \<noteq> None \<and>
     system_op 0x12000073 (upd_rs (tlb_fill 1 acc_read 1 0x1234 None) vm_hart1) = Ok 0x1004 h' \<and>
     tlb_lookup (rs h') 1 acc_read 1 = None"
proof -
  define h where "h = upd_rs (tlb_fill 1 acc_read 1 0x1234 None) vm_hart1"
  define h' where "h' = upd_rs (\<lambda>s. s\<lparr>tlb_gen := tlb_gen s + 1\<rparr>) h"
  have "tlb_lookup (rs vm_hart1) 1 acc_read 1 = None"
    by (simp add: tlb_lookup_def tlb_matches_def Let_def, simp add: riscv_init_def tlb_zero_def)
  from tlb_lookup_fill [OF this, of "0x1234" None] have f: "tlb_lookup (rs h) 1 acc_read 1 \<noteq> None" by (auto simp: h_def)
  have p: "priv (rs h) = 1" "mstatus (rs h) AND kMstatusTvm = 0" "pc (cpu h) = 0x1000" "tlb_gen (rs h) \<noteq> - 1"
    by (simp_all add: h_def tlb_fill_def Let_def, simp_all add: riscv_init_def vm_hart1_def vm_hart_def)
  have s: "system_op 0x12000073 h = Ok 0x1004 h'"
    using p by (simp add: system_op_def andthen_def get_rs_def get_pc_def set_rs_def reads_def updates_def ret_def rd_def Let_def h'_def)
  have "tlb_old (rs vm_hart1)" by (simp add: tlb_old_def, simp add: riscv_init_def tlb_zero_def)
  then have "tlb_old (rs h)" by (simp add: h_def tlb_old_fill)
  from sfence_flushes [OF this p(4) _ s] have "tlb_lookup (rs h') 1 acc_read 1 = None" by simp
  then show ?thesis using f s unfolding h_def [symmetric] by blast
qed

end
