(* ===== verification/Spec2Isabelle.thy ===== *)
theory Spec2Isabelle
  imports Boot Spike PcIrq Pit Precise Walk
begin

text \<open>
  A verification development for cemu, a full-system emulator in C.

  The program interprets a processor on top of a bus.  A board adds device
  windows to the bus, loads an image and calls the step function of the
  processor model in a loop.  The processor reaches memory and devices only
  through the bus, and devices reach the processor only through its interrupt
  lines and its halt flag.

  \<^bold>\<open>Theories and sources\<close> (paths under src/src/).

  \<^item> \<open>Cemu_Prelude\<close>: machine words, the outcome type of a step (return, raise,
    \<open>Fatal\<close>, undefined behaviour) with its sequencing and the rules for
    assertions along a program, little-endian memory access.  The outcome type
    models the raise channel of cpu/step.c: \<open>longjmp\<close> to the landing pad is
    the value \<open>Raise\<close>, which carries the state at the raise.
  \<^item> \<open>Bus\<close>: bus/bus.c, the table of windows and the smallest-match lookup with
    its one-entry cache.  \<open>Ram\<close>: mem/ram.c.
  \<^item> \<open>Fp\<close>: cpu/isa/riscv64/fp.c over the arithmetic of the host, a parameter.
  \<^item> \<open>Hart\<close>: the state of cpu.h and riscv.h as records, and the environment of
    the processor, which is everything it calls and does not own.
  \<^item> \<open>Pmp\<close>, \<open>Trigger\<close>, \<open>Csr\<close>, \<open>Mmu\<close>, \<open>Exec\<close>, \<open>ExecC\<close>, \<open>Step\<close>: the parts of
    cpu/isa/riscv64 of the same names; \<open>ExecC\<close> has the compressed
    instructions of exec.c, \<open>Mmu\<close> its memory pipeline.  \<open>Precise\<close> and \<open>Walk\<close>
    hold the theorems about traps and about translation.
  \<^item> \<open>Device\<close>: interrupt lines, the bounded ring that serial port and console
    use, registration of a window.  \<open>Clint\<close>, \<open>Plic\<close>, \<open>Uart\<close>, \<open>Finisher\<close>:
    device/timer/clint.c, device/intc/plic.c, device/char/uart16550.c, and
    device/misc/htif.c with sifive_test.c.
  \<^item> \<open>Virtio\<close>: the transport device/virtio/virtio.c.  \<open>VirtioDev\<close>: its block,
    console and input backends and the file access of host/file_win.c.
  \<^item> \<open>Clock\<close>: host/time_win.c.  \<open>Ramfb32\<close>: device/video/ramfb32.c.
  \<^item> \<open>Fdt\<close>: the device tree patches of board/virt.c.  \<open>Virt\<close>: the rest of
    board/virt.c, with the bus dispatch to the devices as the environment of
    the processor.  \<open>VirtIrq\<close>: interrupts from a device to the trap handler.
  \<^item> \<open>Run\<close>: the loop \<open>BoardRunSteps\<close> of board/run.c.  \<open>Boot\<close>: from the
    construction of the virt board to the first instruction of the firmware.
  \<^item> \<open>Elf\<close>: board/elf.c and loader.c.  \<open>Spike\<close>: board/spike_min.c and the
    part of main.c that starts a program on it.
  \<^item> \<open>Pic\<close>, \<open>Ioapic\<close>, \<open>Lapic\<close>, \<open>Pit\<close>: device/intc/i8259.c, ioapic.c and
    lapic.c and device/timer/i8254.c, the interrupt controllers and the timer
    of the PC.  \<open>PcIrq\<close>: their wiring in board/x86_min.c.

  \<^bold>\<open>State\<close>.  A \<open>hart\<close> is the register file \<open>CpuState\<close>, the control registers
  \<open>RiscvState\<close>, the bus and the devices behind it, whose type is a parameter.
  A C function that changes the state is a function from the state to an
  outcome; one that does not is a plain function.  Words have the width they
  have in C.  An index that leaves its array is the outcome \<open>Undef\<close> (or
  \<open>CsrOob\<close> in the register file), so the theorems do not hide such accesses.

  A device operation returns the new device and the calls it makes on its
  interrupt sink, in order; what it sends to the host is a further result.
  The host clock is an argument.  The board turns sink calls into the events
  that the processor applies to its pending bits, the path of \<open>set_irq\<close>.
  The devices of the virt board are the record \<open>VirtBoard\<close>; its memory blocks
  are numbered, and a host pointer is a block with an offset.

  \<^bold>\<open>Interfaces\<close>.  The locale \<open>devices\<close> of \<open>Mmu\<close> is what the processor needs of
  the devices to keep an invariant of theirs: reads, writes and stores
  through a host pointer keep it.  It is interpreted for every environment
  with the trivial invariant, and for the virt board with \<open>virt_ok\<close>.  The
  byte queue of \<open>Device\<close> is interpreted for the receivers of serial port and
  console.  The contract \<open>eoi_contract\<close> of \<open>Lapic\<close> is what the local APIC
  needs of the function behind its end-of-interrupt sink; it is interpreted
  for the path to the I/O APIC.

  \<^bold>\<open>What is shown\<close>.  The lookup cache of the bus does not change its answers
  and the direct pointer to a RAM page agrees with the bus.  Every CSR write,
  trap, return and instruction keeps the registers legal.  Writes below
  machine mode leave machine state alone and locked protection entries never
  change.  A return undoes a trap, and interrupts are taken in order.  A page
  walk grants only what the leaf permits.  Every device keeps its registers
  in range; its line says what its registers say.  The virt board is legal
  when built and stays so; a due timer and a received byte reach the trap
  handler; the run loop takes only steps of the board and ends at an
  instruction limit.  A loaded program is in memory as the file describes it,
  the virt board reaches the first instruction of its firmware, and a program
  on the spike board ends with the exit code it sends.  The interrupt
  controllers of the PC deliver the request of the best rank, their pin says
  what they say, a level request survives its end of interrupt, and the timer
  delivers every tick.  A few theorems record where the code does otherwise:
  they state the behaviour that a comment or the device's own header denies.

  \<^bold>\<open>Loops\<close>.  Loops with a bound in the code are recursive functions with a
  termination proof.  Descriptor chains, queue draining, the walk over a
  device tree and the run loop have none, so they are
  \<open>partial_function (option)\<close>, with \<open>None\<close> for a run that does not return;
  the theorems say under which conditions a result exists.

  \<^bold>\<open>Not modelled\<close>: the x86 and the 32-bit RISC-V processors, the PC board
  beyond its interrupt paths with its other devices, the Oberon board, the
  debugger and the rest of the host layer; they are separate programs of the
  same shape that the modelled boards do not use.  The debug record that the interpreter fills for a
  trace, log output and teardown do not influence the machine and are left
  out.
\<close>

section \<open>Runs of the processor\<close>

inductive hart_step :: "('d, 'l) env \<Rightarrow> 'd hart \<Rightarrow> 'd hart \<Rightarrow> bool" for E where
  "riscv_step E h = Ok () h' \<Longrightarrow> hart_step E h h'"

inductive_cases hart_stepE: "hart_step E h h'"

lemma hart_ok_step: "hart_step E h h' \<Longrightarrow> hart_ok h \<Longrightarrow> hart_ok h'"
  by (erule hart_stepE) (rule keepsD [OF any.keeps_riscv_step [simplified]])

text \<open>
  C1. Every state of a run that starts in a legal state is legal: the control
  registers hold only values that the specification allows, every array index
  taken from them is in range, the bus is consistent and the program counter
  is even.
\<close>

theorem run_keeps_hart_ok:
  assumes "(hart_step E)\<^sup>*\<^sup>* h h'" "hart_ok h"
  shows "hart_ok h'"
  using assms(1) by (induction rule: rtranclp_induct) (use assms(2) hart_ok_step in blast)+

theorem run_keeps_hart_ok_witness:
  "\<forall>E :: (unit, unit) env. \<exists>h'. hart_step E hart0 h' \<and> hart_ok h' \<and> mcause (rs h') = kExFetchFault \<and>
     mepc (rs h') = 0x1000 \<and> minstret (rs h') = 1"
proof
  fix E :: "(unit, unit) env"
  define h' where "h' = upd_rs count (take_trap \<lparr>t_cause = kExFetchFault, t_tval = 0x1000, t_paddr = Some 0x1000\<rparr> hart0)"
  have s: "hart_step E hart0 h'"
    by (rule hart_step.intros) (simp add: riscv_step_def step_enter_hart0 step_body_hart0 h'_def)
  then have "hart_ok h'" using run_keeps_hart_ok [OF r_into_rtranclp hart_ok_hart0] by blast
  then show "\<exists>h'. hart_step E hart0 h' \<and> hart_ok h' \<and> mcause (rs h') = kExFetchFault \<and>
     mepc (rs h') = 0x1000 \<and> minstret (rs h') = 1"
    using s by (intro exI [of _ h'])
      (simp add: h'_def take_trap_def riscv_trap_def trap_to_s_def count_def, simp add: riscv_init_def)
qed

end
